theory Spec2Isabelle
  imports Complex_Main "HOL-Library.Sublist" "HOL-Library.Multiset"
begin

section \<open>Data model\<close>

text \<open>
  A TypeScript \<open>number\<close> is a double. A finite double is a \<open>real\<close>, and \<open>NaN\<close> is the value
  \<open>None\<close> of a \<open>real option\<close> wherever a computation can produce it: in the distances, the
  angles and the radii. The arithmetic of the doubles is a parameter, the record \<open>Machine\<close>:
  the rounding \<open>rnd\<close> that every \<open>+\<close>, \<open>-\<close>, \<open>*\<close> and \<open>/\<close> of the source ends with, the constant
  \<open>Math.PI\<close>, and the functions of \<open>Math\<close> the source calls, on the arguments where they return
  a number. What is proved for every machine holds of the doubles, whatever their digits are;
  the infinities are left out (no sum or product is taken to overflow). The machine \<open>exact\<close>
  computes without rounding; the runs on concrete fixes below are evaluated on it.
  Comparisons of numbers are exact, and false when a side is \<open>NaN\<close>. Counts (\<open>windowSize\<close>,
  \<open>maxDriftSequence\<close>) are natural numbers. A thrown \<open>Error\<close> is the value \<open>None\<close> of an
  option result. \<open>Date.now()\<close> is an input: every call of \<open>processPoint\<close> takes the reading
  \<open>now\<close> of the wall clock during that call.
\<close>

type_synonym number = "real option"

record Machine =
  rnd :: "real \<Rightarrow> real"
  Math_PI :: real
  Math_sin :: "real \<Rightarrow> real"
  Math_cos :: "real \<Rightarrow> real"
  Math_sqrt :: "real \<Rightarrow> real"
  Math_atan2 :: "real \<Rightarrow> real \<Rightarrow> real"
  Math_acos :: "real \<Rightarrow> real"
  Array_sort :: "number list \<Rightarrow> number list"

definition fadd :: "Machine \<Rightarrow> real \<Rightarrow> real \<Rightarrow> real" where
  "fadd M x y = rnd M (x + y)"

definition fsub :: "Machine \<Rightarrow> real \<Rightarrow> real \<Rightarrow> real" where
  "fsub M x y = rnd M (x - y)"

definition fmul :: "Machine \<Rightarrow> real \<Rightarrow> real \<Rightarrow> real" where
  "fmul M x y = rnd M (x * y)"

definition fdiv :: "Machine \<Rightarrow> real \<Rightarrow> real \<Rightarrow> real" where
  "fdiv M x y = rnd M (x / y)"

text \<open>The operations on numbers that may be \<open>NaN\<close>: \<open>Math.max\<close> and arithmetic give \<open>NaN\<close>
  when an argument is \<open>NaN\<close>, a comparison gives \<open>false\<close>.\<close>

definition Math_max :: "number \<Rightarrow> number \<Rightarrow> number" where
  "Math_max x y = (case (x, y) of (Some a, Some b) \<Rightarrow> Some (max a b) | _ \<Rightarrow> None)"

definition numMul :: "Machine \<Rightarrow> number \<Rightarrow> number \<Rightarrow> number" where
  "numMul M x y = (case (x, y) of (Some a, Some b) \<Rightarrow> Some (fmul M a b) | _ \<Rightarrow> None)"

definition numAdd :: "Machine \<Rightarrow> number \<Rightarrow> number \<Rightarrow> number" where
  "numAdd M x y = (case (x, y) of (Some a, Some b) \<Rightarrow> Some (fadd M a b) | _ \<Rightarrow> None)"

definition numDiv :: "Machine \<Rightarrow> number \<Rightarrow> number \<Rightarrow> number" where
  "numDiv M x y = (case (x, y) of (Some a, Some b) \<Rightarrow> Some (fdiv M a b) | _ \<Rightarrow> None)"

definition numGt :: "number \<Rightarrow> number \<Rightarrow> bool" where
  "numGt x y = (case (x, y) of (Some a, Some b) \<Rightarrow> a > b | _ \<Rightarrow> False)"

definition numLe :: "number \<Rightarrow> number \<Rightarrow> bool" where
  "numLe x y = (case (x, y) of (Some a, Some b) \<Rightarrow> a \<le> b | _ \<Rightarrow> False)"

record GPSPoint =
  lat :: real
  lng :: real
  timestamp :: real

record ProcessorConfig =
  windowSize :: nat
  validityPeriod :: real
  maxDriftSequence :: nat
  driftThresholdMultiplier :: real
  linearMotionAngleThreshold :: real

record ProcessedResult =
  originalPoints :: "GPSPoint list"
  processedPoints :: "GPSPoint list"
  filteredPoints :: "GPSPoint list"

text \<open>The private fields of class \<open>GPSProcessor\<close> (class \<open>GPSCore\<close> declares the same ones).\<close>

record ProcessorState =
  slidingWindow :: "GPSPoint list"
  validPoints :: "GPSPoint list"
  lastBasePointTime :: real
  basePoint :: "GPSPoint option"
  basePointRadius :: number
  consecutiveDriftPoints :: "GPSPoint list"
  discardedDriftPointsCount :: nat
  basePointRebuildsCount :: nat
  basePointRebuildPositions :: "GPSPoint list"

section \<open>Geometry kernel\<close>

text \<open>\<open>Math.atan2(y, x)\<close> without rounding, on finite arguments.\<close>

definition atan2 :: "real \<Rightarrow> real \<Rightarrow> real" where
  "atan2 y x =
     (if 0 < x then arctan (y / x)
      else if x < 0 then (if 0 \<le> y then arctan (y / x) + pi else arctan (y / x) - pi)
      else if 0 < y then pi / 2
      else if y < 0 then - (pi / 2)
      else 0)"

text \<open>The machine without rounding. Its \<open>Array_sort\<close>, which is asked only for an array of
  distances that holds a \<open>NaN\<close>, leaves the array as it is.\<close>

definition exact :: Machine where
  "exact = \<lparr>rnd = (\<lambda>x. x), Math_PI = pi, Math_sin = sin, Math_cos = cos, Math_sqrt = sqrt,
            Math_atan2 = atan2, Math_acos = arccos, Array_sort = (\<lambda>ds. ds)\<rparr>"

text \<open>The term \<open>a\<close> of the haversine formula, as the source computes it: products and sums
  from left to right, each one rounded.\<close>

definition haversineTerm :: "Machine \<Rightarrow> 'a GPSPoint_scheme \<Rightarrow> 'b GPSPoint_scheme \<Rightarrow> real" where
  "haversineTerm M point1 point2 =
     (let lat1Rad = fdiv M (fmul M (lat point1) (Math_PI M)) 180;
          lat2Rad = fdiv M (fmul M (lat point2) (Math_PI M)) 180;
          deltaLatRad = fdiv M (fmul M (fsub M (lat point2) (lat point1)) (Math_PI M)) 180;
          deltaLngRad = fdiv M (fmul M (fsub M (lng point2) (lng point1)) (Math_PI M)) 180
      in fadd M
           (fmul M (Math_sin M (fdiv M deltaLatRad 2)) (Math_sin M (fdiv M deltaLatRad 2)))
           (fmul M
              (fmul M (fmul M (Math_cos M lat1Rad) (Math_cos M lat2Rad))
                      (Math_sin M (fdiv M deltaLngRad 2)))
              (Math_sin M (fdiv M deltaLngRad 2))))"

text \<open>The haversine formula shared by \<open>haversineDistance\<close> (fixed Earth radius) and the
  analyzer's \<open>calculateDistance\<close> (radius from the configuration). \<open>Math.sqrt\<close> of a negative
  number is \<open>NaN\<close>, and so are \<open>Math.atan2\<close> of it and the distance: that is the case when
  the rounded term \<open>a\<close> is below 0 or above 1.\<close>

definition haversine :: "Machine \<Rightarrow> real \<Rightarrow> 'a GPSPoint_scheme \<Rightarrow> 'b GPSPoint_scheme \<Rightarrow> number" where
  "haversine M R point1 point2 =
     (let a = haversineTerm M point1 point2
      in if a < 0 \<or> fsub M 1 a < 0 then None
         else
           let c = fmul M 2 (Math_atan2 M (Math_sqrt M a) (Math_sqrt M (fsub M 1 a)))
           in Some (fmul M R c))"

definition haversineDistance :: "Machine \<Rightarrow> GPSPoint \<Rightarrow> GPSPoint \<Rightarrow> number" where
  "haversineDistance M point1 point2 = haversine M 6371000 point1 point2"

text \<open>\<open>Math.acos(n / d)\<close>: a zero divisor gives an infinity or \<open>NaN\<close>, and \<open>Math.acos\<close> of
  either, or of a quotient that is rounded to a number outside \<open>[-1, 1]\<close>, is \<open>NaN\<close>.\<close>

definition acosQuot :: "Machine \<Rightarrow> real \<Rightarrow> real \<Rightarrow> number" where
  "acosQuot M n d =
     (if d = 0 then None
      else if - 1 \<le> fdiv M n d \<and> fdiv M n d \<le> 1 then Some (Math_acos M (fdiv M n d))
      else None)"

text \<open>The law of cosines over three side lengths, in degrees; \<open>Math.min\<close> of a list that
  holds a \<open>NaN\<close> is \<open>NaN\<close>.\<close>

definition minAngleOfSides :: "Machine \<Rightarrow> real \<Rightarrow> real \<Rightarrow> real \<Rightarrow> number" where
  "minAngleOfSides M a b c =
     (case (acosQuot M (fsub M (fadd M (fmul M b b) (fmul M c c)) (fmul M a a))
                       (fmul M (fmul M 2 b) c),
            acosQuot M (fsub M (fadd M (fmul M a a) (fmul M c c)) (fmul M b b))
                       (fmul M (fmul M 2 a) c),
            acosQuot M (fsub M (fadd M (fmul M a a) (fmul M b b)) (fmul M c c))
                       (fmul M (fmul M 2 a) b)) of
        (Some angleA, Some angleB, Some angleC) \<Rightarrow>
          Some (min (fdiv M (fmul M angleA 180) (Math_PI M))
                 (min (fdiv M (fmul M angleB 180) (Math_PI M))
                      (fdiv M (fmul M angleC 180) (Math_PI M))))
      | _ \<Rightarrow> None)"

text \<open>\<open>GPSProcessor.calculateMinAngleInTriangle\<close> (and \<open>GPSCore\<close>'s, the same text): no
  test for a side of length zero. A side that is \<open>NaN\<close> makes the three angles \<open>NaN\<close>.\<close>

definition calculateMinAngleInTriangle :: "Machine \<Rightarrow> GPSPoint \<Rightarrow> GPSPoint \<Rightarrow> GPSPoint \<Rightarrow> number" where
  "calculateMinAngleInTriangle M p1 p2 p3 =
     (case (haversineDistance M p2 p3, haversineDistance M p1 p3, haversineDistance M p1 p2) of
        (Some a, Some b, Some c) \<Rightarrow> minAngleOfSides M a b c
      | _ \<Rightarrow> None)"

text \<open>\<open>calculateMedianPoint\<close> throws on an empty array. The coordinates of the fixes are
  numbers, and the sign of a rounded difference of two doubles is the sign of the
  difference, so the two sorts are the sorts by latitude and by longitude.\<close>

definition calculateMedianPoint :: "Machine \<Rightarrow> real \<Rightarrow> GPSPoint list \<Rightarrow> GPSPoint option" where
  "calculateMedianPoint M now points =
     (if length points = 0 then None
      else
        let sortedByLat = sort_key lat points;
            sortedByLng = sort_key lng points;
            midIndex = length points div 2
        in if length points mod 2 = 0
           then Some \<lparr>lat = fdiv M (fadd M (lat (sortedByLat ! (midIndex - 1)))
                                          (lat (sortedByLat ! midIndex))) 2,
                      lng = fdiv M (fadd M (lng (sortedByLng ! (midIndex - 1)))
                                          (lng (sortedByLng ! midIndex))) 2,
                      timestamp = now\<rparr>
           else Some \<lparr>lat = lat (sortedByLat ! midIndex),
                      lng = lng (sortedByLng ! midIndex),
                      timestamp = now\<rparr>)"

section \<open>The detector of \<open>GPSProcessor\<close> and \<open>GPSCore\<close>\<close>

definition isDriftPoint :: "Machine \<Rightarrow> ProcessorConfig \<Rightarrow> ProcessorState \<Rightarrow> GPSPoint \<Rightarrow> bool" where
  "isDriftPoint M cfg st point =
     (case basePoint st of
        None \<Rightarrow> False
      | Some bp \<Rightarrow>
          if basePointRadius st = Some 0 then False
          else numGt (haversineDistance M point bp)
                     (numMul M (basePointRadius st) (Some (driftThresholdMultiplier cfg))))"

text \<open>\<open>points.slice(-3)\<close>.\<close>

definition lastThree :: "'a list \<Rightarrow> 'a list" where
  "lastThree points = drop (length points - 3) points"

text \<open>\<open>isLinearMotion\<close> reads \<open>this.basePoint!\<close>; on a null base point the property access
  throws, which is the result \<open>None\<close>. A \<open>NaN\<close> angle fails the comparison with the threshold,
  a \<open>NaN\<close> distance or radius the comparison of the distances.\<close>

definition isLinearMotion :: "Machine \<Rightarrow> ProcessorConfig \<Rightarrow> ProcessorState \<Rightarrow> GPSPoint list \<Rightarrow> bool option" where
  "isLinearMotion M cfg st points =
     (if length points < 3 then Some False
      else
        let recentThree = lastThree points in
        case calculateMinAngleInTriangle M (recentThree ! 0) (recentThree ! 1) (recentThree ! 2) of
          None \<Rightarrow> Some False
        | Some minAngle \<Rightarrow>
            if minAngle < linearMotionAngleThreshold cfg then
              (case basePoint st of
                 None \<Rightarrow> None
               | Some bp \<Rightarrow>
                   let maxDistance =
                         Math_max (haversineDistance M (recentThree ! 0) bp)
                           (Math_max (haversineDistance M (recentThree ! 1) bp)
                                     (haversineDistance M (recentThree ! 2) bp));
                       maxAllowedDistance =
                         numMul M (numMul M (basePointRadius st)
                                            (Some (driftThresholdMultiplier cfg))) (Some 5)
                   in if numLe maxDistance maxAllowedDistance then Some True else Some False)
            else Some False)"

definition calculateBasePointRadius :: "Machine \<Rightarrow> ProcessorConfig \<Rightarrow> ProcessorState \<Rightarrow> number" where
  "calculateBasePointRadius M cfg st =
     (case basePoint st of
        None \<Rightarrow> Some 0
      | Some bp \<Rightarrow>
          if length (slidingWindow st) < windowSize cfg then Some 0
          else fold (\<lambda>point maxDistance. Math_max maxDistance (haversineDistance M point bp))
                 (slidingWindow st) (Some 0))"

definition updateBasePoint :: "Machine \<Rightarrow> ProcessorConfig \<Rightarrow> real \<Rightarrow> ProcessorState \<Rightarrow> ProcessorState option" where
  "updateBasePoint M cfg now st =
     (if length (slidingWindow st) \<ge> windowSize cfg then
        (case calculateMedianPoint M now (slidingWindow st) of
           None \<Rightarrow> None
         | Some bp \<Rightarrow>
             let st1 = st\<lparr>basePoint := Some bp, lastBasePointTime := now\<rparr>
             in Some (st1\<lparr>basePointRadius := calculateBasePointRadius M cfg st1\<rparr>))
      else Some st)"

definition isBasePointExpired :: "Machine \<Rightarrow> ProcessorConfig \<Rightarrow> real \<Rightarrow> ProcessorState \<Rightarrow> bool" where
  "isBasePointExpired M cfg now st = (fsub M now (lastBasePointTime st) > validityPeriod cfg)"

text \<open>\<open>xs.push(p); if (xs.length > cap) xs.shift();\<close>\<close>

definition pushShift :: "nat \<Rightarrow> 'a list \<Rightarrow> 'a \<Rightarrow> 'a list" where
  "pushShift cap xs p = (let ys = xs @ [p] in if length ys > cap then tl ys else ys)"

text \<open>The loop that restores the buffered drift points: each one is appended to the accepted
  list and pushed into the window, the window shifted when it exceeds \<open>windowSize\<close>.\<close>

fun restoreDriftPoints :: "ProcessorConfig \<Rightarrow> GPSPoint list \<Rightarrow> ProcessorState \<Rightarrow> ProcessorState" where
  "restoreDriftPoints cfg [] st = st"
| "restoreDriftPoints cfg (driftPoint # rest) st =
     restoreDriftPoints cfg rest
       (st\<lparr>validPoints := validPoints st @ [driftPoint],
           slidingWindow := pushShift (windowSize cfg) (slidingWindow st) driftPoint\<rparr>)"

definition linearRecovery :: "Machine \<Rightarrow> ProcessorConfig \<Rightarrow> real \<Rightarrow> GPSPoint \<Rightarrow> ProcessorState \<Rightarrow> (bool \<times> ProcessorState) option" where
  "linearRecovery M cfg now point st =
     (let st1 = restoreDriftPoints cfg (consecutiveDriftPoints st) st;
          st2 = st1\<lparr>consecutiveDriftPoints := []\<rparr>
      in case updateBasePoint M cfg now st2 of
           None \<Rightarrow> None
         | Some st3 \<Rightarrow>
             Some (True, st3\<lparr>basePointRebuildsCount := basePointRebuildsCount st3 + 1,
                              basePointRebuildPositions := basePointRebuildPositions st3 @ [point]\<rparr>))"

definition forcedRebuild :: "Machine \<Rightarrow> ProcessorConfig \<Rightarrow> real \<Rightarrow> GPSPoint \<Rightarrow> ProcessorState \<Rightarrow> (bool \<times> ProcessorState) option" where
  "forcedRebuild M cfg now point st =
     (let st1 = st\<lparr>slidingWindow := consecutiveDriftPoints st, consecutiveDriftPoints := []\<rparr>
      in case updateBasePoint M cfg now st1 of
           None \<Rightarrow> None
         | Some st2 \<Rightarrow>
             Some (True, st2\<lparr>basePointRebuildsCount := basePointRebuildsCount st2 + 1,
                              basePointRebuildPositions := basePointRebuildPositions st2 @ [point],
                              validPoints := validPoints st2 @ [point]\<rparr>))"

text \<open>The branch of \<open>processPoint\<close> taken when \<open>isDriftPoint\<close> holds.\<close>

definition driftBranch :: "Machine \<Rightarrow> ProcessorConfig \<Rightarrow> real \<Rightarrow> GPSPoint \<Rightarrow> ProcessorState \<Rightarrow> (bool \<times> ProcessorState) option" where
  "driftBranch M cfg now point st =
     (let st1 = st\<lparr>consecutiveDriftPoints :=
                     pushShift (maxDriftSequence cfg) (consecutiveDriftPoints st) point\<rparr>
      in case (if length (consecutiveDriftPoints st1) \<ge> 3
               then isLinearMotion M cfg st1 (consecutiveDriftPoints st1)
               else Some False) of
           None \<Rightarrow> None
         | Some True \<Rightarrow> linearRecovery M cfg now point st1
         | Some False \<Rightarrow>
             if length (consecutiveDriftPoints st1) \<ge> maxDriftSequence cfg
             then forcedRebuild M cfg now point st1
             else Some (False, st1\<lparr>discardedDriftPointsCount := discardedDriftPointsCount st1 + 1\<rparr>))"

definition processPoint :: "Machine \<Rightarrow> ProcessorConfig \<Rightarrow> real \<Rightarrow> GPSPoint \<Rightarrow> ProcessorState \<Rightarrow> (bool \<times> ProcessorState) option" where
  "processPoint M cfg now point st =
     (if length (slidingWindow st) < windowSize cfg then
        (let st1 = st\<lparr>slidingWindow := slidingWindow st @ [point],
                       validPoints := validPoints st @ [point]\<rparr>
         in if length (slidingWindow st1) = windowSize cfg
            then (case updateBasePoint M cfg now st1 of
                    None \<Rightarrow> None
                  | Some st2 \<Rightarrow> Some (True, st2))
            else Some (True, st1))
      else if isBasePointExpired M cfg now st then
        Some (True, st\<lparr>slidingWindow := [point],
                        validPoints := validPoints st @ [point],
                        basePoint := None,
                        basePointRadius := Some 0,
                        consecutiveDriftPoints := []\<rparr>)
      else if isDriftPoint M cfg st point then driftBranch M cfg now point st
      else
        (let st1 = (if length (consecutiveDriftPoints st) > 0
                    then st\<lparr>consecutiveDriftPoints := []\<rparr> else st);
             st2 = st1\<lparr>slidingWindow := pushShift (windowSize cfg) (slidingWindow st1) point\<rparr>;
             st3 = st2\<lparr>validPoints := validPoints st2 @ [point]\<rparr>
         in case updateBasePoint M cfg now st3 of
              None \<Rightarrow> None
            | Some st4 \<Rightarrow> Some (True, st4)))"

text \<open>The state \<open>processTrajectory\<close> resets to.\<close>

definition resetState :: ProcessorState where
  "resetState =
     \<lparr>slidingWindow = [], validPoints = [], lastBasePointTime = 0, basePoint = None,
      basePointRadius = Some 0, consecutiveDriftPoints = [], discardedDriftPointsCount = 0,
      basePointRebuildsCount = 0, basePointRebuildPositions = []\<rparr>"

text \<open>The loop of \<open>processTrajectory\<close>: \<open>clock i\<close> is the wall-clock reading while the fix at
  position \<open>i\<close> is processed; \<open>acc\<close> is the local array \<open>filteredPoints\<close>.\<close>

fun processLoop ::
  "Machine \<Rightarrow> ProcessorConfig \<Rightarrow> (nat \<Rightarrow> real) \<Rightarrow> nat \<Rightarrow> GPSPoint list \<Rightarrow> ProcessorState
     \<Rightarrow> GPSPoint list \<Rightarrow> (GPSPoint list \<times> ProcessorState) option" where
  "processLoop M cfg clock i [] st acc = Some (acc, st)"
| "processLoop M cfg clock i (point # rest) st acc =
     (case processPoint M cfg (clock i) point st of
        None \<Rightarrow> None
      | Some (accepted, st') \<Rightarrow>
          processLoop M cfg clock (Suc i) rest st' (if accepted then acc @ [point] else acc))"

text \<open>\<open>processTrajectory\<close> returns the result record; the final state is returned with it, as
  \<open>getStatus\<close> reads it afterwards.\<close>

definition processTrajectory ::
  "Machine \<Rightarrow> ProcessorConfig \<Rightarrow> (nat \<Rightarrow> real) \<Rightarrow> GPSPoint list
     \<Rightarrow> (ProcessedResult \<times> ProcessorState) option" where
  "processTrajectory M cfg clock originalPts =
     (case processLoop M cfg clock 0 originalPts resetState [] of
        None \<Rightarrow> None
      | Some (filtered, st) \<Rightarrow>
          Some (\<lparr>originalPoints = originalPts, processedPoints = filtered,
                 filteredPoints = filtered\<rparr>, st))"

section \<open>The detector of \<open>GpsTrajectoryAnalyzer\<close>\<close>

text \<open>
  The analyzer keeps its own state. Its fields and methods carry the names of the source; where
  a name is already taken by the detector above it has the suffix \<open>A\<close>. Logging has no effect
  on the state and is left out, and so are the statistics and the markers that
  \<open>processTrajectory\<close> derives after its loop.
\<close>

record AlgorithmConfig = ProcessorConfig +
  earthRadius :: real

record InternalGPSPoint = GPSPoint +
  index :: "nat option"

record WindowPoint =
  wpoint :: InternalGPSPoint
  isValid :: bool
  isDrift :: bool

record BasePointInfo =
  bpoint :: InternalGPSPoint
  radius :: number
  createdAt :: real
  validPointsCount :: nat

record AnalyzerState =
  slidingWindowA :: "WindowPoint list"
  validPointsA :: "InternalGPSPoint list"
  basePointA :: "BasePointInfo option"
  consecutiveDriftCount :: nat
  processedCount :: nat
  filteredCount :: int
  driftCount :: int
  basePointRebuilds :: nat
  isInitialized :: bool

record ProcessingResult =
  originalPointsA :: "GPSPoint list"
  processedPointsA :: "GPSPoint list"
  filteredPointsA :: "GPSPoint list"

definition DEFAULT_CONFIG :: AlgorithmConfig where
  "DEFAULT_CONFIG =
     \<lparr>windowSize = 10, validityPeriod = 15000, maxDriftSequence = 10,
      driftThresholdMultiplier = 2, linearMotionAngleThreshold = 30, earthRadius = 6371000\<rparr>"

definition reset :: AnalyzerState where
  "reset =
     \<lparr>slidingWindowA = [], validPointsA = [], basePointA = None, consecutiveDriftCount = 0,
      processedCount = 0, filteredCount = 0, driftCount = 0, basePointRebuilds = 0,
      isInitialized = True\<rparr>"

text \<open>\<open>xs.slice(-n)\<close> for \<open>n \<ge> 0\<close>: the last \<open>n\<close> elements, and the whole array for \<open>n = 0\<close>
  (\<open>-0\<close> is the start index \<open>0\<close>).\<close>

definition sliceLast :: "nat \<Rightarrow> 'a list \<Rightarrow> 'a list" where
  "sliceLast n xs = (if n = 0 then xs else drop (length xs - n) xs)"

definition calculateDistance ::
  "Machine \<Rightarrow> AlgorithmConfig \<Rightarrow> InternalGPSPoint \<Rightarrow> InternalGPSPoint \<Rightarrow> number" where
  "calculateDistance M cfg point1 point2 = haversine M (earthRadius cfg) point1 point2"

text \<open>\<open>calculateCentroid\<close> throws on an empty array.\<close>

definition calculateCentroid :: "Machine \<Rightarrow> real \<Rightarrow> InternalGPSPoint list \<Rightarrow> InternalGPSPoint option" where
  "calculateCentroid M now points =
     (if length points = 0 then None
      else
        let sumLat = fold (\<lambda>p s. fadd M s (lat p)) points 0;
            sumLng = fold (\<lambda>p s. fadd M s (lng p)) points 0
        in Some \<lparr>lat = fdiv M sumLat (real (length points)),
                 lng = fdiv M sumLng (real (length points)),
                 timestamp = now, index = None\<rparr>)"

text \<open>\<open>distances.sort((a, b) => a - b)\<close>: the ascending sort when every distance is a
  number. When one is \<open>NaN\<close> the comparator is not consistent and the order is left to the
  implementation: it is the machine's \<open>Array_sort\<close>, and nothing that is proved below depends
  on what it returns.\<close>

definition sortDistances :: "Machine \<Rightarrow> number list \<Rightarrow> number list" where
  "sortDistances M distances =
     (if None \<in> set distances then Array_sort M distances
      else map Some (sort (map the distances)))"

definition calculateRadius ::
  "Machine \<Rightarrow> AlgorithmConfig \<Rightarrow> InternalGPSPoint list \<Rightarrow> InternalGPSPoint \<Rightarrow> number" where
  "calculateRadius M cfg points center =
     (if length points = 0 then Some 50
      else
        let distances = sortDistances M (map (\<lambda>p. calculateDistance M cfg p center) points);
            midIndex = length points div 2
        in if length points mod 2 = 0
           then numDiv M (numAdd M (distances ! (midIndex - 1)) (distances ! midIndex)) (Some 2)
           else distances ! midIndex)"

text \<open>The analyzer's \<open>calculateMinAngleInTriangle\<close> returns 0 when a side has length zero.\<close>

definition calculateMinAngleInTriangleA ::
  "Machine \<Rightarrow> AlgorithmConfig \<Rightarrow> InternalGPSPoint \<Rightarrow> InternalGPSPoint \<Rightarrow> InternalGPSPoint \<Rightarrow> number" where
  "calculateMinAngleInTriangleA M cfg p1 p2 p3 =
     (let a = calculateDistance M cfg p2 p3;
          b = calculateDistance M cfg p1 p3;
          c = calculateDistance M cfg p1 p2
      in if a = Some 0 \<or> b = Some 0 \<or> c = Some 0 then Some 0
         else (case (a, b, c) of
                 (Some a', Some b', Some c') \<Rightarrow> minAngleOfSides M a' b' c'
               | _ \<Rightarrow> None))"

definition addToSlidingWindow :: "AlgorithmConfig \<Rightarrow> InternalGPSPoint \<Rightarrow> AnalyzerState \<Rightarrow> AnalyzerState" where
  "addToSlidingWindow cfg p st =
     st\<lparr>slidingWindowA :=
          pushShift (windowSize cfg) (slidingWindowA st) \<lparr>wpoint = p, isValid = False, isDrift = False\<rparr>\<rparr>"

definition checkBasePointExpiry :: "Machine \<Rightarrow> AlgorithmConfig \<Rightarrow> real \<Rightarrow> AnalyzerState \<Rightarrow> AnalyzerState" where
  "checkBasePointExpiry M cfg currentTimestamp st =
     (case basePointA st of
        None \<Rightarrow> st
      | Some b \<Rightarrow>
          if fsub M currentTimestamp (createdAt b) > validityPeriod cfg
          then st\<lparr>basePointA := None\<rparr> else st)"

definition isDriftPointA :: "Machine \<Rightarrow> AlgorithmConfig \<Rightarrow> AnalyzerState \<Rightarrow> InternalGPSPoint \<Rightarrow> bool" where
  "isDriftPointA M cfg st p =
     (case basePointA st of
        None \<Rightarrow> False
      | Some b \<Rightarrow> numGt (calculateDistance M cfg p (bpoint b))
                        (numMul M (radius b) (Some (driftThresholdMultiplier cfg))))"

text \<open>The update of the last window entry, skipped when the window is empty.\<close>

definition markLast :: "(WindowPoint \<Rightarrow> WindowPoint) \<Rightarrow> WindowPoint list \<Rightarrow> WindowPoint list" where
  "markLast f ws = (if ws = [] then [] else butlast ws @ [f (last ws)])"

text \<open>The three places that write a base point store \<open>Math.max(radius, 50)\<close>, which is
  \<open>NaN\<close> when the radius is.\<close>

definition updateBasePointA :: "Machine \<Rightarrow> AlgorithmConfig \<Rightarrow> real \<Rightarrow> AnalyzerState \<Rightarrow> AnalyzerState option" where
  "updateBasePointA M cfg now st =
     (case basePointA st of
        None \<Rightarrow>
          if length (validPointsA st) \<ge> 3 then
            (case calculateCentroid M now (validPointsA st) of
               None \<Rightarrow> None
             | Some centroid \<Rightarrow>
                 Some (st\<lparr>basePointA := Some
                   \<lparr>bpoint = centroid,
                    radius = Math_max (calculateRadius M cfg (validPointsA st) centroid) (Some 50),
                    createdAt = now,
                    validPointsCount = length (validPointsA st)\<rparr>\<rparr>))
          else Some st
      | Some b \<Rightarrow>
          (let recentPoints = sliceLast (windowSize cfg) (validPointsA st) in
           case calculateCentroid M now recentPoints of
             None \<Rightarrow> None
           | Some centroid \<Rightarrow>
               Some (st\<lparr>basePointA := Some
                 (b\<lparr>bpoint := centroid,
                    radius := Math_max (calculateRadius M cfg recentPoints centroid) (Some 50),
                    validPointsCount := length recentPoints\<rparr>)\<rparr>)))"

definition rebuildBasePoint :: "Machine \<Rightarrow> AlgorithmConfig \<Rightarrow> real \<Rightarrow> AnalyzerState \<Rightarrow> AnalyzerState option" where
  "rebuildBasePoint M cfg now st =
     (let st1 = st\<lparr>basePointRebuilds := basePointRebuilds st + 1\<rparr>;
          recentValidPoints = sliceLast (windowSize cfg) (validPointsA st1)
      in if length recentValidPoints > 0 then
           (case calculateCentroid M now recentValidPoints of
              None \<Rightarrow> None
            | Some centroid \<Rightarrow>
                Some (st1\<lparr>basePointA := Some
                  \<lparr>bpoint = centroid,
                   radius = Math_max (calculateRadius M cfg recentValidPoints centroid) (Some 50),
                   createdAt = now,
                   validPointsCount = length recentValidPoints\<rparr>\<rparr>))
         else Some st1)"

text \<open>The loop of \<open>isLinearMotionMisjudgment\<close> over the consecutive triples: it returns
  \<open>false\<close> at the first angle above the threshold (a \<open>NaN\<close> angle is not above it).\<close>

fun noSharpTurn :: "Machine \<Rightarrow> AlgorithmConfig \<Rightarrow> InternalGPSPoint list \<Rightarrow> bool" where
  "noSharpTurn M cfg (p1 # p2 # p3 # rest) =
     (case calculateMinAngleInTriangleA M cfg p1 p2 p3 of
        Some angle \<Rightarrow>
          if angle > linearMotionAngleThreshold cfg then False
          else noSharpTurn M cfg (p2 # p3 # rest)
      | None \<Rightarrow> noSharpTurn M cfg (p2 # p3 # rest))"
| "noSharpTurn M cfg ps = True"

definition isLinearMotionMisjudgment :: "Machine \<Rightarrow> AlgorithmConfig \<Rightarrow> AnalyzerState \<Rightarrow> bool" where
  "isLinearMotionMisjudgment M cfg st =
     (if length (slidingWindowA st) < 3 then False
      else
        let recentPoints =
              map wpoint (sliceLast (min (maxDriftSequence cfg) (length (slidingWindowA st)))
                                    (slidingWindowA st))
        in if length recentPoints < 3 then False else noSharpTurn M cfg recentPoints)"

definition recoverFromLinearMotion :: "Machine \<Rightarrow> AlgorithmConfig \<Rightarrow> real \<Rightarrow> AnalyzerState \<Rightarrow> AnalyzerState option" where
  "recoverFromLinearMotion M cfg now st =
     (let recentDriftPoints =
            map wpoint (filter isDrift (sliceLast (consecutiveDriftCount st) (slidingWindowA st)));
          st1 = st\<lparr>validPointsA := validPointsA st @ recentDriftPoints,
                    filteredCount := filteredCount st - int (length recentDriftPoints),
                    driftCount := driftCount st - int (length recentDriftPoints)\<rparr>
      in updateBasePointA M cfg now st1)"

definition handleConsecutiveDrift :: "Machine \<Rightarrow> AlgorithmConfig \<Rightarrow> real \<Rightarrow> AnalyzerState \<Rightarrow> AnalyzerState option" where
  "handleConsecutiveDrift M cfg now st =
     (case (if isLinearMotionMisjudgment M cfg st
            then recoverFromLinearMotion M cfg now st
            else rebuildBasePoint M cfg now st) of
        None \<Rightarrow> None
      | Some st1 \<Rightarrow> Some (st1\<lparr>consecutiveDriftCount := 0\<rparr>))"

definition handleDriftPoint :: "Machine \<Rightarrow> AlgorithmConfig \<Rightarrow> real \<Rightarrow> InternalGPSPoint \<Rightarrow> AnalyzerState \<Rightarrow> AnalyzerState option" where
  "handleDriftPoint M cfg now p st =
     (let st1 = st\<lparr>consecutiveDriftCount := consecutiveDriftCount st + 1,
                    driftCount := driftCount st + 1,
                    filteredCount := filteredCount st + 1\<rparr>;
          st2 = st1\<lparr>slidingWindowA := markLast (\<lambda>w. w\<lparr>isDrift := True\<rparr>) (slidingWindowA st1)\<rparr>
      in if consecutiveDriftCount st2 \<ge> maxDriftSequence cfg
         then handleConsecutiveDrift M cfg now st2
         else Some st2)"

definition handleValidPoint :: "Machine \<Rightarrow> AlgorithmConfig \<Rightarrow> real \<Rightarrow> InternalGPSPoint \<Rightarrow> AnalyzerState \<Rightarrow> AnalyzerState option" where
  "handleValidPoint M cfg now p st =
     (let st1 = st\<lparr>consecutiveDriftCount := 0, validPointsA := validPointsA st @ [p]\<rparr>;
          st2 = st1\<lparr>slidingWindowA := markLast (\<lambda>w. w\<lparr>isValid := True\<rparr>) (slidingWindowA st1)\<rparr>
      in updateBasePointA M cfg now st2)"

definition processPointA :: "Machine \<Rightarrow> AlgorithmConfig \<Rightarrow> real \<Rightarrow> GPSPoint \<Rightarrow> AnalyzerState \<Rightarrow> (bool \<times> AnalyzerState) option" where
  "processPointA M cfg now pt st =
     (let st0 = (if \<not> isInitialized st then reset else st);
          internalPoint = \<lparr>lat = lat pt, lng = lng pt, timestamp = timestamp pt,
                           index = Some (processedCount st0)\<rparr>;
          st1 = st0\<lparr>processedCount := processedCount st0 + 1\<rparr>;
          st2 = addToSlidingWindow cfg internalPoint st1;
          st3 = checkBasePointExpiry M cfg (timestamp internalPoint) st2
      in if isDriftPointA M cfg st3 internalPoint then
           (case handleDriftPoint M cfg now internalPoint
                   (st3\<lparr>consecutiveDriftCount := consecutiveDriftCount st3 + 1\<rparr>) of
              None \<Rightarrow> None
            | Some st4 \<Rightarrow> Some (False, st4))
         else
           (case handleValidPoint M cfg now internalPoint (st3\<lparr>consecutiveDriftCount := 0\<rparr>) of
              None \<Rightarrow> None
            | Some st4 \<Rightarrow> Some (True, st4)))"

text \<open>The loop of the analyzer's \<open>processTrajectory\<close>, with its two local arrays.\<close>

fun processLoopA ::
  "Machine \<Rightarrow> AlgorithmConfig \<Rightarrow> (nat \<Rightarrow> real) \<Rightarrow> nat \<Rightarrow> GPSPoint list \<Rightarrow> AnalyzerState
     \<Rightarrow> GPSPoint list \<Rightarrow> GPSPoint list
     \<Rightarrow> (GPSPoint list \<times> GPSPoint list \<times> AnalyzerState) option" where
  "processLoopA M cfg clock i [] st processed filtered = Some (processed, filtered, st)"
| "processLoopA M cfg clock i (pt # rest) st processed filtered =
     (case processPointA M cfg (clock i) pt st of
        None \<Rightarrow> None
      | Some (isValidPt, st') \<Rightarrow>
          if isValidPt
          then processLoopA M cfg clock (Suc i) rest st' (processed @ [pt]) filtered
          else processLoopA M cfg clock (Suc i) rest st' processed (filtered @ [pt]))"

definition processTrajectoryA ::
  "Machine \<Rightarrow> AlgorithmConfig \<Rightarrow> (nat \<Rightarrow> real) \<Rightarrow> GPSPoint list
     \<Rightarrow> (ProcessingResult \<times> AnalyzerState) option" where
  "processTrajectoryA M cfg clock pts =
     (case processLoopA M cfg clock 0 pts reset [] [] of
        None \<Rightarrow> None
      | Some (processed, filtered, st) \<Rightarrow>
          Some (\<lparr>originalPointsA = pts, processedPointsA = processed,
                 filteredPointsA = filtered\<rparr>, st))"

section \<open>Input adapter: \<open>parseTimestamp\<close>\<close>

text \<open>
  \<open>parseTimestamp\<close> reads its string argument through two builtins, \<open>parseFloat\<close> and the
  \<open>Date\<close> constructor. A token is modelled by what the two builtins make of it: \<open>numeric\<close>
  is the result of \<open>parseFloat\<close> (a finite number) and \<open>civil\<close> the result of
  \<open>new Date(s).getTime()\<close>, with \<open>None\<close> for \<open>NaN\<close> in both. \<open>GPSDataConverter.parseTimestamp\<close> and \<open>GPSCore.parseTimestamp\<close>
  have the same text.
\<close>

record Token =
  numeric :: "real option"
  civil :: "real option"

definition year2000Timestamp :: real where
  "year2000Timestamp = 946684800"

definition parseTimestamp :: "Token \<Rightarrow> real option" where
  "parseTimestamp timestampStr =
     (case numeric timestampStr of
        Some numericTimestamp \<Rightarrow>
          if numericTimestamp > year2000Timestamp \<and> numericTimestamp < year2000Timestamp * 1000
          then Some (numericTimestamp * 1000)
          else if numericTimestamp > year2000Timestamp * 1000
          then Some numericTimestamp
          else civil timestampStr
      | None \<Rightarrow> civil timestampStr)"

section \<open>Anomaly simulator\<close>

text \<open>
  \<open>Math.random()\<close> is an input: a generator is a sequence of readings and the position of
  the next one. The four \<open>apply...\<close> methods behind \<open>applyDriftEffect\<close> are a parameter of
  \<open>generateSimulatedData\<close>: what is stated about a run that applies no effect holds whatever
  they do. A point carries the transient \<open>isDeleted\<close> tag of the source (\<open>False\<close> when the
  property is absent).
\<close>

datatype DriftType = Static | Moving | Tunnel | Speed

record DriftConfig =
  driftType :: DriftType
  startIndex :: int
  endIndex :: int
  distance :: real
  direction :: real
  intensity :: real

record SimPoint = GPSPoint +
  isDeleted :: bool

datatype MarkerType = TunnelMarker | DriftMarker | SpeedMarker | RebuildMarker

record MarkerInfo =
  markerType :: MarkerType
  position :: "real \<times> real"
  info :: string
  markerTimestamp :: "real option"

record DistributionBand =
  ratio :: real
  bandRange :: "real \<times> real"

text \<open>\<open>SimulationOptions\<close>: every property is optional.\<close>

record SimulationOptions =
  staticDriftCount :: "nat option"
  movingDriftCount :: "nat option"
  tunnelCount :: "nat option"
  speedScenarioCount :: "nat option"
  driftDistanceRange :: "(real \<times> real) option"
  driftDistribution :: "DistributionBand list option"

record RequiredSimulationOptions =
  staticDriftCountR :: nat
  movingDriftCountR :: nat
  tunnelCountR :: nat
  speedScenarioCountR :: nat
  driftDistanceRangeR :: "real \<times> real"
  driftDistributionR :: "DistributionBand list"

text \<open>The defaults of the generator that removes duplicates (the second one in the file).\<close>

definition DEFAULT_SIMULATION_OPTIONS :: RequiredSimulationOptions where
  "DEFAULT_SIMULATION_OPTIONS =
     \<lparr>staticDriftCountR = 5, movingDriftCountR = 5, tunnelCountR = 3, speedScenarioCountR = 4,
      driftDistanceRangeR = (10, 200),
      driftDistributionR = [\<lparr>ratio = 9 / 10, bandRange = (10, 50)\<rparr>,
                            \<lparr>ratio = 1 / 10, bandRange = (50, 200)\<rparr>]\<rparr>"

text \<open>The defaults of the first generator in the file.\<close>

definition DEFAULT_SIMULATION_OPTIONS1 :: RequiredSimulationOptions where
  "DEFAULT_SIMULATION_OPTIONS1 =
     \<lparr>staticDriftCountR = 2, movingDriftCountR = 1, tunnelCountR = 1, speedScenarioCountR = 1,
      driftDistanceRangeR = (100, 500),
      driftDistributionR = [\<lparr>ratio = 6 / 10, bandRange = (50, 200)\<rparr>,
                            \<lparr>ratio = 3 / 10, bandRange = (200, 400)\<rparr>,
                            \<lparr>ratio = 1 / 10, bandRange = (400, 800)\<rparr>]\<rparr>"

text \<open>\<open>{ ...DEFAULT_SIMULATION_OPTIONS, ...options }\<close>\<close>

definition mergeOptions :: "RequiredSimulationOptions \<Rightarrow> SimulationOptions \<Rightarrow> RequiredSimulationOptions" where
  "mergeOptions d opt =
     \<lparr>staticDriftCountR = (case staticDriftCount opt of Some v \<Rightarrow> v | None \<Rightarrow> staticDriftCountR d),
      movingDriftCountR = (case movingDriftCount opt of Some v \<Rightarrow> v | None \<Rightarrow> movingDriftCountR d),
      tunnelCountR = (case tunnelCount opt of Some v \<Rightarrow> v | None \<Rightarrow> tunnelCountR d),
      speedScenarioCountR =
        (case speedScenarioCount opt of Some v \<Rightarrow> v | None \<Rightarrow> speedScenarioCountR d),
      driftDistanceRangeR =
        (case driftDistanceRange opt of Some v \<Rightarrow> v | None \<Rightarrow> driftDistanceRangeR d),
      driftDistributionR =
        (case driftDistribution opt of Some v \<Rightarrow> v | None \<Rightarrow> driftDistributionR d)\<rparr>"

type_synonym rng = "(nat \<Rightarrow> real) \<times> nat"

definition random :: "rng \<Rightarrow> real \<times> rng" where
  "random g = (fst g (snd g), (fst g, Suc (snd g)))"

text \<open>The loop of \<open>getRandomDistance\<close> over the bands, with the running \<open>cumulativeRatio\<close>.\<close>

fun pickBand :: "real \<Rightarrow> real \<Rightarrow> DistributionBand list \<Rightarrow> (real \<times> real) option" where
  "pickBand r cumulativeRatio [] = None"
| "pickBand r cumulativeRatio (band # rest) =
     (let cumulativeRatio' = cumulativeRatio + ratio band
      in if r \<le> cumulativeRatio' then Some (bandRange band)
         else pickBand r cumulativeRatio' rest)"

text \<open>\<open>getRandomDistance\<close>; on an empty distribution the fallback reads a property of
  \<open>undefined\<close> and throws.\<close>

definition getRandomDistance :: "DistributionBand list \<Rightarrow> rng \<Rightarrow> (real \<times> rng) option" where
  "getRandomDistance distribution g =
     (let (r, g1) = random g in
      case pickBand r 0 distribution of
        Some (mn, mx) \<Rightarrow> (let (r2, g2) = random g1 in Some (r2 * (mx - mn) + mn, g2))
      | None \<Rightarrow>
          if distribution = [] then None
          else (let (mn, mx) = bandRange (last distribution);
                    (r2, g2) = random g1
                in Some (r2 * (mx - mn) + mn, g2)))"

text \<open>The numbers in which the four loops of \<open>generateDriftConfigs\<close>, and the two generators,
  differ: \<open>startIndex = floor(random * (n * startScale)) + floor(n * startOffset)\<close>,
  \<open>duration = floor(random * durationSpan) + durationMin\<close>, the factor on the distance, and
  \<open>intensity = random * intensitySpan + intensityMin\<close>.\<close>

record LoopConstants =
  startScale :: real
  startOffset :: real
  durationSpan :: real
  durationMin :: int
  distanceFactor :: real
  intensitySpan :: real
  intensityMin :: real

text \<open>The body of one loop of \<open>generateDriftConfigs\<close>.\<close>

definition makeConfig ::
  "DriftType \<Rightarrow> LoopConstants \<Rightarrow> nat \<Rightarrow> RequiredSimulationOptions \<Rightarrow> rng \<Rightarrow> (DriftConfig \<times> rng) option" where
  "makeConfig ty k dataLength options g =
     (let (r1, g1) = random g;
          startIdx = \<lfloor>r1 * (real dataLength * startScale k)\<rfloor> + \<lfloor>real dataLength * startOffset k\<rfloor>;
          (r2, g2) = random g1;
          duration = \<lfloor>r2 * durationSpan k\<rfloor> + durationMin k;
          endIdx = min (startIdx + duration) (int dataLength - 1)
      in case getRandomDistance (driftDistributionR options) g2 of
           None \<Rightarrow> None
         | Some (d, g3) \<Rightarrow>
             (let (r3, g4) = random g3;
                  (r4, g5) = random g4
              in Some (\<lparr>driftType = ty, startIndex = startIdx, endIndex = endIdx,
                         distance = d * distanceFactor k, direction = r3 * 360,
                         intensity = r4 * intensitySpan k + intensityMin k\<rparr>, g5)))"

text \<open>\<open>for (let i = 0; i < count; i++) configs.push(...)\<close>\<close>

fun makeConfigs ::
  "DriftType \<Rightarrow> LoopConstants \<Rightarrow> nat \<Rightarrow> RequiredSimulationOptions \<Rightarrow> nat \<Rightarrow> rng
     \<Rightarrow> (DriftConfig list \<times> rng) option" where
  "makeConfigs ty k dataLength options 0 g = Some ([], g)"
| "makeConfigs ty k dataLength options (Suc n) g =
     (case makeConfig ty k dataLength options g of
        None \<Rightarrow> None
      | Some (c, g1) \<Rightarrow>
          (case makeConfigs ty k dataLength options n g1 of
             None \<Rightarrow> None
           | Some (cs, g2) \<Rightarrow> Some (c # cs, g2)))"

text \<open>The loop that moves a configuration past the end of the one before it.\<close>

fun adjustOverlaps :: "nat \<Rightarrow> DriftConfig \<Rightarrow> DriftConfig list \<Rightarrow> DriftConfig list" where
  "adjustOverlaps dataLength prev [] = []"
| "adjustOverlaps dataLength prev (c # cs) =
     (let c' =
        (if startIndex c < endIndex prev then
           (let c1 = c\<lparr>startIndex := endIndex prev + 1\<rparr>
            in if startIndex c1 \<ge> endIndex c1
               then c1\<lparr>endIndex := min (startIndex c1 + 10) (int dataLength - 1)\<rparr>
               else c1)
         else c)
      in c' # adjustOverlaps dataLength c' cs)"

definition adjustAll :: "nat \<Rightarrow> DriftConfig list \<Rightarrow> DriftConfig list" where
  "adjustAll dataLength configs =
     (case configs of [] \<Rightarrow> [] | c # cs \<Rightarrow> c # adjustOverlaps dataLength c cs)"

text \<open>\<open>generateDriftConfigs\<close>, for the constants of the four loops.\<close>

definition generateDriftConfigsWith ::
  "LoopConstants \<Rightarrow> LoopConstants \<Rightarrow> LoopConstants \<Rightarrow> LoopConstants \<Rightarrow>
   nat \<Rightarrow> RequiredSimulationOptions \<Rightarrow> rng \<Rightarrow> (DriftConfig list \<times> rng) option" where
  "generateDriftConfigsWith kStatic kMoving kTunnel kSpeed dataLength options g =
     (case makeConfigs Static kStatic dataLength options (staticDriftCountR options) g of
        None \<Rightarrow> None
      | Some (c1, g1) \<Rightarrow>
     (case makeConfigs Moving kMoving dataLength options (movingDriftCountR options) g1 of
        None \<Rightarrow> None
      | Some (c2, g2) \<Rightarrow>
     (case makeConfigs Tunnel kTunnel dataLength options (tunnelCountR options) g2 of
        None \<Rightarrow> None
      | Some (c3, g3) \<Rightarrow>
     (case makeConfigs Speed kSpeed dataLength options (speedScenarioCountR options) g3 of
        None \<Rightarrow> None
      | Some (c4, g4) \<Rightarrow>
          (let configs = sort_key startIndex (c1 @ c2 @ c3 @ c4);
               adjusted = adjustAll dataLength configs
           in Some (filter (\<lambda>config. startIndex config < endIndex config) adjusted, g4))))))"

text \<open>\<open>generateDriftConfigs\<close> of the generator that removes duplicates.\<close>

definition generateDriftConfigs ::
  "nat \<Rightarrow> RequiredSimulationOptions \<Rightarrow> rng \<Rightarrow> (DriftConfig list \<times> rng) option" where
  "generateDriftConfigs =
     generateDriftConfigsWith
       \<lparr>startScale = 8 / 10, startOffset = 0, durationSpan = 15, durationMin = 5,
        distanceFactor = 1, intensitySpan = 3 / 10, intensityMin = 2 / 10\<rparr>
       \<lparr>startScale = 6 / 10, startOffset = 2 / 10, durationSpan = 10, durationMin = 5,
        distanceFactor = 1, intensitySpan = 2 / 10, intensityMin = 2 / 10\<rparr>
       \<lparr>startScale = 7 / 10, startOffset = 0, durationSpan = 20, durationMin = 10,
        distanceFactor = 12 / 10, intensitySpan = 3 / 10, intensityMin = 4 / 10\<rparr>
       \<lparr>startScale = 5 / 10, startOffset = 3 / 10, durationSpan = 15, durationMin = 10,
        distanceFactor = 15 / 10, intensitySpan = 3 / 10, intensityMin = 5 / 10\<rparr>"

text \<open>\<open>generateDriftConfigs\<close> of the first generator in the file.\<close>

definition generateDriftConfigs1 ::
  "nat \<Rightarrow> RequiredSimulationOptions \<Rightarrow> rng \<Rightarrow> (DriftConfig list \<times> rng) option" where
  "generateDriftConfigs1 =
     generateDriftConfigsWith
       \<lparr>startScale = 8 / 10, startOffset = 0, durationSpan = 20, durationMin = 10,
        distanceFactor = 1, intensitySpan = 5 / 10, intensityMin = 5 / 10\<rparr>
       \<lparr>startScale = 6 / 10, startOffset = 2 / 10, durationSpan = 15, durationMin = 5,
        distanceFactor = 1, intensitySpan = 3 / 10, intensityMin = 3 / 10\<rparr>
       \<lparr>startScale = 7 / 10, startOffset = 0, durationSpan = 30, durationMin = 20,
        distanceFactor = 15 / 10, intensitySpan = 4 / 10, intensityMin = 6 / 10\<rparr>
       \<lparr>startScale = 5 / 10, startOffset = 3 / 10, durationSpan = 25, durationMin = 15,
        distanceFactor = 2, intensitySpan = 3 / 10, intensityMin = 7 / 10\<rparr>"

text \<open>\<open>Map.set\<close> on a map kept as an association list in insertion order: a key that is
  present keeps its place and takes the new value.\<close>

fun mapSet :: "('k \<times> 'v) list \<Rightarrow> 'k \<Rightarrow> 'v \<Rightarrow> ('k \<times> 'v) list" where
  "mapSet [] k v = [(k, v)]"
| "mapSet ((k', v') # rest) k v =
     (if k' = k then (k, v) # rest else (k', v') # mapSet rest k v)"

text \<open>The key \<open>`${point.lat},${point.lng},${point.timestamp}`\<close>.\<close>

definition pointKey :: "SimPoint \<Rightarrow> real \<times> real \<times> real" where
  "pointKey p = (lat p, lng p, timestamp p)"

definition uniquePoints :: "SimPoint list \<Rightarrow> SimPoint list" where
  "uniquePoints pts = map snd (fold (\<lambda>p m. mapSet m (pointKey p) p) pts [])"

text \<open>\<open>(a.timestamp || 0)\<close>\<close>

definition markerTime :: "MarkerInfo \<Rightarrow> real" where
  "markerTime m = (case markerTimestamp m of Some t \<Rightarrow> t | None \<Rightarrow> 0)"

type_synonym effect =
  "SimPoint list \<Rightarrow> DriftConfig \<Rightarrow> MarkerInfo list \<Rightarrow> rng \<Rightarrow> SimPoint list \<times> MarkerInfo list \<times> rng"

text \<open>The loop \<open>for (const config of driftConfigs) this.applyDriftEffect(...)\<close>.\<close>

fun applyAll :: "effect \<Rightarrow> DriftConfig list \<Rightarrow> SimPoint list \<Rightarrow> MarkerInfo list \<Rightarrow> rng
    \<Rightarrow> SimPoint list \<times> MarkerInfo list \<times> rng" where
  "applyAll applyDriftEffect [] pts ms g = (pts, ms, g)"
| "applyAll applyDriftEffect (config # rest) pts ms g =
     (case applyDriftEffect pts config ms g of
        (pts', ms', g') \<Rightarrow> applyAll applyDriftEffect rest pts' ms' g')"

text \<open>\<open>generateSimulatedData\<close> of the generator that removes duplicates; the result is the
  pair of \<open>points\<close> and \<open>markers\<close>.\<close>

definition generateSimulatedData ::
  "effect \<Rightarrow> rng \<Rightarrow> SimPoint list \<Rightarrow> SimulationOptions \<Rightarrow> (SimPoint list \<times> MarkerInfo list) option" where
  "generateSimulatedData applyDriftEffect g originalData options =
     (if length originalData = 0 then Some ([], [])
      else
        let opts = mergeOptions DEFAULT_SIMULATION_OPTIONS options in
        case generateDriftConfigs (length originalData) opts g of
          None \<Rightarrow> None
        | Some (driftConfigs, g1) \<Rightarrow>
            (case applyAll applyDriftEffect driftConfigs originalData [] g1 of
               (simulatedPoints, markers, g2) \<Rightarrow>
                 (let filteredPts = filter (\<lambda>p. \<not> isDeleted p) simulatedPoints;
                      cleared = map (\<lambda>p. p\<lparr>isDeleted := False\<rparr>) filteredPts;
                      sortedPts = sort_key timestamp cleared;
                      sortedMarkers = sort_key markerTime markers
                  in Some (uniquePoints sortedPts, sortedMarkers))))"

text \<open>\<open>generateSimulatedData\<close> of the first generator in the file: no tag, no removal of
  duplicates.\<close>

definition generateSimulatedData1 ::
  "effect \<Rightarrow> rng \<Rightarrow> SimPoint list \<Rightarrow> SimulationOptions \<Rightarrow> (SimPoint list \<times> MarkerInfo list) option" where
  "generateSimulatedData1 applyDriftEffect g originalData options =
     (if length originalData = 0 then Some ([], [])
      else
        let opts = mergeOptions DEFAULT_SIMULATION_OPTIONS1 options in
        case generateDriftConfigs1 (length originalData) opts g of
          None \<Rightarrow> None
        | Some (driftConfigs, g1) \<Rightarrow>
            (case applyAll applyDriftEffect driftConfigs originalData [] g1 of
               (simulatedPoints, markers, g2) \<Rightarrow>
                 Some (sort_key timestamp simulatedPoints, sort_key markerTime markers)))"

text \<open>The options of a run without anomalies.\<close>

definition noAnomalies :: SimulationOptions where
  "noAnomalies =
     \<lparr>staticDriftCount = Some 0, movingDriftCount = Some 0, tunnelCount = Some 0,
      speedScenarioCount = Some 0, driftDistanceRange = None, driftDistribution = None\<rparr>"

text \<open>Used to describe the list \<open>uniquePoints\<close> returns: the first occurrences, in order.\<close>

definition addNew :: "'a \<Rightarrow> 'a list \<Rightarrow> 'a list" where
  "addNew p ys = (if p \<in> set ys then ys else ys @ [p])"

section \<open>Example data\<close>

text \<open>A fix on the prime meridian at latitude \<open>la\<close>, with timestamp 0.\<close>

definition fixAt :: "real \<Rightarrow> GPSPoint" where
  "fixAt la = \<lparr>lat = la, lng = 0, timestamp = 0\<rparr>"

text \<open>A fix on the equator at longitude \<open>lo\<close>, and the fix at the north pole, with
  timestamp 0.\<close>

definition equatorAt :: "real \<Rightarrow> GPSPoint" where
  "equatorAt lo = \<lparr>lat = 0, lng = lo, timestamp = 0\<rparr>"

definition northPole :: GPSPoint where
  "northPole = \<lparr>lat = 90, lng = 0, timestamp = 0\<rparr>"

text \<open>The default configuration of \<open>GPSProcessor\<close> with a window size and a drift sequence
  length of one's choice.\<close>

definition smallConfig :: "nat \<Rightarrow> nat \<Rightarrow> ProcessorConfig" where
  "smallConfig W M =
     \<lparr>windowSize = W, validityPeriod = 15000, maxDriftSequence = M,
      driftThresholdMultiplier = 2, linearMotionAngleThreshold = 30\<rparr>"

text \<open>The state of \<open>GPSProcessor\<close> after the warm-up on the two fixes at latitudes 0 and 1
  with \<open>windowSize = 2\<close>, followed by the rejected fixes \<open>buf\<close>: the base point is at latitude
  1/2 and its radius is half a degree of latitude.\<close>

definition trackingState :: "GPSPoint list \<Rightarrow> ProcessorState" where
  "trackingState buf =
     \<lparr>slidingWindow = [fixAt 0, fixAt 1], validPoints = [fixAt 0, fixAt 1],
      lastBasePointTime = 0, basePoint = Some \<lparr>lat = 1 / 2, lng = 0, timestamp = 0\<rparr>,
      basePointRadius = Some (159275 * pi / 9), consecutiveDriftPoints = buf,
      discardedDriftPointsCount = length buf, basePointRebuildsCount = 0,
      basePointRebuildPositions = []\<rparr>"

text \<open>A machine of low precision: it computes as \<open>exact\<close> does, but the cosine of an angle
  below a thousandth is rounded up to 1.\<close>

definition coarse :: Machine where
  "coarse = exact\<lparr>Math_cos := (\<lambda>x. if \<bar>x\<bar> < 1 / 1000 then 1 else cos x)\<rparr>"

text \<open>What holds of the base point in every state the analyzer reaches: while a base point
  exists, at least one fix has been accepted and the radius, when it is a number, is at
  least 50 meters.\<close>

definition analyzerInv :: "AnalyzerState \<Rightarrow> bool" where
  "analyzerInv st =
     (\<forall>b. basePointA st = Some b \<longrightarrow>
        validPointsA st \<noteq> [] \<and> (\<forall>r. radius b = Some r \<longrightarrow> 50 \<le> r))"

section \<open>Properties of the geometry kernel\<close>

lemma atan2_sin_cos:
  assumes "0 \<le> x" "x \<le> pi / 2"
  shows "atan2 (sin x) (cos x) = x"
proof (cases "x = pi / 2")
  case True
  show ?thesis unfolding True by (simp add: atan2_def)
next
  case False
  with assms have lt: "x < pi / 2" by simp
  with assms have cpos: "0 < cos x" by (intro cos_gt_zero_pi) auto
  have "arctan (sin x / cos x) = x"
    using arctan_tan[of x] assms lt by (simp add: tan_def)
  with cpos show ?thesis by (simp add: atan2_def)
qed

lemma exact_simps:
  "rnd exact x = x" "Math_PI exact = pi" "Math_sin exact = sin" "Math_cos exact = cos"
  "Math_sqrt exact = sqrt" "Math_atan2 exact = atan2" "Math_acos exact = arccos"
  "Array_sort exact ds = ds"
  by (simp_all add: exact_def)

lemma exact_arith:
  "fadd exact x y = x + y" "fsub exact x y = x - y" "fmul exact x y = x * y"
  "fdiv exact x y = x / y"
  by (simp_all add: fadd_def fsub_def fmul_def fdiv_def exact_def)

lemmas number_defs = Math_max_def numMul_def numAdd_def numDiv_def numGt_def numLe_def

lemma haversineTerm_exact:
  "haversineTerm exact p q =
     sin (((lat q - lat p) * pi) / 180 / 2) * sin (((lat q - lat p) * pi) / 180 / 2) +
     cos ((lat p * pi) / 180) * cos ((lat q * pi) / 180) *
     sin (((lng q - lng p) * pi) / 180 / 2) * sin (((lng q - lng p) * pi) / 180 / 2)"
  by (simp add: haversineTerm_def Let_def exact_arith exact_simps)

text \<open>Without rounding, a term that is the square of the sine of half an angle gives the
  radius times that angle.\<close>

lemma haversine_exact_of_term:
  assumes "haversineTerm exact p q = (sin x)\<^sup>2" "0 \<le> x" "x \<le> pi / 2"
  shows "haversine exact R p q = Some (R * (2 * x))"
proof -
  have sx: "0 \<le> sin x" using assms(2,3) by (intro sin_ge_zero) (auto intro: order_trans)
  have cx: "0 \<le> cos x" using assms(2,3) by (intro cos_ge_zero) auto
  have sq1: "sqrt ((sin x)\<^sup>2) = sin x" using sx by simp
  have c2: "1 - (sin x)\<^sup>2 = (cos x)\<^sup>2" by (simp add: cos_squared_eq)
  then have sq2: "sqrt (1 - (sin x)\<^sup>2) = cos x" using cx by simp
  have nn: "\<not> (sin x)\<^sup>2 < 0" "\<not> 1 - (sin x)\<^sup>2 < 0" using c2 by simp_all
  have "haversine exact R p q = Some (R * (2 * atan2 (sin x) (cos x)))"
    unfolding haversine_def Let_def assms(1) exact_arith exact_simps using nn sq1 sq2 by simp
  then show ?thesis using atan2_sin_cos[OF assms(2,3)] by simp
qed

lemma sin_abs_square: "\<bar>y\<bar> = (x::real) \<Longrightarrow> sin y * sin y = (sin x)\<^sup>2"
proof (cases "0 \<le> y")
  case True
  assume "\<bar>y\<bar> = x"
  with True show ?thesis by (simp add: power2_eq_square)
next
  case False
  assume "\<bar>y\<bar> = x"
  with False have "y = - x" by simp
  then show ?thesis by (simp add: power2_eq_square)
qed

text \<open>Two points on one meridian are as far apart as their latitudes differ; so are two
  points whose longitudes differ by a full turn.\<close>

lemma haversine_full_turn:
  assumes "sin (((lng q - lng p) * pi) / 180 / 2) = 0" "\<bar>lat q - lat p\<bar> \<le> 180"
  shows "haversine exact R p q = Some (R * (\<bar>lat q - lat p\<bar> * pi / 180))"
proof -
  define x where "x = \<bar>lat q - lat p\<bar> * pi / 360"
  have x0: "0 \<le> x" by (simp add: x_def)
  have x1: "x \<le> pi / 2" using assms(2) by (simp add: x_def field_simps)
  have "\<bar>((lat q - lat p) * pi) / 180 / 2\<bar> = x" by (simp add: x_def abs_mult)
  then have "haversineTerm exact p q = (sin x)\<^sup>2"
    unfolding haversineTerm_exact using assms(1) by (simp add: sin_abs_square)
  from haversine_exact_of_term[OF this x0 x1] show ?thesis by (simp add: x_def)
qed

lemma haversine_meridian:
  assumes "lng p = lng q" "\<bar>lat q - lat p\<bar> \<le> 180"
  shows "haversine exact R p q = Some (R * (\<bar>lat q - lat p\<bar> * pi / 180))"
  using assms by (intro haversine_full_turn) simp_all

lemma haversineDistance_meridian:
  "lng p = lng q \<Longrightarrow> \<bar>lat q - lat p\<bar> \<le> 180 \<Longrightarrow>
   haversineDistance exact p q = Some (6371000 * (\<bar>lat q - lat p\<bar> * pi / 180))"
  unfolding haversineDistance_def by (rule haversine_meridian)

text \<open>Two points on the equator are as far apart as their longitudes differ.\<close>

lemma haversineDistance_equator:
  assumes "lat p = 0" "lat q = 0" "\<bar>lng q - lng p\<bar> \<le> 180"
  shows "haversineDistance exact p q = Some (6371000 * (\<bar>lng q - lng p\<bar> * pi / 180))"
proof -
  define x where "x = \<bar>lng q - lng p\<bar> * pi / 360"
  have x0: "0 \<le> x" by (simp add: x_def)
  have x1: "x \<le> pi / 2" using assms(3) by (simp add: x_def field_simps)
  have "\<bar>((lng q - lng p) * pi) / 180 / 2\<bar> = x" by (simp add: x_def abs_mult)
  then have "haversineTerm exact p q = (sin x)\<^sup>2"
    unfolding haversineTerm_exact using assms(1,2) by (simp add: sin_abs_square)
  from haversine_exact_of_term[OF this x0 x1] show ?thesis
    by (simp add: x_def haversineDistance_def)
qed

text \<open>The pole is a quarter of a circle from the equator, whatever the longitudes.\<close>

lemma haversineDistance_pole:
  assumes "lat p = 0" "lat q = 90"
  shows "haversineDistance exact p q = Some (6371000 * (pi / 2))"
    and "haversineDistance exact q p = Some (6371000 * (pi / 2))"
proof -
  have x0: "(0::real) \<le> pi / 4" by simp
  have x1: "pi / 4 \<le> pi / 2" by simp
  have c: "cos (90 * pi / 180) = 0" using cos_pi_half by (simp add: field_simps)
  have "haversineTerm exact p q = (sin (pi / 4))\<^sup>2"
    unfolding haversineTerm_exact using assms c by (simp add: power2_eq_square)
  from haversine_exact_of_term[OF this x0 x1]
  show "haversineDistance exact p q = Some (6371000 * (pi / 2))"
    by (simp add: haversineDistance_def)
  have "\<bar>((lat p - lat q) * pi) / 180 / 2\<bar> = pi / 4" using assms by simp
  then have "haversineTerm exact q p = (sin (pi / 4))\<^sup>2"
    unfolding haversineTerm_exact using assms c by (simp add: sin_abs_square)
  from haversine_exact_of_term[OF this x0 x1]
  show "haversineDistance exact q p = Some (6371000 * (pi / 2))"
    by (simp add: haversineDistance_def)
qed

lemma haversine_same_place:
  "lat p = lat q \<Longrightarrow> lng p = lng q \<Longrightarrow> haversine exact R p q = Some 0"
  by (simp add: haversine_def haversineTerm_exact exact_arith exact_simps atan2_def)

lemma minAngleOfSides_zero_side:
  "rnd M 0 = 0 \<Longrightarrow> a = 0 \<or> b = 0 \<or> c = 0 \<Longrightarrow> minAngleOfSides M a b c = None"
  by (auto simp: minAngleOfSides_def acosQuot_def fmul_def split: option.splits)

text \<open>On a degenerate triangle the function of \<open>GPSProcessor\<close> returns \<open>NaN\<close> (on a machine
  that rounds 0 to 0, as the doubles do).\<close>

lemma calculateMinAngleInTriangle_zero_side:
  "rnd M 0 = 0 \<Longrightarrow>
   haversineDistance M p2 p3 = Some 0 \<or> haversineDistance M p1 p3 = Some 0
     \<or> haversineDistance M p1 p2 = Some 0
   \<Longrightarrow> calculateMinAngleInTriangle M p1 p2 p3 = None"
  unfolding calculateMinAngleInTriangle_def
  by (auto simp: minAngleOfSides_zero_side split: option.splits)

lemma calculateMinAngleInTriangle_coincident:
  "lat p2 = lat p3 \<Longrightarrow> lng p2 = lng p3 \<Longrightarrow> calculateMinAngleInTriangle exact p1 p2 p3 = None"
  by (rule calculateMinAngleInTriangle_zero_side)
     (simp_all add: haversineDistance_def haversine_same_place exact_simps)

section \<open>Properties of the detector of \<open>GPSProcessor\<close> and \<open>GPSCore\<close>\<close>

lemmas processor_defs = processPoint_def driftBranch_def linearRecovery_def forcedRebuild_def
  updateBasePoint_def calculateBasePointRadius_def calculateMedianPoint_def isBasePointExpired_def
  isDriftPoint_def isLinearMotion_def pushShift_def lastThree_def Let_def
  calculateMinAngleInTriangle_def minAngleOfSides_def acosQuot_def

lemmas example_defs = smallConfig_def resetState_def fixAt_def trackingState_def
  equatorAt_def northPole_def exact_arith exact_simps number_defs

lemma calculateMedianPoint_Some:
  "points \<noteq> [] \<Longrightarrow> \<exists>bp. calculateMedianPoint M now points = Some bp"
  by (simp add: calculateMedianPoint_def Let_def)

lemma updateBasePoint_skip:
  "length (slidingWindow st) < windowSize cfg \<Longrightarrow> updateBasePoint M cfg now st = Some st"
  by (simp add: updateBasePoint_def)

lemma updateBasePoint_build:
  assumes "windowSize cfg \<le> length (slidingWindow st)"
      and "calculateMedianPoint M now (slidingWindow st) = Some bp"
  shows "updateBasePoint M cfg now st =
           Some (st\<lparr>basePoint := Some bp, lastBasePointTime := now,
                     basePointRadius :=
                       fold (\<lambda>point maxDistance. Math_max maxDistance (haversineDistance M point bp))
                         (slidingWindow st) (Some 0)\<rparr>)"
  using assms by (simp add: updateBasePoint_def calculateBasePointRadius_def Let_def)

lemma restoreDriftPoints_validPoints:
  "validPoints (restoreDriftPoints cfg ds st) = validPoints st @ ds"
  by (induction ds arbitrary: st) simp_all

lemma restoreDriftPoints_window_full:
  "windowSize cfg \<le> length (slidingWindow st) \<Longrightarrow>
   slidingWindow (restoreDriftPoints cfg ds st) = drop (length ds) (slidingWindow st @ ds)"
proof (induction ds arbitrary: st)
  case Nil
  then show ?case by simp
next
  case (Cons d ds)
  let ?st1 = "st\<lparr>validPoints := validPoints st @ [d],
           slidingWindow := pushShift (windowSize cfg) (slidingWindow st) d\<rparr>"
  have w1: "slidingWindow ?st1 = tl (slidingWindow st @ [d])"
    using Cons.prems by (simp add: pushShift_def Let_def)
  then have "windowSize cfg \<le> length (slidingWindow ?st1)" using Cons.prems by simp
  from Cons.IH[OF this] w1
  have "slidingWindow (restoreDriftPoints cfg (d # ds) st) =
          drop (length ds) (tl (slidingWindow st @ [d]) @ ds)" by simp
  also have "tl (slidingWindow st @ [d]) @ ds = tl (slidingWindow st @ d # ds)"
    by (cases "slidingWindow st") simp_all
  also have "drop (length ds) (tl (slidingWindow st @ d # ds)) =
          drop (length (d # ds)) (slidingWindow st @ d # ds)"
    by (metis drop_Suc length_Cons)
  finally show ?case .
qed

lemma restoreDriftPoints_other:
  "consecutiveDriftPoints (restoreDriftPoints cfg ds st) = consecutiveDriftPoints st"
  "basePoint (restoreDriftPoints cfg ds st) = basePoint st"
  "basePointRadius (restoreDriftPoints cfg ds st) = basePointRadius st"
  "lastBasePointTime (restoreDriftPoints cfg ds st) = lastBasePointTime st"
  "discardedDriftPointsCount (restoreDriftPoints cfg ds st) = discardedDriftPointsCount st"
  "basePointRebuildsCount (restoreDriftPoints cfg ds st) = basePointRebuildsCount st"
  "basePointRebuildPositions (restoreDriftPoints cfg ds st) = basePointRebuildPositions st"
  by (induction ds arbitrary: st) simp_all

lemma isDriftPoint_basePoint:
  "isDriftPoint M cfg st point \<Longrightarrow> \<exists>bp. basePoint st = Some bp"
  by (auto simp: isDriftPoint_def split: option.splits)

lemma isLinearMotion_buffer_irrelevant:
  "isLinearMotion M cfg (st\<lparr>consecutiveDriftPoints := buf\<rparr>) points = isLinearMotion M cfg st points"
  by (simp add: isLinearMotion_def Let_def split: option.splits)

lemma isLinearMotion_fires:
  assumes "3 \<le> length buf" "basePoint st = Some bp"
    "calculateMinAngleInTriangle M (lastThree buf ! 0) (lastThree buf ! 1) (lastThree buf ! 2)
       = Some minAngle"
    "minAngle < linearMotionAngleThreshold cfg"
    "numLe (Math_max (haversineDistance M (lastThree buf ! 0) bp)
              (Math_max (haversineDistance M (lastThree buf ! 1) bp)
                        (haversineDistance M (lastThree buf ! 2) bp)))
           (numMul M (numMul M (basePointRadius st) (Some (driftThresholdMultiplier cfg))) (Some 5))"
  shows "isLinearMotion M cfg st buf = Some True"
  using assms by (simp add: isLinearMotion_def Let_def)

lemma pushShift_last: "pushShift cap xs p \<noteq> [] \<Longrightarrow> last (pushShift cap xs p) = p"
  by (cases xs) (auto simp: pushShift_def Let_def last_tl split: if_splits)

lemma linearRecovery_result:
  assumes full: "windowSize cfg \<le> length (slidingWindow st)"
      and ne: "slidingWindow st \<noteq> []"
  shows "\<exists>st' bp'. linearRecovery M cfg now point st = Some (True, st')
     \<and> validPoints st' = validPoints st @ consecutiveDriftPoints st
     \<and> slidingWindow st' =
         drop (length (consecutiveDriftPoints st)) (slidingWindow st @ consecutiveDriftPoints st)
     \<and> length (slidingWindow st') = length (slidingWindow st)
     \<and> consecutiveDriftPoints st' = []
     \<and> calculateMedianPoint M now (slidingWindow st') = Some bp'
     \<and> basePoint st' = Some bp'
     \<and> basePointRadius st' =
         fold (\<lambda>point maxDistance. Math_max maxDistance (haversineDistance M point bp'))
           (slidingWindow st') (Some 0)
     \<and> lastBasePointTime st' = now
     \<and> basePointRebuildsCount st' = basePointRebuildsCount st + 1
     \<and> basePointRebuildPositions st' = basePointRebuildPositions st @ [point]
     \<and> discardedDriftPointsCount st' = discardedDriftPointsCount st"
proof -
  let ?buf = "consecutiveDriftPoints st"
  let ?st1 = "restoreDriftPoints cfg ?buf st"
  let ?st2 = "?st1\<lparr>consecutiveDriftPoints := []\<rparr>"
  let ?w = "drop (length ?buf) (slidingWindow st @ ?buf)"
  have w: "slidingWindow ?st2 = ?w" using restoreDriftPoints_window_full[OF full] by simp
  have lw: "length ?w = length (slidingWindow st)" by simp
  then have wne: "?w \<noteq> []" using ne by (metis length_0_conv)
  obtain bp' where bp': "calculateMedianPoint M now ?w = Some bp'"
    using calculateMedianPoint_Some[OF wne] by blast
  have "windowSize cfg \<le> length (slidingWindow ?st2)" using w lw full by simp
  moreover have "calculateMedianPoint M now (slidingWindow ?st2) = Some bp'" using w bp' by simp
  ultimately have u: "updateBasePoint M cfg now ?st2 =
      Some (?st2\<lparr>basePoint := Some bp', lastBasePointTime := now,
                  basePointRadius :=
                    fold (\<lambda>point maxDistance. Math_max maxDistance (haversineDistance M point bp'))
                      (slidingWindow ?st2) (Some 0)\<rparr>)"
    by (rule updateBasePoint_build)
  show ?thesis
    unfolding linearRecovery_def Let_def u
    using w bp' lw by (simp add: restoreDriftPoints_validPoints restoreDriftPoints_other)
qed

lemma processPoint_drift:
  assumes "windowSize cfg \<le> length (slidingWindow st)"
      and "\<not> isBasePointExpired M cfg now st"
      and "isDriftPoint M cfg st point"
  shows "processPoint M cfg now point st = driftBranch M cfg now point st"
  using assms by (simp add: processPoint_def)

lemma driftBranch_linear:
  assumes "buf = pushShift (maxDriftSequence cfg) (consecutiveDriftPoints st) point"
      and "3 \<le> length buf"
      and "isLinearMotion M cfg st buf = Some True"
  shows "driftBranch M cfg now point st =
           linearRecovery M cfg now point (st\<lparr>consecutiveDriftPoints := buf\<rparr>)"
  using assms by (simp add: driftBranch_def Let_def isLinearMotion_buffer_irrelevant)

lemma isLinearMotion_short: "length points < 3 \<Longrightarrow> isLinearMotion M cfg st points = Some False"
  by (simp add: isLinearMotion_def)

lemma driftBranch_forced:
  assumes "buf = pushShift (maxDriftSequence cfg) (consecutiveDriftPoints st) point"
      and "maxDriftSequence cfg \<le> length buf"
      and "isLinearMotion M cfg st buf = Some False"
  shows "driftBranch M cfg now point st =
           forcedRebuild M cfg now point (st\<lparr>consecutiveDriftPoints := buf\<rparr>)"
  using assms by (simp add: driftBranch_def Let_def isLinearMotion_buffer_irrelevant)

lemma forcedRebuild_result:
  assumes ne: "consecutiveDriftPoints st \<noteq> [] \<or> 0 < windowSize cfg"
      and bp: "basePoint st \<noteq> None"
  shows "\<exists>st'. forcedRebuild M cfg now point st = Some (True, st')
     \<and> slidingWindow st' = consecutiveDriftPoints st
     \<and> consecutiveDriftPoints st' = []
     \<and> basePointRebuildsCount st' = basePointRebuildsCount st + 1
     \<and> basePointRebuildPositions st' = basePointRebuildPositions st @ [point]
     \<and> validPoints st' = validPoints st @ [point]
     \<and> discardedDriftPointsCount st' = discardedDriftPointsCount st
     \<and> basePoint st' \<noteq> None
     \<and> (if windowSize cfg \<le> length (consecutiveDriftPoints st)
        then basePoint st' = calculateMedianPoint M now (consecutiveDriftPoints st)
           \<and> lastBasePointTime st' = now
        else basePoint st' = basePoint st
           \<and> basePointRadius st' = basePointRadius st
           \<and> lastBasePointTime st' = lastBasePointTime st)"
proof (cases "windowSize cfg \<le> length (consecutiveDriftPoints st)")
  case True
  let ?st1 = "st\<lparr>slidingWindow := consecutiveDriftPoints st, consecutiveDriftPoints := []\<rparr>"
  from True ne have "consecutiveDriftPoints st \<noteq> []" by auto
  then obtain bp' where bp': "calculateMedianPoint M now (consecutiveDriftPoints st) = Some bp'"
    using calculateMedianPoint_Some by blast
  have "windowSize cfg \<le> length (slidingWindow ?st1)" using True by simp
  moreover have "calculateMedianPoint M now (slidingWindow ?st1) = Some bp'" using bp' by simp
  ultimately have u: "updateBasePoint M cfg now ?st1 =
      Some (?st1\<lparr>basePoint := Some bp', lastBasePointTime := now,
                  basePointRadius :=
                    fold (\<lambda>point maxDistance. Math_max maxDistance (haversineDistance M point bp'))
                      (slidingWindow ?st1) (Some 0)\<rparr>)"
    by (rule updateBasePoint_build)
  show ?thesis unfolding forcedRebuild_def Let_def u using True bp' by simp
next
  case False
  let ?st1 = "st\<lparr>slidingWindow := consecutiveDriftPoints st, consecutiveDriftPoints := []\<rparr>"
  have "length (slidingWindow ?st1) < windowSize cfg" using False by simp
  then have u: "updateBasePoint M cfg now ?st1 = Some ?st1" by (rule updateBasePoint_skip)
  show ?thesis unfolding forcedRebuild_def Let_def u using False bp by simp
qed

lemma tracking_reached:
  "processLoop exact (smallConfig 2 m) (\<lambda>i. 0) 0 [fixAt 0, fixAt 1] resetState []
     = Some ([fixAt 0, fixAt 1], trackingState [])"
  by (simp add: processor_defs example_defs haversineDistance_meridian)

section \<open>Linear-motion recovery\<close>

text \<open>The angle at the pole between two fixes on the equator 30 degrees of longitude apart,
  from the law of cosines over the three distances, is below 30 degrees.\<close>

lemma thin_angle: "arccos (17 / 18) * 180 / pi < 30"
proof -
  have "sqrt 3 < sqrt ((17 / 9)\<^sup>2)" by (intro real_sqrt_less_mono) (simp add: power2_eq_square)
  then have s: "sqrt 3 / 2 < (17::real) / 18" by simp
  have "(0::real) \<le> sqrt 3" by simp
  then have "- 1 \<le> sqrt 3 / 2" by linarith
  then have "arccos (17 / 18) < arccos (sqrt 3 / 2)"
    using s by (intro arccos_less_arccos) auto
  also have "arccos (sqrt 3 / 2) = pi / 6"
    using arccos_cos[of "pi / 6"] by (simp add: cos_30)
  finally show ?thesis by (simp add: field_simps)
qed

lemma thin_min: "min (arccos (1 / 6) * 180 / pi) (arccos (17 / 18) * 180 / pi) < 30"
  using thin_angle by (simp add: min_less_iff_disj)

lemma thin_triangle:
  "\<bar>lo2 - lo1\<bar> = 30 \<Longrightarrow>
   calculateMinAngleInTriangle exact (equatorAt lo1) (equatorAt lo2) northPole
     = Some (min (arccos (1 / 6) * 180 / pi) (arccos (17 / 18) * 180 / pi))"
  by (simp add: calculateMinAngleInTriangle_def haversineDistance_equator haversineDistance_pole
      example_defs minAngleOfSides_def acosQuot_def)

text \<open>
  Claim C3, as stated, fails in two ways.

  The buffered fixes enter the window with one eviction for each push, which keeps the
  window at the length it had, and that is above \<open>windowSize\<close> after a forced rebuild with
  \<open>maxDriftSequence > windowSize\<close>. With \<open>windowSize = 2\<close> and \<open>maxDriftSequence = 3\<close>: the
  fixes on the equator at longitudes 0 and 1 fill the window, those at 10, 20 and 30 force a
  rebuild that leaves three fixes in the window, those at 50 and 80 are rejected, and the fix
  at the pole is a drift candidate with which the buffer holds three fixes whose smallest
  angle is about 19 degrees, all within five thresholds of the base point. \<open>processPoint\<close>
  accepts it and restores the buffer, and the window holds three fixes, not at most two.

  And when two of the last three rejections coincide, the side between them has length 0,
  the claim's angle is 0, below the threshold, but \<open>calculateMinAngleInTriangle\<close> returns
  \<open>NaN\<close> (claim C6), the test does not fire and \<open>processPoint\<close> returns \<open>false\<close>: the fixes at
  latitudes 2, 3 and 3 after the warm-up on those at latitudes 0 and 1.
\<close>

theorem recovery_does_not_respect_window_cap:
  "processLoop exact (smallConfig 2 3) (\<lambda>i. 0) 0
     [equatorAt 0, equatorAt 1, equatorAt 10, equatorAt 20, equatorAt 30, equatorAt 50,
      equatorAt 80] resetState []
     = Some ([equatorAt 0, equatorAt 1, equatorAt 30],
        \<lparr>slidingWindow = [equatorAt 10, equatorAt 20, equatorAt 30],
         validPoints = [equatorAt 0, equatorAt 1, equatorAt 30],
         lastBasePointTime = 0, basePoint = Some \<lparr>lat = 0, lng = 20, timestamp = 0\<rparr>,
         basePointRadius = Some (3185500 * pi / 9),
         consecutiveDriftPoints = [equatorAt 50, equatorAt 80],
         discardedDriftPointsCount = 4, basePointRebuildsCount = 1,
         basePointRebuildPositions = [equatorAt 30]\<rparr>)
   \<and> isDriftPoint exact (smallConfig 2 3)
        \<lparr>slidingWindow = [equatorAt 10, equatorAt 20, equatorAt 30],
         validPoints = [equatorAt 0, equatorAt 1, equatorAt 30],
         lastBasePointTime = 0, basePoint = Some \<lparr>lat = 0, lng = 20, timestamp = 0\<rparr>,
         basePointRadius = Some (3185500 * pi / 9),
         consecutiveDriftPoints = [equatorAt 50, equatorAt 80],
         discardedDriftPointsCount = 4, basePointRebuildsCount = 1,
         basePointRebuildPositions = [equatorAt 30]\<rparr> northPole
   \<and> pushShift (maxDriftSequence (smallConfig 2 3)) [equatorAt 50, equatorAt 80] northPole
       = [equatorAt 50, equatorAt 80, northPole]
   \<and> calculateMinAngleInTriangle exact (equatorAt 50) (equatorAt 80) northPole
       = Some (min (arccos (1 / 6) * 180 / pi) (arccos (17 / 18) * 180 / pi))
   \<and> min (arccos (1 / 6) * 180 / pi) (arccos (17 / 18) * 180 / pi)
       < linearMotionAngleThreshold (smallConfig 2 3)
   \<and> numLe (Math_max (haversineDistance exact (equatorAt 50) \<lparr>lat = 0, lng = 20, timestamp = 0\<rparr>)
               (Math_max (haversineDistance exact (equatorAt 80) \<lparr>lat = 0, lng = 20, timestamp = 0\<rparr>)
                         (haversineDistance exact northPole \<lparr>lat = 0, lng = 20, timestamp = 0\<rparr>)))
            (numMul exact (numMul exact (Some (3185500 * pi / 9))
                             (Some (driftThresholdMultiplier (smallConfig 2 3)))) (Some 5))
   \<and> processPoint exact (smallConfig 2 3) 0 northPole
        \<lparr>slidingWindow = [equatorAt 10, equatorAt 20, equatorAt 30],
         validPoints = [equatorAt 0, equatorAt 1, equatorAt 30],
         lastBasePointTime = 0, basePoint = Some \<lparr>lat = 0, lng = 20, timestamp = 0\<rparr>,
         basePointRadius = Some (3185500 * pi / 9),
         consecutiveDriftPoints = [equatorAt 50, equatorAt 80],
         discardedDriftPointsCount = 4, basePointRebuildsCount = 1,
         basePointRebuildPositions = [equatorAt 30]\<rparr>
     = Some (True,
        \<lparr>slidingWindow = [equatorAt 50, equatorAt 80, northPole],
         validPoints = [equatorAt 0, equatorAt 1, equatorAt 30, equatorAt 50, equatorAt 80,
                        northPole],
         lastBasePointTime = 0, basePoint = Some \<lparr>lat = 0, lng = 50, timestamp = 0\<rparr>,
         basePointRadius = Some (3185500 * pi), consecutiveDriftPoints = [],
         discardedDriftPointsCount = 4, basePointRebuildsCount = 2,
         basePointRebuildPositions = [equatorAt 30, northPole]\<rparr>)
   \<and> \<not> length [equatorAt 50, equatorAt 80, northPole] \<le> windowSize (smallConfig 2 3)
   \<and> processLoop exact (smallConfig 2 10) (\<lambda>i. 0) 0 [fixAt 0, fixAt 1, fixAt 2, fixAt 3]
        resetState []
     = Some ([fixAt 0, fixAt 1], trackingState [fixAt 2, fixAt 3])
   \<and> isDriftPoint exact (smallConfig 2 10) (trackingState [fixAt 2, fixAt 3]) (fixAt 3)
   \<and> haversineDistance exact (fixAt 3) (fixAt 3) = Some 0
   \<and> calculateMinAngleInTriangle exact (fixAt 2) (fixAt 3) (fixAt 3) = None
   \<and> numLe (Math_max (haversineDistance exact (fixAt 2) \<lparr>lat = 1 / 2, lng = 0, timestamp = 0\<rparr>)
               (Math_max (haversineDistance exact (fixAt 3) \<lparr>lat = 1 / 2, lng = 0, timestamp = 0\<rparr>)
                         (haversineDistance exact (fixAt 3) \<lparr>lat = 1 / 2, lng = 0, timestamp = 0\<rparr>)))
            (numMul exact (numMul exact (Some (159275 * pi / 9))
                             (Some (driftThresholdMultiplier (smallConfig 2 10)))) (Some 5))
   \<and> processPoint exact (smallConfig 2 10) 0 (fixAt 3) (trackingState [fixAt 2, fixAt 3])
     = Some (False,
        \<lparr>slidingWindow = [fixAt 0, fixAt 1], validPoints = [fixAt 0, fixAt 1],
         lastBasePointTime = 0, basePoint = Some \<lparr>lat = 1 / 2, lng = 0, timestamp = 0\<rparr>,
         basePointRadius = Some (159275 * pi / 9),
         consecutiveDriftPoints = [fixAt 2, fixAt 3, fixAt 3],
         discardedDriftPointsCount = 3, basePointRebuildsCount = 0,
         basePointRebuildPositions = []\<rparr>)"
proof -
  have a: "calculateMinAngleInTriangle exact (equatorAt 50) (equatorAt 80) northPole
       = Some (min (arccos (1 / 6) * 180 / pi) (arccos (17 / 18) * 180 / pi))"
    by (rule thin_triangle) simp
  have n: "calculateMinAngleInTriangle exact (fixAt 2) (fixAt 3) (fixAt 3) = None"
    by (rule calculateMinAngleInTriangle_coincident) simp_all
  have z: "haversineDistance exact (fixAt 3) (fixAt 3) = Some 0"
    by (simp add: haversineDistance_def haversine_same_place)
  show ?thesis
    unfolding a n z using thin_min
    by (simp add: processor_defs example_defs haversineDistance_equator haversineDistance_pole
        haversineDistance_meridian)
qed

text \<open>
  Claim C3, amended. Take a state of \<open>GPSProcessor\<close> past its warm-up, with a sliding window
  that is not empty and a base point that has not expired, and a fix that \<open>isDriftPoint\<close>
  holds of. Let \<open>buf\<close> be the drift buffer after the fix is pushed and the buffer capped at
  \<open>maxDriftSequence\<close>. If \<open>buf\<close> holds at least three fixes, the minimum triangle angle that
  is computed of its last three is a number below \<open>linearMotionAngleThreshold\<close>, and the
  furthest of the three is within \<open>basePointRadius * driftThresholdMultiplier * 5\<close> of the base
  point (a comparison of numbers: none of them is \<open>NaN\<close>), then \<open>processPoint\<close> returns
  \<open>true\<close>; every buffered fix, the triggering one last, is appended to the accepted list and
  pushed into the sliding window, the oldest entry leaving for each one pushed, so that the
  window keeps its length and holds at most \<open>windowSize\<close> fixes afterwards exactly when it
  held \<open>windowSize\<close> before; the drift buffer is empty afterwards; the base point is the
  median point of the new window, created now, and its radius is \<open>Math.max\<close> over 0 and the
  distances of the fixes of the new window from it; and the rebuild counter has grown by
  one, the triggering fix being recorded as the rebuild position. This holds for every
  machine.
\<close>

theorem linear_motion_recovery:
  assumes notWarm: "windowSize cfg \<le> length (slidingWindow st)"
      and nonempty: "slidingWindow st \<noteq> []"
      and notExp: "\<not> isBasePointExpired M cfg now st"
      and drift: "isDriftPoint M cfg st point"
      and buf: "buf = pushShift (maxDriftSequence cfg) (consecutiveDriftPoints st) point"
      and len3: "3 \<le> length buf"
      and bp: "basePoint st = Some bp"
      and ang: "calculateMinAngleInTriangle M (lastThree buf ! 0) (lastThree buf ! 1)
                  (lastThree buf ! 2) = Some minAngle"
      and small: "minAngle < linearMotionAngleThreshold cfg"
      and near: "numLe (Math_max (haversineDistance M (lastThree buf ! 0) bp)
                          (Math_max (haversineDistance M (lastThree buf ! 1) bp)
                                    (haversineDistance M (lastThree buf ! 2) bp)))
                       (numMul M (numMul M (basePointRadius st)
                                           (Some (driftThresholdMultiplier cfg))) (Some 5))"
  shows "\<exists>st' bp'. processPoint M cfg now point st = Some (True, st')
     \<and> validPoints st' = validPoints st @ buf
     \<and> last buf = point
     \<and> slidingWindow st' = drop (length buf) (slidingWindow st @ buf)
     \<and> length (slidingWindow st') = length (slidingWindow st)
     \<and> (length (slidingWindow st') \<le> windowSize cfg) = (length (slidingWindow st) = windowSize cfg)
     \<and> consecutiveDriftPoints st' = []
     \<and> calculateMedianPoint M now (slidingWindow st') = Some bp'
     \<and> basePoint st' = Some bp'
     \<and> basePointRadius st' =
         fold (\<lambda>point maxDistance. Math_max maxDistance (haversineDistance M point bp'))
           (slidingWindow st') (Some 0)
     \<and> lastBasePointTime st' = now
     \<and> basePointRebuildsCount st' = basePointRebuildsCount st + 1
     \<and> basePointRebuildPositions st' = basePointRebuildPositions st @ [point]
     \<and> discardedDriftPointsCount st' = discardedDriftPointsCount st"
proof -
  let ?st1 = "st\<lparr>consecutiveDriftPoints := buf\<rparr>"
  have fires: "isLinearMotion M cfg st buf = Some True"
    using len3 bp ang small near by (rule isLinearMotion_fires)
  have step: "processPoint M cfg now point st = linearRecovery M cfg now point ?st1"
    using processPoint_drift[OF notWarm notExp drift] driftBranch_linear[OF buf len3 fires] by simp
  have "buf \<noteq> []" using len3 by auto
  then have lastp: "last buf = point" unfolding buf by (rule pushShift_last)
  have full1: "windowSize cfg \<le> length (slidingWindow ?st1)" using notWarm by simp
  have ne1: "slidingWindow ?st1 \<noteq> []" using nonempty by simp
  from linearRecovery_result[OF full1 ne1, of M now point] step lastp notWarm
  show ?thesis by auto
qed

theorem linear_motion_recovery_witness:
  "processLoop exact (smallConfig 3 10) (\<lambda>i. 0) 0
     [equatorAt 0, equatorAt 20, equatorAt 40, equatorAt 70, equatorAt 100] resetState []
     = Some ([equatorAt 0, equatorAt 20, equatorAt 40],
        \<lparr>slidingWindow = [equatorAt 0, equatorAt 20, equatorAt 40],
         validPoints = [equatorAt 0, equatorAt 20, equatorAt 40],
         lastBasePointTime = 0, basePoint = Some \<lparr>lat = 0, lng = 20, timestamp = 0\<rparr>,
         basePointRadius = Some (6371000 * pi / 9),
         consecutiveDriftPoints = [equatorAt 70, equatorAt 100],
         discardedDriftPointsCount = 2, basePointRebuildsCount = 0,
         basePointRebuildPositions = []\<rparr>)
   \<and> calculateMinAngleInTriangle exact (equatorAt 70) (equatorAt 100) northPole
       = Some (min (arccos (1 / 6) * 180 / pi) (arccos (17 / 18) * 180 / pi))
   \<and> min (arccos (1 / 6) * 180 / pi) (arccos (17 / 18) * 180 / pi)
       < linearMotionAngleThreshold (smallConfig 3 10)
   \<and> (\<exists>st'. processPoint exact (smallConfig 3 10) 0 northPole
        \<lparr>slidingWindow = [equatorAt 0, equatorAt 20, equatorAt 40],
         validPoints = [equatorAt 0, equatorAt 20, equatorAt 40],
         lastBasePointTime = 0, basePoint = Some \<lparr>lat = 0, lng = 20, timestamp = 0\<rparr>,
         basePointRadius = Some (6371000 * pi / 9),
         consecutiveDriftPoints = [equatorAt 70, equatorAt 100],
         discardedDriftPointsCount = 2, basePointRebuildsCount = 0,
         basePointRebuildPositions = []\<rparr> = Some (True, st')
        \<and> validPoints st' = [equatorAt 0, equatorAt 20, equatorAt 40, equatorAt 70,
                               equatorAt 100, northPole]
        \<and> slidingWindow st' = [equatorAt 70, equatorAt 100, northPole]
        \<and> length (slidingWindow st') \<le> windowSize (smallConfig 3 10)
        \<and> consecutiveDriftPoints st' = []
        \<and> basePoint st' = Some \<lparr>lat = 0, lng = 70, timestamp = 0\<rparr>
        \<and> basePointRadius st' = Some (3185500 * pi)
        \<and> basePointRebuildsCount st' = 1
        \<and> basePointRebuildPositions st' = [northPole])"
proof -
  let ?cfg = "smallConfig 3 10"
  let ?st = "\<lparr>slidingWindow = [equatorAt 0, equatorAt 20, equatorAt 40],
         validPoints = [equatorAt 0, equatorAt 20, equatorAt 40],
         lastBasePointTime = 0, basePoint = Some \<lparr>lat = 0, lng = 20, timestamp = 0\<rparr>,
         basePointRadius = Some (6371000 * pi / 9),
         consecutiveDriftPoints = [equatorAt 70, equatorAt 100],
         discardedDriftPointsCount = 2, basePointRebuildsCount = 0,
         basePointRebuildPositions = []\<rparr>"
  let ?buf = "[equatorAt 70, equatorAt 100, northPole]"
  let ?bp = "\<lparr>lat = 0, lng = 20, timestamp = 0\<rparr> :: GPSPoint"
  let ?m = "min (arccos (1 / 6) * 180 / pi) (arccos (17 / 18) * 180 / pi)"
  have run: "processLoop exact ?cfg (\<lambda>i. 0) 0
     [equatorAt 0, equatorAt 20, equatorAt 40, equatorAt 70, equatorAt 100] resetState []
     = Some ([equatorAt 0, equatorAt 20, equatorAt 40], ?st)"
    by (simp add: processor_defs example_defs haversineDistance_equator)
  have h1: "windowSize ?cfg \<le> length (slidingWindow ?st)" by (simp add: example_defs)
  have h2: "slidingWindow ?st \<noteq> []" by simp
  have h3: "\<not> isBasePointExpired exact ?cfg 0 ?st"
    by (simp add: isBasePointExpired_def example_defs)
  have h4: "isDriftPoint exact ?cfg ?st northPole"
    by (simp add: isDriftPoint_def example_defs haversineDistance_pole)
  have h5: "?buf = pushShift (maxDriftSequence ?cfg) (consecutiveDriftPoints ?st) northPole"
    by (simp add: pushShift_def example_defs)
  have h6: "3 \<le> length ?buf" by simp
  have h7: "basePoint ?st = Some ?bp" by simp
  have ang: "calculateMinAngleInTriangle exact (equatorAt 70) (equatorAt 100) northPole = Some ?m"
    by (rule thin_triangle) simp
  then have h8: "calculateMinAngleInTriangle exact (lastThree ?buf ! 0) (lastThree ?buf ! 1)
      (lastThree ?buf ! 2) = Some ?m" by (simp add: lastThree_def)
  have h9: "?m < linearMotionAngleThreshold ?cfg" using thin_min by (simp add: example_defs)
  have h10: "numLe (Math_max (haversineDistance exact (lastThree ?buf ! 0) ?bp)
                          (Math_max (haversineDistance exact (lastThree ?buf ! 1) ?bp)
                                    (haversineDistance exact (lastThree ?buf ! 2) ?bp)))
                       (numMul exact (numMul exact (basePointRadius ?st)
                                           (Some (driftThresholdMultiplier ?cfg))) (Some 5))"
    by (simp add: lastThree_def example_defs haversineDistance_equator haversineDistance_pole)
  from linear_motion_recovery[OF h1 h2 h3 h4 h5 h6 h7 h8 h9 h10]
  obtain st' bp' where step: "processPoint exact ?cfg 0 northPole ?st = Some (True, st')"
    and v: "validPoints st' = validPoints ?st @ ?buf"
    and w: "slidingWindow st' = drop (length ?buf) (slidingWindow ?st @ ?buf)"
    and cap: "(length (slidingWindow st') \<le> windowSize ?cfg)
                = (length (slidingWindow ?st) = windowSize ?cfg)"
    and b: "consecutiveDriftPoints st' = []"
    and m: "calculateMedianPoint exact 0 (slidingWindow st') = Some bp'"
    and bs: "basePoint st' = Some bp'"
    and r: "basePointRadius st' =
         fold (\<lambda>point maxDistance. Math_max maxDistance (haversineDistance exact point bp'))
           (slidingWindow st') (Some 0)"
    and c: "basePointRebuildsCount st' = basePointRebuildsCount ?st + 1"
    and ps: "basePointRebuildPositions st' = basePointRebuildPositions ?st @ [northPole]"
    by blast
  have w': "slidingWindow st' = ?buf" using w by simp
  have bp': "bp' = \<lparr>lat = 0, lng = 70, timestamp = 0\<rparr>"
    using m unfolding w' by (simp add: calculateMedianPoint_def example_defs)
  have m': "basePoint st' = Some \<lparr>lat = 0, lng = 70, timestamp = 0\<rparr>" using bs bp' by simp
  have r': "basePointRadius st' = Some (3185500 * pi)"
    unfolding r w' bp'
    by (simp add: example_defs haversineDistance_equator haversineDistance_pole)
  have cap': "length (slidingWindow st') \<le> windowSize ?cfg" using cap by (simp add: example_defs)
  have v': "validPoints st' = [equatorAt 0, equatorAt 20, equatorAt 40, equatorAt 70,
                               equatorAt 100, northPole]" using v by simp
  have c': "basePointRebuildsCount st' = 1" using c by simp
  have ps': "basePointRebuildPositions st' = [northPole]" using ps by simp
  from run ang h9 step v' w' cap' b m' r' c' ps' show ?thesis by blast
qed

section \<open>Forced rebuild\<close>

text \<open>
  Claim C4, as stated, fails where \<open>maxDriftSequence < windowSize\<close>: \<open>updateBasePoint\<close> only
  computes a base point from a window of at least \<open>windowSize\<close> fixes. With \<open>windowSize = 2\<close>
  and \<open>maxDriftSequence = 1\<close>, after the warm-up on the fixes at latitudes 0 and 1 the fix at
  latitude 10 is a drift candidate that fills the buffer; \<open>processPoint\<close> accepts it and the
  window becomes that one fix, but the base point stays at latitude 1/2, with its old radius
  and creation time, and is not the median point of the new window.
\<close>

theorem forced_rebuild_keeps_stale_base:
  "processLoop exact (smallConfig 2 1) (\<lambda>i. 0) 0 [fixAt 0, fixAt 1] resetState []
     = Some ([fixAt 0, fixAt 1], trackingState [])
   \<and> isDriftPoint exact (smallConfig 2 1) (trackingState []) (fixAt 10)
   \<and> pushShift (maxDriftSequence (smallConfig 2 1)) (consecutiveDriftPoints (trackingState []))
         (fixAt 10) = [fixAt 10]
   \<and> isLinearMotion exact (smallConfig 2 1) (trackingState []) [fixAt 10] = Some False
   \<and> processPoint exact (smallConfig 2 1) 0 (fixAt 10) (trackingState [])
     = Some (True,
        \<lparr>slidingWindow = [fixAt 10],
         validPoints = [fixAt 0, fixAt 1, fixAt 10],
         lastBasePointTime = 0, basePoint = Some \<lparr>lat = 1 / 2, lng = 0, timestamp = 0\<rparr>,
         basePointRadius = Some (159275 * pi / 9), consecutiveDriftPoints = [],
         discardedDriftPointsCount = 0, basePointRebuildsCount = 1,
         basePointRebuildPositions = [fixAt 10]\<rparr>)
   \<and> calculateMedianPoint exact 0 [fixAt 10] = Some \<lparr>lat = 10, lng = 0, timestamp = 0\<rparr>
   \<and> Some \<lparr>lat = 1 / 2, lng = 0, timestamp = 0\<rparr> \<noteq> calculateMedianPoint exact 0 [fixAt 10]"
  by (simp add: processor_defs example_defs haversineDistance_meridian)

text \<open>
  Claim C4, amended. Take a state of \<open>GPSProcessor\<close> past its warm-up whose base point has
  not expired, and a fix that \<open>isDriftPoint\<close> holds of. Let \<open>buf\<close> be the drift buffer after
  the fix is pushed and the buffer capped. If \<open>buf\<close> holds at least \<open>maxDriftSequence\<close> fixes
  and \<open>isLinearMotion\<close> is false of it, then \<open>processPoint\<close> returns \<open>true\<close>, the sliding window
  is \<open>buf\<close>, the buffer is empty, the rebuild counter has grown by one, the triggering fix is
  recorded as a rebuild position and appended to the accepted list, and a base point is
  present. The base point is rebuilt from the new window (its median point, created now)
  when \<open>buf\<close> holds at least \<open>windowSize\<close> fixes; otherwise base point, radius and creation
  time are those of before. (The last premise excludes \<open>windowSize = 0\<close> together with
  \<open>maxDriftSequence = 0\<close>, where the median of an empty window is asked for and throws.)
\<close>

theorem forced_rebuild:
  assumes notWarm: "windowSize cfg \<le> length (slidingWindow st)"
      and notExp: "\<not> isBasePointExpired M cfg now st"
      and drift: "isDriftPoint M cfg st point"
      and buf: "buf = pushShift (maxDriftSequence cfg) (consecutiveDriftPoints st) point"
      and reach: "maxDriftSequence cfg \<le> length buf"
      and notLinear: "isLinearMotion M cfg st buf = Some False"
      and ne: "buf \<noteq> [] \<or> 0 < windowSize cfg"
  shows "\<exists>st'. processPoint M cfg now point st = Some (True, st')
     \<and> slidingWindow st' = buf
     \<and> consecutiveDriftPoints st' = []
     \<and> basePointRebuildsCount st' = basePointRebuildsCount st + 1
     \<and> basePointRebuildPositions st' = basePointRebuildPositions st @ [point]
     \<and> validPoints st' = validPoints st @ [point]
     \<and> discardedDriftPointsCount st' = discardedDriftPointsCount st
     \<and> basePoint st' \<noteq> None
     \<and> (if windowSize cfg \<le> length buf
        then basePoint st' = calculateMedianPoint M now buf \<and> lastBasePointTime st' = now
        else basePoint st' = basePoint st
           \<and> basePointRadius st' = basePointRadius st
           \<and> lastBasePointTime st' = lastBasePointTime st)"
proof -
  let ?st1 = "st\<lparr>consecutiveDriftPoints := buf\<rparr>"
  have step: "processPoint M cfg now point st = forcedRebuild M cfg now point ?st1"
    using processPoint_drift[OF notWarm notExp drift] driftBranch_forced[OF buf reach notLinear]
    by simp
  have ne1: "consecutiveDriftPoints ?st1 \<noteq> [] \<or> 0 < windowSize cfg" using ne by simp
  have bp1: "basePoint ?st1 \<noteq> None" using isDriftPoint_basePoint[OF drift] by auto
  from forcedRebuild_result[OF ne1 bp1, of M now point] step
  show ?thesis by auto
qed

theorem forced_rebuild_witness:
  "processLoop exact (smallConfig 2 3) (\<lambda>i. 0) 0 [fixAt 0, fixAt 1, fixAt 10, fixAt 20] resetState []
     = Some ([fixAt 0, fixAt 1], trackingState [fixAt 10, fixAt 20])
   \<and> \<not> isBasePointExpired exact (smallConfig 2 3) 0 (trackingState [fixAt 10, fixAt 20])
   \<and> isDriftPoint exact (smallConfig 2 3) (trackingState [fixAt 10, fixAt 20]) (fixAt 30)
   \<and> isLinearMotion exact (smallConfig 2 3) (trackingState [fixAt 10, fixAt 20])
        [fixAt 10, fixAt 20, fixAt 30] = Some False
   \<and> (\<exists>st'. processPoint exact (smallConfig 2 3) 0 (fixAt 30) (trackingState [fixAt 10, fixAt 20])
               = Some (True, st')
        \<and> slidingWindow st' = [fixAt 10, fixAt 20, fixAt 30]
        \<and> consecutiveDriftPoints st' = []
        \<and> validPoints st' = [fixAt 0, fixAt 1, fixAt 30]
        \<and> basePoint st' = Some \<lparr>lat = 20, lng = 0, timestamp = 0\<rparr>
        \<and> basePointRebuildsCount st' = 1
        \<and> basePointRebuildPositions st' = [fixAt 30])"
proof -
  let ?cfg = "smallConfig 2 3"
  let ?st = "trackingState [fixAt 10, fixAt 20]"
  let ?buf = "[fixAt 10, fixAt 20, fixAt 30]"
  have run: "processLoop exact ?cfg (\<lambda>i. 0) 0 [fixAt 0, fixAt 1, fixAt 10, fixAt 20] resetState []
     = Some ([fixAt 0, fixAt 1], ?st)"
    by (simp add: processor_defs example_defs haversineDistance_meridian)
  have h1: "windowSize ?cfg \<le> length (slidingWindow ?st)" by (simp add: example_defs)
  have h2: "\<not> isBasePointExpired exact ?cfg 0 ?st" by (simp add: isBasePointExpired_def example_defs)
  have h3: "isDriftPoint exact ?cfg ?st (fixAt 30)"
    by (simp add: isDriftPoint_def example_defs haversineDistance_meridian)
  have h4: "?buf = pushShift (maxDriftSequence ?cfg) (consecutiveDriftPoints ?st) (fixAt 30)"
    by (simp add: pushShift_def example_defs)
  have h5: "maxDriftSequence ?cfg \<le> length ?buf" by (simp add: example_defs)
  have h6: "isLinearMotion exact ?cfg ?st ?buf = Some False"
    by (simp add: processor_defs example_defs haversineDistance_meridian)
  have h7: "?buf \<noteq> [] \<or> 0 < windowSize ?cfg" by simp
  from forced_rebuild[OF h1 h2 h3 h4 h5 h6 h7]
  obtain st' where step: "processPoint exact ?cfg 0 (fixAt 30) ?st = Some (True, st')"
    and w: "slidingWindow st' = ?buf"
    and b: "consecutiveDriftPoints st' = []"
    and c: "basePointRebuildsCount st' = basePointRebuildsCount ?st + 1"
    and r: "basePointRebuildPositions st' = basePointRebuildPositions ?st @ [fixAt 30]"
    and v: "validPoints st' = validPoints ?st @ [fixAt 30]"
    and m: "if windowSize ?cfg \<le> length ?buf
        then basePoint st' = calculateMedianPoint exact 0 ?buf \<and> lastBasePointTime st' = 0
        else basePoint st' = basePoint ?st
           \<and> basePointRadius st' = basePointRadius ?st
           \<and> lastBasePointTime st' = lastBasePointTime ?st"
    by blast
  have m': "basePoint st' = Some \<lparr>lat = 20, lng = 0, timestamp = 0\<rparr>"
    using m by (simp add: calculateMedianPoint_def example_defs)
  have "validPoints st' = [fixAt 0, fixAt 1, fixAt 30]" using v by (simp add: example_defs)
  moreover have "basePointRebuildsCount st' = 1" using c by (simp add: example_defs)
  moreover have "basePointRebuildPositions st' = [fixAt 30]" using r by (simp add: example_defs)
  ultimately show ?thesis using run h2 h3 h6 step w b m' by blast
qed

section \<open>Runs of the detector of \<open>GPSProcessor\<close>\<close>

lemma warmup_step:
  assumes "length (slidingWindow st) < windowSize cfg"
  shows "\<exists>st'. processPoint M cfg now point st = Some (True, st')
     \<and> slidingWindow st' = slidingWindow st @ [point]
     \<and> validPoints st' = validPoints st @ [point]
     \<and> consecutiveDriftPoints st' = consecutiveDriftPoints st
     \<and> discardedDriftPointsCount st' = discardedDriftPointsCount st
     \<and> basePointRebuildsCount st' = basePointRebuildsCount st
     \<and> basePointRebuildPositions st' = basePointRebuildPositions st
     \<and> (if Suc (length (slidingWindow st)) = windowSize cfg
        then basePoint st' = calculateMedianPoint M now (slidingWindow st @ [point])
           \<and> basePoint st' \<noteq> None \<and> lastBasePointTime st' = now
        else basePoint st' = basePoint st \<and> basePointRadius st' = basePointRadius st
           \<and> lastBasePointTime st' = lastBasePointTime st)"
proof (cases "Suc (length (slidingWindow st)) = windowSize cfg")
  case True
  let ?st1 = "st\<lparr>slidingWindow := slidingWindow st @ [point],
                  validPoints := validPoints st @ [point]\<rparr>"
  obtain bp where bp: "calculateMedianPoint M now (slidingWindow st @ [point]) = Some bp"
    using calculateMedianPoint_Some[of "slidingWindow st @ [point]" M now] by auto
  have "windowSize cfg \<le> length (slidingWindow ?st1)" using True by simp
  moreover have "calculateMedianPoint M now (slidingWindow ?st1) = Some bp" using bp by simp
  ultimately have u: "updateBasePoint M cfg now ?st1 =
      Some (?st1\<lparr>basePoint := Some bp, lastBasePointTime := now,
                  basePointRadius :=
                    fold (\<lambda>point maxDistance. Math_max maxDistance (haversineDistance M point bp))
                      (slidingWindow ?st1) (Some 0)\<rparr>)"
    by (rule updateBasePoint_build)
  show ?thesis using assms True bp u by (simp add: processPoint_def Let_def)
next
  case False
  then show ?thesis using assms by (simp add: processPoint_def Let_def)
qed

lemma updateBasePoint_total:
  "0 < windowSize cfg \<Longrightarrow> \<exists>st'. updateBasePoint M cfg now st = Some st'"
  by (cases "slidingWindow st") (auto simp: updateBasePoint_def calculateMedianPoint_def Let_def)

lemma updateBasePoint_fields:
  assumes "updateBasePoint M cfg now st = Some st'"
  shows "\<exists>b t r. st' = st\<lparr>basePoint := b, lastBasePointTime := t, basePointRadius := r\<rparr>"
proof (cases "windowSize cfg \<le> length (slidingWindow st)")
  case True
  with assms obtain bp where "calculateMedianPoint M now (slidingWindow st) = Some bp"
    by (auto simp: updateBasePoint_def split: option.splits)
  from updateBasePoint_build[OF True this] assms show ?thesis by auto
next
  case False
  then have "updateBasePoint M cfg now st = Some st" by (simp add: updateBasePoint_def)
  with assms have "st' = st\<lparr>basePoint := basePoint st, lastBasePointTime := lastBasePointTime st,
      basePointRadius := basePointRadius st\<rparr>" by simp
  then show ?thesis by blast
qed

lemma isLinearMotion_total:
  "basePoint st \<noteq> None \<Longrightarrow> \<exists>b. isLinearMotion M cfg st points = Some b"
  by (auto simp: isLinearMotion_def Let_def split: option.splits)

lemma linearRecovery_fields:
  assumes "linearRecovery M cfg now point st = Some (ok, st')"
  shows "ok" "discardedDriftPointsCount st' = discardedDriftPointsCount st"
    "consecutiveDriftPoints st' = []"
    "slidingWindow st' = slidingWindow (restoreDriftPoints cfg (consecutiveDriftPoints st) st)"
  using assms
  by (auto simp: linearRecovery_def Let_def restoreDriftPoints_other
      dest!: updateBasePoint_fields split: option.splits)

lemma forcedRebuild_fields:
  assumes "forcedRebuild M cfg now point st = Some (ok, st')"
  shows "ok" "discardedDriftPointsCount st' = discardedDriftPointsCount st"
    "consecutiveDriftPoints st' = []"
    "slidingWindow st' = consecutiveDriftPoints st"
  using assms
  by (auto simp: forcedRebuild_def Let_def dest!: updateBasePoint_fields split: option.splits)

lemma driftBranch_cases:
  assumes "driftBranch M cfg now point st = Some (ok, st')"
      and "buf = pushShift (maxDriftSequence cfg) (consecutiveDriftPoints st) point"
  shows "(linearRecovery M cfg now point (st\<lparr>consecutiveDriftPoints := buf\<rparr>) = Some (ok, st'))
       \<or> (maxDriftSequence cfg \<le> length buf
           \<and> forcedRebuild M cfg now point (st\<lparr>consecutiveDriftPoints := buf\<rparr>) = Some (ok, st'))
       \<or> (length buf < maxDriftSequence cfg \<and> \<not> ok
           \<and> st' = st\<lparr>consecutiveDriftPoints := buf,
                       discardedDriftPointsCount := discardedDriftPointsCount st + 1\<rparr>)"
  using assms
  by (auto simp: driftBranch_def Let_def split: option.splits bool.splits if_splits)

lemma processPoint_cases:
  assumes "processPoint M cfg now point st = Some (ok, st')"
  shows "(length (slidingWindow st) < windowSize cfg \<and> ok
           \<and> slidingWindow st' = slidingWindow st @ [point]
           \<and> consecutiveDriftPoints st' = consecutiveDriftPoints st
           \<and> discardedDriftPointsCount st' = discardedDriftPointsCount st)
       \<or> (windowSize cfg \<le> length (slidingWindow st) \<and> ok
           \<and> slidingWindow st' = [point] \<and> consecutiveDriftPoints st' = []
           \<and> discardedDriftPointsCount st' = discardedDriftPointsCount st)
       \<or> (windowSize cfg \<le> length (slidingWindow st)
           \<and> driftBranch M cfg now point st = Some (ok, st'))
       \<or> (windowSize cfg \<le> length (slidingWindow st) \<and> ok
           \<and> slidingWindow st' = pushShift (windowSize cfg) (slidingWindow st) point
           \<and> consecutiveDriftPoints st' = []
           \<and> discardedDriftPointsCount st' = discardedDriftPointsCount st)"
proof (cases "length (slidingWindow st) < windowSize cfg")
  case True
  from warmup_step[OF True, of M now point] assms show ?thesis using True by auto
next
  case False
  show ?thesis
  proof (cases "isBasePointExpired M cfg now st")
    case True
    with False assms show ?thesis by (auto simp: processPoint_def)
  next
    case nexp: False
    show ?thesis
    proof (cases "isDriftPoint M cfg st point")
      case True
      with False nexp assms show ?thesis by (auto simp: processPoint_def)
    next
      case ndrift: False
      with False nexp assms show ?thesis
        by (auto simp: processPoint_def Let_def dest!: updateBasePoint_fields
            split: option.splits if_splits)
    qed
  qed
qed

lemma driftBranch_total:
  assumes "0 < windowSize cfg" "basePoint st \<noteq> None"
  shows "\<exists>ok st'. driftBranch M cfg now point st = Some (ok, st')"
proof -
  let ?buf = "pushShift (maxDriftSequence cfg) (consecutiveDriftPoints st) point"
  let ?st1 = "st\<lparr>consecutiveDriftPoints := ?buf\<rparr>"
  have bp1: "basePoint ?st1 \<noteq> None" using assms(2) by simp
  obtain b where b: "isLinearMotion M cfg ?st1 ?buf = Some b"
    using isLinearMotion_total[OF bp1] by blast
  have lin: "\<exists>r. linearRecovery M cfg now point ?st1 = Some r"
    using updateBasePoint_total[OF assms(1)]
    by (simp add: linearRecovery_def Let_def split: option.splits) (metis option.distinct(1))
  have frc: "\<exists>r. forcedRebuild M cfg now point ?st1 = Some r"
    using updateBasePoint_total[OF assms(1)]
    by (simp add: forcedRebuild_def Let_def split: option.splits) (metis option.distinct(1))
  show ?thesis using b lin frc
    by (cases b) (auto simp: driftBranch_def Let_def isLinearMotion_short)
qed

lemma processPoint_total:
  assumes "0 < windowSize cfg"
  shows "\<exists>ok st'. processPoint M cfg now point st = Some (ok, st')"
proof (cases "length (slidingWindow st) < windowSize cfg")
  case True
  from warmup_step[OF True] show ?thesis by blast
next
  case False
  show ?thesis
  proof (cases "isBasePointExpired M cfg now st")
    case True
    with False show ?thesis by (auto simp: processPoint_def)
  next
    case nexp: False
    show ?thesis
    proof (cases "isDriftPoint M cfg st point")
      case True
      then have "basePoint st \<noteq> None" using isDriftPoint_basePoint by blast
      from driftBranch_total[OF assms this] False nexp True show ?thesis
        by (simp add: processPoint_def)
    next
      case ndrift: False
      let ?st3 = "(if length (consecutiveDriftPoints st) > 0
                    then st\<lparr>consecutiveDriftPoints := []\<rparr> else st)
                   \<lparr>slidingWindow := pushShift (windowSize cfg) (slidingWindow st) point,
                    validPoints := validPoints st @ [point]\<rparr>"
      obtain st4 where "updateBasePoint M cfg now ?st3 = Some st4"
        using updateBasePoint_total[OF assms] by blast
      with False nexp ndrift show ?thesis
        by (auto simp: processPoint_def Let_def split: if_splits)
    qed
  qed
qed

lemma processPoint_discarded:
  assumes "processPoint M cfg now point st = Some (ok, st')"
  shows "discardedDriftPointsCount st' = discardedDriftPointsCount st + (if ok then 0 else 1)"
proof -
  let ?buf = "pushShift (maxDriftSequence cfg) (consecutiveDriftPoints st) point"
  from processPoint_cases[OF assms]
  consider "ok \<and> discardedDriftPointsCount st' = discardedDriftPointsCount st"
    | "driftBranch M cfg now point st = Some (ok, st')" by blast
  then show ?thesis
  proof cases
    case 1
    then show ?thesis by simp
  next
    case 2
    from driftBranch_cases[OF 2 refl]
    show ?thesis
      by (auto dest: linearRecovery_fields forcedRebuild_fields)
  qed
qed

lemma pushShift_length_le: "length xs \<le> cap \<Longrightarrow> length (pushShift cap xs p) \<le> cap"
  by (auto simp: pushShift_def Let_def)

lemma restoreDriftPoints_window_le:
  "length (slidingWindow st) \<le> windowSize cfg \<Longrightarrow>
   length (slidingWindow (restoreDriftPoints cfg ds st)) \<le> windowSize cfg"
  by (induction ds arbitrary: st) (simp_all add: pushShift_length_le)

lemma processPoint_bounds:
  assumes step: "processPoint M cfg now point st = Some (ok, st')"
      and W: "0 < windowSize cfg" and MW: "maxDriftSequence cfg \<le> windowSize cfg"
      and w: "length (slidingWindow st) \<le> windowSize cfg"
      and b: "length (consecutiveDriftPoints st) \<le> maxDriftSequence cfg"
  shows "length (slidingWindow st') \<le> windowSize cfg
       \<and> length (consecutiveDriftPoints st') \<le> maxDriftSequence cfg"
proof -
  let ?buf = "pushShift (maxDriftSequence cfg) (consecutiveDriftPoints st) point"
  have lb: "length ?buf \<le> maxDriftSequence cfg" using b by (rule pushShift_length_le)
  from processPoint_cases[OF step]
  consider (warm) "length (slidingWindow st) < windowSize cfg"
        "slidingWindow st' = slidingWindow st @ [point]"
        "consecutiveDriftPoints st' = consecutiveDriftPoints st"
    | (expired) "slidingWindow st' = [point]" "consecutiveDriftPoints st' = []"
    | (drift) "driftBranch M cfg now point st = Some (ok, st')"
    | (good) "slidingWindow st' = pushShift (windowSize cfg) (slidingWindow st) point"
        "consecutiveDriftPoints st' = []"
    by blast
  then show ?thesis
  proof cases
    case warm
    then show ?thesis using b by simp
  next
    case expired
    then show ?thesis using W by simp
  next
    case drift
    from driftBranch_cases[OF drift refl]
    show ?thesis
    proof (elim disjE conjE)
      assume "linearRecovery M cfg now point (st\<lparr>consecutiveDriftPoints := ?buf\<rparr>) = Some (ok, st')"
      from linearRecovery_fields(3,4)[OF this]
      show ?thesis using restoreDriftPoints_window_le[of "st\<lparr>consecutiveDriftPoints := ?buf\<rparr>" cfg ?buf] w
        by simp
    next
      assume "forcedRebuild M cfg now point (st\<lparr>consecutiveDriftPoints := ?buf\<rparr>) = Some (ok, st')"
      from forcedRebuild_fields(3,4)[OF this]
      show ?thesis using lb MW by simp
    next
      assume "st' = st\<lparr>consecutiveDriftPoints := ?buf,
                       discardedDriftPointsCount := discardedDriftPointsCount st + 1\<rparr>"
      then show ?thesis using lb w by simp
    qed
  next
    case good
    then show ?thesis using pushShift_length_le[OF w] by simp
  qed
qed

lemma processLoop_append:
  "processLoop M cfg clock i (xs @ ys) st acc =
     (case processLoop M cfg clock i xs st acc of
        None \<Rightarrow> None
      | Some (acc', st') \<Rightarrow> processLoop M cfg clock (i + length xs) ys st' acc')"
  by (induction xs arbitrary: i st acc) (auto split: option.splits)

lemma processLoop_total:
  assumes "0 < windowSize cfg"
  shows "\<exists>acc' st'. processLoop M cfg clock i T st acc = Some (acc', st')"
proof (induction T arbitrary: i st acc)
  case Nil
  show ?case by simp
next
  case (Cons p T)
  obtain ok st1 where "processPoint M cfg (clock i) p st = Some (ok, st1)"
    using processPoint_total[OF assms] by blast
  with Cons.IH show ?case by simp
qed

lemma processLoop_Nil_only_throw:
  "processLoop M cfg clock i T st acc = None \<Longrightarrow> windowSize cfg = 0"
  using processLoop_total[of cfg M clock i T st acc] by (cases "windowSize cfg") auto

lemma processLoop_output:
  assumes "processLoop M cfg clock i T st acc = Some (acc', st')"
  shows "\<exists>ys. acc' = acc @ ys \<and> subseq ys T
       \<and> length ys + discardedDriftPointsCount st' = length T + discardedDriftPointsCount st"
  using assms
proof (induction T arbitrary: i st acc)
  case Nil
  then show ?case by simp
next
  case (Cons p T)
  from Cons.prems obtain ok st1 where
    step: "processPoint M cfg (clock i) p st = Some (ok, st1)"
    and rest: "processLoop M cfg clock (Suc i) T st1 (if ok then acc @ [p] else acc) = Some (acc', st')"
    by (auto split: option.splits)
  from Cons.IH[OF rest] obtain ys where
    ys: "acc' = (if ok then acc @ [p] else acc) @ ys" "subseq ys T"
        "length ys + discardedDriftPointsCount st' = length T + discardedDriftPointsCount st1"
    by blast
  have d: "discardedDriftPointsCount st1 = discardedDriftPointsCount st + (if ok then 0 else 1)"
    using step by (rule processPoint_discarded)
  show ?case
  proof (cases ok)
    case True
    with ys d show ?thesis by (intro exI[of _ "p # ys"]) simp
  next
    case False
    with ys d show ?thesis by (intro exI[of _ ys]) (simp add: list_emb_Cons)
  qed
qed

lemma processLoop_bounds:
  assumes "processLoop M cfg clock i T st acc = Some (acc', st')"
      and W: "0 < windowSize cfg" and MW: "maxDriftSequence cfg \<le> windowSize cfg"
      and "length (slidingWindow st) \<le> windowSize cfg"
      and "length (consecutiveDriftPoints st) \<le> maxDriftSequence cfg"
  shows "length (slidingWindow st') \<le> windowSize cfg
       \<and> length (consecutiveDriftPoints st') \<le> maxDriftSequence cfg"
  using assms(1,4,5)
proof (induction T arbitrary: i st acc)
  case Nil
  then show ?case by simp
next
  case (Cons p T)
  from Cons.prems(1) obtain ok st1 where
    step: "processPoint M cfg (clock i) p st = Some (ok, st1)"
    and rest: "processLoop M cfg clock (Suc i) T st1 (if ok then acc @ [p] else acc) = Some (acc', st')"
    by (auto split: option.splits)
  from processPoint_bounds[OF step W MW Cons.prems(2,3)]
  show ?case using Cons.IH[OF rest] by blast
qed

lemma processLoop_warmup:
  assumes "length (slidingWindow st) + length T \<le> windowSize cfg"
  shows "\<exists>st'. processLoop M cfg clock i T st acc = Some (acc @ T, st')
       \<and> slidingWindow st' = slidingWindow st @ T
       \<and> validPoints st' = validPoints st @ T
       \<and> consecutiveDriftPoints st' = consecutiveDriftPoints st
       \<and> discardedDriftPointsCount st' = discardedDriftPointsCount st
       \<and> basePointRebuildsCount st' = basePointRebuildsCount st
       \<and> (basePoint st' \<noteq> None \<longleftrightarrow>
            basePoint st \<noteq> None
            \<or> (T \<noteq> [] \<and> length (slidingWindow st) + length T = windowSize cfg))"
  using assms
proof (induction T arbitrary: i st acc)
  case Nil
  then show ?case by simp
next
  case (Cons p T)
  have lt: "length (slidingWindow st) < windowSize cfg" using Cons.prems by simp
  from warmup_step[OF lt, of M "clock i" p] obtain st1 where
    step: "processPoint M cfg (clock i) p st = Some (True, st1)"
    and w1: "slidingWindow st1 = slidingWindow st @ [p]"
    and v1: "validPoints st1 = validPoints st @ [p]"
    and b1: "consecutiveDriftPoints st1 = consecutiveDriftPoints st"
    and d1: "discardedDriftPointsCount st1 = discardedDriftPointsCount st"
    and r1: "basePointRebuildsCount st1 = basePointRebuildsCount st"
    and bp1: "if Suc (length (slidingWindow st)) = windowSize cfg
        then basePoint st1 = calculateMedianPoint M (clock i) (slidingWindow st @ [p])
           \<and> basePoint st1 \<noteq> None \<and> lastBasePointTime st1 = clock i
        else basePoint st1 = basePoint st \<and> basePointRadius st1 = basePointRadius st
           \<and> lastBasePointTime st1 = lastBasePointTime st"
    by blast
  have "length (slidingWindow st1) + length T \<le> windowSize cfg" using Cons.prems w1 by simp
  from Cons.IH[OF this, of "Suc i" "acc @ [p]"] obtain st' where
    st': "processLoop M cfg clock (Suc i) T st1 (acc @ [p]) = Some ((acc @ [p]) @ T, st')"
      "slidingWindow st' = slidingWindow st1 @ T"
      "validPoints st' = validPoints st1 @ T"
      "consecutiveDriftPoints st' = consecutiveDriftPoints st1"
      "discardedDriftPointsCount st' = discardedDriftPointsCount st1"
      "basePointRebuildsCount st' = basePointRebuildsCount st1"
      "basePoint st' \<noteq> None \<longleftrightarrow>
            basePoint st1 \<noteq> None
            \<or> (T \<noteq> [] \<and> length (slidingWindow st1) + length T = windowSize cfg)"
    by blast
  have bpiff: "basePoint st' \<noteq> None \<longleftrightarrow>
            basePoint st \<noteq> None
            \<or> (length (slidingWindow st) + length (p # T) = windowSize cfg)"
  proof (cases "Suc (length (slidingWindow st)) = windowSize cfg")
    case True
    then have "T = []" using Cons.prems by (cases T) auto
    from True bp1 have "basePoint st1 \<noteq> None" by metis
    with True st'(7) \<open>T = []\<close> show ?thesis by simp
  next
    case False
    with bp1 st'(7) w1 show ?thesis by (cases T) auto
  qed
  show ?case using step st' w1 v1 b1 d1 r1 bpiff by (intro exI[of _ st']) simp
qed

section \<open>Runs of the detector of \<open>GpsTrajectoryAnalyzer\<close>\<close>

lemma sliceLast_nonempty: "xs \<noteq> [] \<Longrightarrow> sliceLast n xs \<noteq> []"
  by (cases xs) (auto simp: sliceLast_def)

lemma calculateCentroid_Some: "ps \<noteq> [] \<Longrightarrow> \<exists>c. calculateCentroid M now ps = Some c"
  by (simp add: calculateCentroid_def Let_def)

lemma analyzerInv_None: "basePointA st = None \<Longrightarrow> analyzerInv st"
  by (simp add: analyzerInv_def)

lemma analyzerInv_reset: "analyzerInv reset"
  by (simp add: analyzerInv_def reset_def)

lemma Math_max_floor: "Math_max x (Some c) = Some r \<Longrightarrow> c \<le> r"
  by (auto simp: Math_max_def split: option.splits)

lemma updateBasePointA_result:
  assumes "basePointA st \<noteq> None \<longrightarrow> validPointsA st \<noteq> []"
  shows "\<exists>b. updateBasePointA M cfg now st = Some (st\<lparr>basePointA := b\<rparr>)
           \<and> (case b of None \<Rightarrow> True
               | Some bp \<Rightarrow> validPointsA st \<noteq> [] \<and> (\<forall>r. radius bp = Some r \<longrightarrow> 50 \<le> r))"
proof (cases "basePointA st")
  case None
  show ?thesis
  proof (cases "3 \<le> length (validPointsA st)")
    case True
    then have ne: "validPointsA st \<noteq> []" by auto
    then obtain c where "calculateCentroid M now (validPointsA st) = Some c"
      using calculateCentroid_Some by blast
    with None True ne show ?thesis
      by (intro exI[of _ "Some \<lparr>bpoint = c,
                    radius = Math_max (calculateRadius M cfg (validPointsA st) c) (Some 50),
                    createdAt = now,
                    validPointsCount = length (validPointsA st)\<rparr>"])
         (auto simp: updateBasePointA_def dest: Math_max_floor)
  next
    case False
    with None show ?thesis
      by (intro exI[of _ None]) (simp add: updateBasePointA_def)
  qed
next
  case (Some b)
  with assms have ne: "validPointsA st \<noteq> []" by simp
  then have "sliceLast (windowSize cfg) (validPointsA st) \<noteq> []" by (rule sliceLast_nonempty)
  then obtain c where "calculateCentroid M now (sliceLast (windowSize cfg) (validPointsA st)) = Some c"
    using calculateCentroid_Some by blast
  with Some ne show ?thesis
    by (intro exI[of _ "Some (b\<lparr>bpoint := c,
                    radius := Math_max (calculateRadius M cfg
                                (sliceLast (windowSize cfg) (validPointsA st)) c) (Some 50),
                    validPointsCount := length (sliceLast (windowSize cfg) (validPointsA st))\<rparr>)"])
       (auto simp: updateBasePointA_def Let_def dest: Math_max_floor)
qed

lemma updateBasePointA_inv:
  assumes "basePointA st \<noteq> None \<longrightarrow> validPointsA st \<noteq> []"
  shows "\<exists>st'. updateBasePointA M cfg now st = Some st' \<and> analyzerInv st'
           \<and> slidingWindowA st' = slidingWindowA st"
proof -
  from updateBasePointA_result[OF assms, of M cfg now] obtain b where
    "updateBasePointA M cfg now st = Some (st\<lparr>basePointA := b\<rparr>)"
    "case b of None \<Rightarrow> True
       | Some bp \<Rightarrow> validPointsA st \<noteq> [] \<and> (\<forall>r. radius bp = Some r \<longrightarrow> 50 \<le> r)"
    by blast
  then show ?thesis by (auto simp: analyzerInv_def split: option.splits)
qed

lemma rebuildBasePoint_inv:
  assumes "analyzerInv st"
  shows "\<exists>st'. rebuildBasePoint M cfg now st = Some st' \<and> analyzerInv st'
           \<and> slidingWindowA st' = slidingWindowA st"
proof (cases "validPointsA st = []")
  case True
  then have "basePointA st = None" using assms by (auto simp: analyzerInv_def split: option.splits)
  with True show ?thesis by (simp add: rebuildBasePoint_def Let_def sliceLast_def analyzerInv_def)
next
  case False
  then have ne: "sliceLast (windowSize cfg) (validPointsA st) \<noteq> []" by (rule sliceLast_nonempty)
  then obtain c where "calculateCentroid M now (sliceLast (windowSize cfg) (validPointsA st)) = Some c"
    using calculateCentroid_Some by blast
  with ne False show ?thesis
    by (auto simp: rebuildBasePoint_def Let_def analyzerInv_def dest: Math_max_floor)
qed

lemma recoverFromLinearMotion_inv:
  assumes "analyzerInv st"
  shows "\<exists>st'. recoverFromLinearMotion M cfg now st = Some st' \<and> analyzerInv st'
           \<and> slidingWindowA st' = slidingWindowA st"
proof -
  let ?rd = "map wpoint (filter isDrift (sliceLast (consecutiveDriftCount st) (slidingWindowA st)))"
  let ?st1 = "st\<lparr>validPointsA := validPointsA st @ ?rd,
                    filteredCount := filteredCount st - int (length ?rd),
                    driftCount := driftCount st - int (length ?rd)\<rparr>"
  have "basePointA ?st1 \<noteq> None \<longrightarrow> validPointsA ?st1 \<noteq> []"
    using assms by (auto simp: analyzerInv_def split: option.splits)
  from updateBasePointA_inv[OF this, of M cfg now] show ?thesis
    by (simp add: recoverFromLinearMotion_def Let_def)
qed

lemma handleConsecutiveDrift_inv:
  assumes "analyzerInv st"
  shows "\<exists>st'. handleConsecutiveDrift M cfg now st = Some st' \<and> analyzerInv st'
           \<and> slidingWindowA st' = slidingWindowA st"
proof (cases "isLinearMotionMisjudgment M cfg st")
  case True
  from recoverFromLinearMotion_inv[OF assms, of M cfg now] True show ?thesis
    by (auto simp: handleConsecutiveDrift_def analyzerInv_def)
next
  case False
  from rebuildBasePoint_inv[OF assms, of M cfg now] False show ?thesis
    by (auto simp: handleConsecutiveDrift_def analyzerInv_def)
qed

lemma markLast_length: "length (markLast f ws) = length ws"
  by (cases ws rule: rev_cases) (simp_all add: markLast_def)

lemma handleDriftPoint_inv:
  assumes "analyzerInv st"
  shows "\<exists>st'. handleDriftPoint M cfg now p st = Some st' \<and> analyzerInv st'
           \<and> length (slidingWindowA st') = length (slidingWindowA st)"
proof -
  let ?st2 = "st\<lparr>consecutiveDriftCount := consecutiveDriftCount st + 1,
                    driftCount := driftCount st + 1,
                    filteredCount := filteredCount st + 1,
                    slidingWindowA := markLast (\<lambda>w. w\<lparr>isDrift := True\<rparr>) (slidingWindowA st)\<rparr>"
  have inv2: "analyzerInv ?st2" using assms by (simp add: analyzerInv_def)
  from handleConsecutiveDrift_inv[OF inv2, of M cfg now] inv2 show ?thesis
    by (auto simp: handleDriftPoint_def Let_def markLast_length)
qed

lemma handleValidPoint_inv:
  "\<exists>st'. handleValidPoint M cfg now p st = Some st' \<and> analyzerInv st'
           \<and> length (slidingWindowA st') = length (slidingWindowA st)"
proof -
  let ?st2 = "st\<lparr>consecutiveDriftCount := 0, validPointsA := validPointsA st @ [p],
                 slidingWindowA := markLast (\<lambda>w. w\<lparr>isValid := True\<rparr>) (slidingWindowA st)\<rparr>"
  have "basePointA ?st2 \<noteq> None \<longrightarrow> validPointsA ?st2 \<noteq> []" by simp
  from updateBasePointA_inv[OF this, of M cfg now] show ?thesis
    by (auto simp: handleValidPoint_def Let_def markLast_length)
qed

lemma checkBasePointExpiry_inv:
  "analyzerInv st \<Longrightarrow> analyzerInv (checkBasePointExpiry M cfg t st)"
  by (auto simp: checkBasePointExpiry_def analyzerInv_def split: option.splits)

lemma checkBasePointExpiry_window:
  "slidingWindowA (checkBasePointExpiry M cfg t st) = slidingWindowA st"
  by (auto simp: checkBasePointExpiry_def split: option.splits)

lemma processPointA_inv:
  assumes inv: "analyzerInv st"
      and w: "length (slidingWindowA st) \<le> windowSize cfg"
  shows "\<exists>ok st'. processPointA M cfg now pt st = Some (ok, st') \<and> analyzerInv st'
           \<and> length (slidingWindowA st') \<le> windowSize cfg"
proof -
  define st0 where "st0 = (if \<not> isInitialized st then reset else st)"
  have inv0: "analyzerInv st0" using inv by (simp add: st0_def analyzerInv_reset)
  have w0: "length (slidingWindowA st0) \<le> windowSize cfg" using w by (simp add: st0_def reset_def)
  define ip :: InternalGPSPoint where
    "ip = \<lparr>lat = lat pt, lng = lng pt, timestamp = timestamp pt, index = Some (processedCount st0)\<rparr>"
  define st3 where "st3 = checkBasePointExpiry M cfg (timestamp ip)
      (addToSlidingWindow cfg ip (st0\<lparr>processedCount := processedCount st0 + 1\<rparr>))"
  have inv3: "analyzerInv st3"
    unfolding st3_def using inv0
    by (intro checkBasePointExpiry_inv) (simp add: analyzerInv_def addToSlidingWindow_def)
  have w3: "length (slidingWindowA st3) \<le> windowSize cfg"
    unfolding st3_def using w0
    by (simp add: checkBasePointExpiry_window addToSlidingWindow_def pushShift_length_le)
  have eq: "processPointA M cfg now pt st =
     (if isDriftPointA M cfg st3 ip then
           (case handleDriftPoint M cfg now ip
                   (st3\<lparr>consecutiveDriftCount := consecutiveDriftCount st3 + 1\<rparr>) of
              None \<Rightarrow> None
            | Some st4 \<Rightarrow> Some (False, st4))
         else
           (case handleValidPoint M cfg now ip (st3\<lparr>consecutiveDriftCount := 0\<rparr>) of
              None \<Rightarrow> None
            | Some st4 \<Rightarrow> Some (True, st4)))"
    by (simp add: processPointA_def Let_def st0_def ip_def st3_def)
  show ?thesis
  proof (cases "isDriftPointA M cfg st3 ip")
    case True
    have "analyzerInv (st3\<lparr>consecutiveDriftCount := consecutiveDriftCount st3 + 1\<rparr>)"
      using inv3 by (simp add: analyzerInv_def)
    from handleDriftPoint_inv[OF this, of M cfg now ip] True w3 show ?thesis
      unfolding eq by auto
  next
    case False
    from handleValidPoint_inv[of M cfg now ip "st3\<lparr>consecutiveDriftCount := 0\<rparr>"] False w3
    show ?thesis unfolding eq by auto
  qed
qed

text \<open>The two output lists of a run, from the list of verdicts.\<close>

lemma mset_map_filter_split:
  "mset (map f (filter P xs)) + mset (map f (filter (\<lambda>x. \<not> P x) xs)) = mset (map f xs)"
  by (induction xs) auto

lemma split_by_verdicts:
  assumes "length vs = length T"
  shows "mset (map fst (filter snd (zip T vs))) + mset (map fst (filter (\<lambda>x. \<not> snd x) (zip T vs)))
           = mset T"
    and "set (map fst (filter snd (zip T vs))) \<union> set (map fst (filter (\<lambda>x. \<not> snd x) (zip T vs)))
           = set T"
    and "distinct T \<Longrightarrow>
         set (map fst (filter snd (zip T vs))) \<inter> set (map fst (filter (\<lambda>x. \<not> snd x) (zip T vs)))
           = {}"
proof -
  let ?z = "zip T vs"
  have fz: "map fst ?z = T" using assms by simp
  have "mset (map fst (filter snd ?z)) + mset (map fst (filter (\<lambda>x. \<not> snd x) ?z))
          = mset (map fst ?z)"
    by (rule mset_map_filter_split)
  then show m: "mset (map fst (filter snd ?z)) + mset (map fst (filter (\<lambda>x. \<not> snd x) ?z)) = mset T"
    using fz by simp
  from m have "set_mset (mset (map fst (filter snd ?z)) + mset (map fst (filter (\<lambda>x. \<not> snd x) ?z)))
      = set_mset (mset T)" by simp
  then show "set (map fst (filter snd ?z)) \<union> set (map fst (filter (\<lambda>x. \<not> snd x) ?z)) = set T"
    by simp
  show "set (map fst (filter snd ?z)) \<inter> set (map fst (filter (\<lambda>x. \<not> snd x) ?z)) = {}"
    if "distinct T"
  proof -
    have "distinct (map fst ?z)" using that fz by simp
    then have inj: "inj_on fst (set ?z)" by (simp add: distinct_map)
    show ?thesis
    proof (rule ccontr)
      assume "set (map fst (filter snd ?z)) \<inter> set (map fst (filter (\<lambda>x. \<not> snd x) ?z)) \<noteq> {}"
      then obtain a b where "a \<in> set ?z" "snd a" "b \<in> set ?z" "\<not> snd b" "fst a = fst b"
        by auto
      with inj have "a = b" by (auto dest: inj_onD)
      with \<open>snd a\<close> \<open>\<not> snd b\<close> show False by simp
    qed
  qed
qed

lemma processLoopA_result:
  assumes "analyzerInv st" "length (slidingWindowA st) \<le> windowSize cfg"
  shows "\<exists>st' vs. processLoopA M cfg clock i T st processed filtered
            = Some (processed @ map fst (filter snd (zip T vs)),
                    filtered @ map fst (filter (\<lambda>x. \<not> snd x) (zip T vs)), st')
          \<and> length vs = length T
          \<and> analyzerInv st' \<and> length (slidingWindowA st') \<le> windowSize cfg"
  using assms
proof (induction T arbitrary: i st processed filtered)
  case Nil
  then show ?case by simp
next
  case (Cons pt T)
  from processPointA_inv[OF Cons.prems, of M "clock i" pt] obtain ok st1 where
    step: "processPointA M cfg (clock i) pt st = Some (ok, st1)"
    and inv1: "analyzerInv st1" and w1: "length (slidingWindowA st1) \<le> windowSize cfg"
    by blast
  from Cons.IH[OF inv1 w1, of "Suc i" "if ok then processed @ [pt] else processed"
      "if ok then filtered else filtered @ [pt]"]
  obtain st' vs where
    rest: "processLoopA M cfg clock (Suc i) T st1
             (if ok then processed @ [pt] else processed)
             (if ok then filtered else filtered @ [pt])
           = Some ((if ok then processed @ [pt] else processed) @ map fst (filter snd (zip T vs)),
                   (if ok then filtered else filtered @ [pt])
                     @ map fst (filter (\<lambda>x. \<not> snd x) (zip T vs)), st')"
    and len: "length vs = length T"
    and inv': "analyzerInv st'" and w': "length (slidingWindowA st') \<le> windowSize cfg"
    by blast
  show ?case
    using step rest len inv' w'
    by (intro exI[of _ st'] exI[of _ "ok # vs"]) (cases ok; simp)
qed

section \<open>Warm-up\<close>

lemmas analyzer_defs = processPointA_def Let_def addToSlidingWindow_def checkBasePointExpiry_def
  isDriftPointA_def handleValidPoint_def handleDriftPoint_def pushShift_def markLast_def
  updateBasePointA_def calculateCentroid_def calculateRadius_def calculateDistance_def
  sliceLast_def handleConsecutiveDrift_def isLinearMotionMisjudgment_def
  recoverFromLinearMotion_def rebuildBasePoint_def calculateMinAngleInTriangleA_def
  minAngleOfSides_def acosQuot_def sortDistances_def exact_arith exact_simps number_defs

lemma pi_bounds_for_examples: "18 < 6371 * pi"
  using pi_ge_two by simp

lemma analyzer_example_run:
  "processTrajectoryA exact DEFAULT_CONFIG (\<lambda>i. 0) [fixAt 0, fixAt 0, fixAt 0, fixAt 1]
     = Some (\<lparr>originalPointsA = [fixAt 0, fixAt 0, fixAt 0, fixAt 1],
              processedPointsA = [fixAt 0, fixAt 0, fixAt 0],
              filteredPointsA = [fixAt 1]\<rparr>,
             \<lparr>slidingWindowA =
                [\<lparr>wpoint = \<lparr>lat = 0, lng = 0, timestamp = 0, index = Some 0\<rparr>,
                  isValid = True, isDrift = False\<rparr>,
                 \<lparr>wpoint = \<lparr>lat = 0, lng = 0, timestamp = 0, index = Some 1\<rparr>,
                  isValid = True, isDrift = False\<rparr>,
                 \<lparr>wpoint = \<lparr>lat = 0, lng = 0, timestamp = 0, index = Some 2\<rparr>,
                  isValid = True, isDrift = False\<rparr>,
                 \<lparr>wpoint = \<lparr>lat = 1, lng = 0, timestamp = 0, index = Some 3\<rparr>,
                  isValid = False, isDrift = True\<rparr>],
              validPointsA =
                [\<lparr>lat = 0, lng = 0, timestamp = 0, index = Some 0\<rparr>,
                 \<lparr>lat = 0, lng = 0, timestamp = 0, index = Some 1\<rparr>,
                 \<lparr>lat = 0, lng = 0, timestamp = 0, index = Some 2\<rparr>],
              basePointA =
                Some \<lparr>bpoint = \<lparr>lat = 0, lng = 0, timestamp = 0, index = None\<rparr>,
                      radius = Some 50, createdAt = 0, validPointsCount = 3\<rparr>,
              consecutiveDriftCount = 2, processedCount = 4, filteredCount = 1,
              driftCount = 1, basePointRebuilds = 0, isInitialized = True\<rparr>)"
  using pi_bounds_for_examples
  by (simp add: processTrajectoryA_def analyzer_defs DEFAULT_CONFIG_def reset_def fixAt_def
      haversine_meridian)

text \<open>
  Claim C1, as stated, fails for \<open>GpsTrajectoryAnalyzer\<close>: its \<open>updateBasePoint\<close> creates the
  base point as soon as three fixes are valid, whatever \<open>windowSize\<close> is, and every fix from
  then on is tested for drift. With the default configuration (\<open>windowSize = 10\<close>), after
  three fixes at latitude 0 the base point has radius 50 m, and the fourth fix, one degree of
  latitude away, is rejected: it is the fourth of the first ten fixes.
\<close>

theorem analyzer_rejects_within_first_window:
  "windowSize DEFAULT_CONFIG = 10
   \<and> processTrajectoryA exact DEFAULT_CONFIG (\<lambda>i. 0) [fixAt 0, fixAt 0, fixAt 0, fixAt 1]
     = Some (\<lparr>originalPointsA = [fixAt 0, fixAt 0, fixAt 0, fixAt 1],
              processedPointsA = [fixAt 0, fixAt 0, fixAt 0],
              filteredPointsA = [fixAt 1]\<rparr>,
             \<lparr>slidingWindowA =
                [\<lparr>wpoint = \<lparr>lat = 0, lng = 0, timestamp = 0, index = Some 0\<rparr>,
                  isValid = True, isDrift = False\<rparr>,
                 \<lparr>wpoint = \<lparr>lat = 0, lng = 0, timestamp = 0, index = Some 1\<rparr>,
                  isValid = True, isDrift = False\<rparr>,
                 \<lparr>wpoint = \<lparr>lat = 0, lng = 0, timestamp = 0, index = Some 2\<rparr>,
                  isValid = True, isDrift = False\<rparr>,
                 \<lparr>wpoint = \<lparr>lat = 1, lng = 0, timestamp = 0, index = Some 3\<rparr>,
                  isValid = False, isDrift = True\<rparr>],
              validPointsA =
                [\<lparr>lat = 0, lng = 0, timestamp = 0, index = Some 0\<rparr>,
                 \<lparr>lat = 0, lng = 0, timestamp = 0, index = Some 1\<rparr>,
                 \<lparr>lat = 0, lng = 0, timestamp = 0, index = Some 2\<rparr>],
              basePointA =
                Some \<lparr>bpoint = \<lparr>lat = 0, lng = 0, timestamp = 0, index = None\<rparr>,
                      radius = Some 50, createdAt = 0, validPointsCount = 3\<rparr>,
              consecutiveDriftCount = 2, processedCount = 4, filteredCount = 1,
              driftCount = 1, basePointRebuilds = 0, isInitialized = True\<rparr>)"
  using analyzer_example_run by (simp add: DEFAULT_CONFIG_def)

text \<open>
  Claim C1, amended to the detector of \<open>GPSProcessor\<close> and \<open>GPSCore\<close>. For every configuration:
  while the sliding window holds fewer than \<open>windowSize\<close> fixes, \<open>processPoint\<close> returns \<open>true\<close>
  whatever the base point, the radius and the fix are (no drift test is involved), the fix
  is appended to the window and to the accepted list, and nothing else changes, but that the
  base point is built, as the median point of the window, exactly when this fix brings the
  window to \<open>windowSize\<close> fixes. Hence a trajectory of at most \<open>windowSize\<close> fixes is accepted
  whole by \<open>processTrajectory\<close>, and leaves a base point exactly when it has \<open>windowSize\<close>
  fixes; and the first \<open>windowSize\<close> fixes of any trajectory open the accepted list
  (\<open>processTrajectory\<close> throws only when \<open>windowSize = 0\<close>).
\<close>

theorem warmup_accepts:
  "(length (slidingWindow st) < windowSize cfg \<longrightarrow>
      (\<exists>st'. processPoint M cfg now point st = Some (True, st')
        \<and> slidingWindow st' = slidingWindow st @ [point]
        \<and> validPoints st' = validPoints st @ [point]
        \<and> consecutiveDriftPoints st' = consecutiveDriftPoints st
        \<and> discardedDriftPointsCount st' = discardedDriftPointsCount st
        \<and> basePointRebuildsCount st' = basePointRebuildsCount st
        \<and> (if Suc (length (slidingWindow st)) = windowSize cfg
           then basePoint st' = calculateMedianPoint M now (slidingWindow st @ [point])
              \<and> basePoint st' \<noteq> None \<and> lastBasePointTime st' = now
           else basePoint st' = basePoint st \<and> basePointRadius st' = basePointRadius st
              \<and> lastBasePointTime st' = lastBasePointTime st)))
   \<and> (length T \<le> windowSize cfg \<longrightarrow>
      (\<exists>st'. processTrajectory M cfg clock T
                = Some (\<lparr>originalPoints = T, processedPoints = T, filteredPoints = T\<rparr>, st')
        \<and> slidingWindow st' = T \<and> validPoints st' = T
        \<and> discardedDriftPointsCount st' = 0
        \<and> (basePoint st' \<noteq> None \<longleftrightarrow> T \<noteq> [] \<and> length T = windowSize cfg)))
   \<and> (case processTrajectory M cfg clock U of
         None \<Rightarrow> windowSize cfg = 0
       | Some (r, st') \<Rightarrow> prefix (take (windowSize cfg) U) (processedPoints r))"
proof (intro conjI impI)
  assume "length (slidingWindow st) < windowSize cfg"
  from warmup_step[OF this, of M now point]
  show "\<exists>st'. processPoint M cfg now point st = Some (True, st')
        \<and> slidingWindow st' = slidingWindow st @ [point]
        \<and> validPoints st' = validPoints st @ [point]
        \<and> consecutiveDriftPoints st' = consecutiveDriftPoints st
        \<and> discardedDriftPointsCount st' = discardedDriftPointsCount st
        \<and> basePointRebuildsCount st' = basePointRebuildsCount st
        \<and> (if Suc (length (slidingWindow st)) = windowSize cfg
           then basePoint st' = calculateMedianPoint M now (slidingWindow st @ [point])
              \<and> basePoint st' \<noteq> None \<and> lastBasePointTime st' = now
           else basePoint st' = basePoint st \<and> basePointRadius st' = basePointRadius st
              \<and> lastBasePointTime st' = lastBasePointTime st)"
    by blast
next
  assume "length T \<le> windowSize cfg"
  then have "length (slidingWindow resetState) + length T \<le> windowSize cfg"
    by (simp add: resetState_def)
  from processLoop_warmup[OF this, of M clock 0 "[]"] obtain st' where
    "processLoop M cfg clock 0 T resetState [] = Some ([] @ T, st')"
    "slidingWindow st' = slidingWindow resetState @ T"
    "validPoints st' = validPoints resetState @ T"
    "discardedDriftPointsCount st' = discardedDriftPointsCount resetState"
    "basePoint st' \<noteq> None \<longleftrightarrow> basePoint resetState \<noteq> None
        \<or> (T \<noteq> [] \<and> length (slidingWindow resetState) + length T = windowSize cfg)"
    by blast
  then show "\<exists>st'. processTrajectory M cfg clock T
                = Some (\<lparr>originalPoints = T, processedPoints = T, filteredPoints = T\<rparr>, st')
        \<and> slidingWindow st' = T \<and> validPoints st' = T
        \<and> discardedDriftPointsCount st' = 0
        \<and> (basePoint st' \<noteq> None \<longleftrightarrow> T \<noteq> [] \<and> length T = windowSize cfg)"
    by (intro exI[of _ st']) (simp add: processTrajectory_def resetState_def)
next
  let ?W = "windowSize cfg"
  show "case processTrajectory M cfg clock U of
         None \<Rightarrow> windowSize cfg = 0
       | Some (r, st') \<Rightarrow> prefix (take (windowSize cfg) U) (processedPoints r)"
  proof (cases "processLoop M cfg clock 0 U resetState []")
    case None
    then show ?thesis using processLoop_Nil_only_throw[OF None]
      by (simp add: processTrajectory_def)
  next
    case (Some res)
    obtain acc st2 where res: "res = (acc, st2)" by (cases res)
    have "length (slidingWindow resetState) + length (take ?W U) \<le> ?W"
      by (simp add: resetState_def)
    from processLoop_warmup[OF this, of M clock 0 "[]"] obtain st1 where
      first: "processLoop M cfg clock 0 (take ?W U) resetState [] = Some ([] @ take ?W U, st1)"
      by blast
    have "processLoop M cfg clock 0 (take ?W U @ drop ?W U) resetState [] = Some (acc, st2)"
      using Some res by simp
    then have "processLoop M cfg clock (0 + length (take ?W U)) (drop ?W U) st1 (take ?W U)
                 = Some (acc, st2)"
      unfolding processLoop_append using first by simp
    from processLoop_output[OF this] obtain ys where "acc = take ?W U @ ys" by blast
    then show ?thesis using Some res by (simp add: processTrajectory_def)
  qed
qed

theorem warmup_accepts_witness:
  "length (slidingWindow (trackingState [])) < windowSize (smallConfig 3 10)
   \<and> (\<exists>st'. processPoint exact (smallConfig 3 10) 0 (fixAt 50) (trackingState []) = Some (True, st')
         \<and> slidingWindow st' = [fixAt 0, fixAt 1, fixAt 50]
         \<and> validPoints st' = [fixAt 0, fixAt 1, fixAt 50]
         \<and> basePoint st' = Some \<lparr>lat = 1, lng = 0, timestamp = 0\<rparr>)
   \<and> length [fixAt 0, fixAt 50] \<le> windowSize (smallConfig 3 10)
   \<and> (\<exists>st'. processTrajectory exact (smallConfig 3 10) (\<lambda>i. 0) [fixAt 0, fixAt 50]
                = Some (\<lparr>originalPoints = [fixAt 0, fixAt 50],
                         processedPoints = [fixAt 0, fixAt 50],
                         filteredPoints = [fixAt 0, fixAt 50]\<rparr>, st')
         \<and> slidingWindow st' = [fixAt 0, fixAt 50]
         \<and> basePoint st' = None)
   \<and> (\<exists>r st'. processTrajectory exact (smallConfig 2 10) (\<lambda>i. 0) [fixAt 0, fixAt 1, fixAt 2]
                = Some (r, st')
         \<and> prefix [fixAt 0, fixAt 1] (processedPoints r))"
proof -
  let ?cfg = "smallConfig 3 10"
  have h1: "length (slidingWindow (trackingState [])) < windowSize ?cfg"
    by (simp add: example_defs)
  have h2: "length [fixAt 0, fixAt 50] \<le> windowSize ?cfg" by (simp add: example_defs)
  note thm1 = warmup_accepts[of "trackingState []" ?cfg exact 0 "fixAt 50" "[fixAt 0, fixAt 50]" "\<lambda>i. 0" "[]"]
  note thm2 = warmup_accepts[of "trackingState []" "smallConfig 2 10" exact 0 "fixAt 50" "[]" "\<lambda>i. 0"
      "[fixAt 0, fixAt 1, fixAt 2]"]
  from thm1 h1 obtain st1 where s1: "processPoint exact ?cfg 0 (fixAt 50) (trackingState []) = Some (True, st1)"
    "slidingWindow st1 = slidingWindow (trackingState []) @ [fixAt 50]"
    "validPoints st1 = validPoints (trackingState []) @ [fixAt 50]"
    "if Suc (length (slidingWindow (trackingState []))) = windowSize ?cfg
           then basePoint st1 = calculateMedianPoint exact 0 (slidingWindow (trackingState []) @ [fixAt 50])
              \<and> basePoint st1 \<noteq> None \<and> lastBasePointTime st1 = 0
           else basePoint st1 = basePoint (trackingState [])
              \<and> basePointRadius st1 = basePointRadius (trackingState [])
              \<and> lastBasePointTime st1 = lastBasePointTime (trackingState [])"
    by blast
  have a: "\<exists>st'. processPoint exact ?cfg 0 (fixAt 50) (trackingState []) = Some (True, st')
         \<and> slidingWindow st' = [fixAt 0, fixAt 1, fixAt 50]
         \<and> validPoints st' = [fixAt 0, fixAt 1, fixAt 50]
         \<and> basePoint st' = Some \<lparr>lat = 1, lng = 0, timestamp = 0\<rparr>"
    using s1 by (intro exI[of _ st1]) (simp add: example_defs calculateMedianPoint_def)
  from thm1 h2 obtain st2 where s2: "processTrajectory exact ?cfg (\<lambda>i. 0) [fixAt 0, fixAt 50]
                = Some (\<lparr>originalPoints = [fixAt 0, fixAt 50],
                         processedPoints = [fixAt 0, fixAt 50],
                         filteredPoints = [fixAt 0, fixAt 50]\<rparr>, st2)"
    "slidingWindow st2 = [fixAt 0, fixAt 50]"
    "basePoint st2 \<noteq> None \<longleftrightarrow> [fixAt 0, fixAt 50] \<noteq> [] \<and> length [fixAt 0, fixAt 50] = windowSize ?cfg"
    by blast
  have b: "\<exists>st'. processTrajectory exact ?cfg (\<lambda>i. 0) [fixAt 0, fixAt 50]
                = Some (\<lparr>originalPoints = [fixAt 0, fixAt 50],
                         processedPoints = [fixAt 0, fixAt 50],
                         filteredPoints = [fixAt 0, fixAt 50]\<rparr>, st')
         \<and> slidingWindow st' = [fixAt 0, fixAt 50]
         \<and> basePoint st' = None"
    using s2 by (intro exI[of _ st2]) (simp add: example_defs)
  have run: "\<exists>r st'. processTrajectory exact (smallConfig 2 10) (\<lambda>i. 0) [fixAt 0, fixAt 1, fixAt 2] = Some (r, st')"
    by (simp add: processTrajectory_def processor_defs example_defs haversineDistance_meridian)
  then obtain r st3 where r: "processTrajectory exact (smallConfig 2 10) (\<lambda>i. 0) [fixAt 0, fixAt 1, fixAt 2] = Some (r, st3)"
    by blast
  with thm2 have "prefix (take (windowSize (smallConfig 2 10)) [fixAt 0, fixAt 1, fixAt 2]) (processedPoints r)"
    by simp
  then have c: "\<exists>r st'. processTrajectory exact (smallConfig 2 10) (\<lambda>i. 0) [fixAt 0, fixAt 1, fixAt 2]
                = Some (r, st') \<and> prefix [fixAt 0, fixAt 1] (processedPoints r)"
    using r by (intro exI[of _ r] exI[of _ st3]) (simp add: example_defs)
  show ?thesis using h1 a h2 b c by blast
qed

section \<open>The output lists of \<open>processTrajectory\<close>\<close>

text \<open>A run of \<open>GPSProcessor\<close> with \<open>windowSize = 2\<close> and \<open>maxDriftSequence = 3\<close> on five fixes
  of one meridian: the fixes at latitudes 10 and 20 are rejected, the one at latitude 30
  forces a rebuild (the three are in line, but further than five thresholds from the base
  point).\<close>

lemma rejecting_run:
  "processTrajectory exact (smallConfig 2 3) (\<lambda>i. 0) [fixAt 0, fixAt 1, fixAt 10, fixAt 20, fixAt 30]
     = Some (\<lparr>originalPoints = [fixAt 0, fixAt 1, fixAt 10, fixAt 20, fixAt 30],
              processedPoints = [fixAt 0, fixAt 1, fixAt 30],
              filteredPoints = [fixAt 0, fixAt 1, fixAt 30]\<rparr>,
             \<lparr>slidingWindow = [fixAt 10, fixAt 20, fixAt 30],
              validPoints = [fixAt 0, fixAt 1, fixAt 30],
              lastBasePointTime = 0, basePoint = Some \<lparr>lat = 20, lng = 0, timestamp = 0\<rparr>,
              basePointRadius = Some (3185500 * pi / 9), consecutiveDriftPoints = [],
              discardedDriftPointsCount = 2, basePointRebuildsCount = 1,
              basePointRebuildPositions = [fixAt 30]\<rparr>)"
  by (simp add: processTrajectory_def processor_defs example_defs haversineDistance_meridian)

text \<open>
  Claim C2, as stated, fails for \<open>GPSProcessor.processTrajectory\<close> (and \<open>GPSCore\<close>'s): the
  fields \<open>processedPoints\<close> and \<open>filteredPoints\<close> of its result are one list, the accepted
  fixes. In the run above the fix at latitude 10 is in neither field, so the union is not the
  input, and the intersection of the two fields is not empty.
\<close>

theorem processor_outputs_do_not_partition:
  "processTrajectory exact (smallConfig 2 3) (\<lambda>i. 0) [fixAt 0, fixAt 1, fixAt 10, fixAt 20, fixAt 30]
     = Some (\<lparr>originalPoints = [fixAt 0, fixAt 1, fixAt 10, fixAt 20, fixAt 30],
              processedPoints = [fixAt 0, fixAt 1, fixAt 30],
              filteredPoints = [fixAt 0, fixAt 1, fixAt 30]\<rparr>,
             \<lparr>slidingWindow = [fixAt 10, fixAt 20, fixAt 30],
              validPoints = [fixAt 0, fixAt 1, fixAt 30],
              lastBasePointTime = 0, basePoint = Some \<lparr>lat = 20, lng = 0, timestamp = 0\<rparr>,
              basePointRadius = Some (3185500 * pi / 9), consecutiveDriftPoints = [],
              discardedDriftPointsCount = 2, basePointRebuildsCount = 1,
              basePointRebuildPositions = [fixAt 30]\<rparr>)
   \<and> fixAt 10 \<notin> set [fixAt 0, fixAt 1, fixAt 30] \<union> set [fixAt 0, fixAt 1, fixAt 30]
   \<and> set [fixAt 0, fixAt 1, fixAt 30] \<inter> set [fixAt 0, fixAt 1, fixAt 30] \<noteq> {}"
  using rejecting_run by (simp add: fixAt_def)

text \<open>
  Claim C2, amended to \<open>GpsTrajectoryAnalyzer.processTrajectory\<close>. For every configuration,
  clock and input trajectory \<open>T\<close> the call returns, and there is a list of verdicts, one for
  each position of \<open>T\<close>, such that \<open>processedPoints\<close> holds the fixes at the positions with
  verdict \<open>true\<close> and \<open>filteredPoints\<close> those at the positions with verdict \<open>false\<close>, both in
  the order of \<open>T\<close>: every position of \<open>T\<close> is in exactly one of the two lists. As multisets
  and as sets the two lists add up to \<open>T\<close>, and when no fix occurs twice in \<open>T\<close> the two lists
  have no fix in common.
\<close>

theorem analyzer_outputs_partition:
  "\<exists>r st vs. processTrajectoryA M cfg clock T = Some (r, st)
     \<and> originalPointsA r = T
     \<and> length vs = length T
     \<and> processedPointsA r = map fst (filter snd (zip T vs))
     \<and> filteredPointsA r = map fst (filter (\<lambda>x. \<not> snd x) (zip T vs))
     \<and> mset (processedPointsA r) + mset (filteredPointsA r) = mset T
     \<and> set (processedPointsA r) \<union> set (filteredPointsA r) = set T
     \<and> (distinct T \<longrightarrow> set (processedPointsA r) \<inter> set (filteredPointsA r) = {})"
proof -
  have "length (slidingWindowA reset) \<le> windowSize cfg" by (simp add: reset_def)
  from processLoopA_result[OF analyzerInv_reset this, of M clock 0 T "[]" "[]"]
  obtain st vs where
    run: "processLoopA M cfg clock 0 T reset [] []
            = Some ([] @ map fst (filter snd (zip T vs)),
                    [] @ map fst (filter (\<lambda>x. \<not> snd x) (zip T vs)), st)"
    and len: "length vs = length T"
    by blast
  let ?r = "\<lparr>originalPointsA = T, processedPointsA = map fst (filter snd (zip T vs)),
             filteredPointsA = map fst (filter (\<lambda>x. \<not> snd x) (zip T vs))\<rparr>"
  have "processTrajectoryA M cfg clock T = Some (?r, st)"
    using run by (simp add: processTrajectoryA_def)
  then show ?thesis
    using len split_by_verdicts[OF len]
    by (intro exI[of _ ?r] exI[of _ st] exI[of _ vs]) simp
qed

theorem analyzer_outputs_partition_witness:
  "distinct [fixAt 0, fixAt 0.1, fixAt 0.2, fixAt 1]
   \<and> (\<exists>r st. processTrajectoryA exact DEFAULT_CONFIG (\<lambda>i. 0) [fixAt 0, fixAt 0.1, fixAt 0.2, fixAt 1]
                = Some (r, st)
        \<and> mset (processedPointsA r) + mset (filteredPointsA r)
            = mset [fixAt 0, fixAt 0.1, fixAt 0.2, fixAt 1]
        \<and> set (processedPointsA r) \<union> set (filteredPointsA r)
            = set [fixAt 0, fixAt 0.1, fixAt 0.2, fixAt 1]
        \<and> set (processedPointsA r) \<inter> set (filteredPointsA r) = {})"
proof -
  have d: "distinct [fixAt 0, fixAt 0.1, fixAt 0.2, fixAt 1]" by (simp add: fixAt_def)
  from analyzer_outputs_partition[of exact DEFAULT_CONFIG "\<lambda>i. 0" "[fixAt 0, fixAt 0.1, fixAt 0.2, fixAt 1]"] d
  show ?thesis by blast
qed

section \<open>The bound on the sliding window\<close>

text \<open>
  Claim C5, as stated, fails for \<open>GPSProcessor\<close>. A forced rebuild replaces the window by the
  drift buffer, which holds \<open>maxDriftSequence\<close> fixes: with \<open>windowSize = 2\<close> and
  \<open>maxDriftSequence = 3\<close> the run above ends with three fixes in the window. And with
  \<open>windowSize = 0\<close> the first call finds the base point expired (no base point was ever
  built) and restarts the window with the fix, so the window holds one fix.
\<close>

theorem window_exceeds_windowSize:
  "windowSize (smallConfig 2 3) = 2
   \<and> processTrajectory exact (smallConfig 2 3) (\<lambda>i. 0) [fixAt 0, fixAt 1, fixAt 10, fixAt 20, fixAt 30]
     = Some (\<lparr>originalPoints = [fixAt 0, fixAt 1, fixAt 10, fixAt 20, fixAt 30],
              processedPoints = [fixAt 0, fixAt 1, fixAt 30],
              filteredPoints = [fixAt 0, fixAt 1, fixAt 30]\<rparr>,
             \<lparr>slidingWindow = [fixAt 10, fixAt 20, fixAt 30],
              validPoints = [fixAt 0, fixAt 1, fixAt 30],
              lastBasePointTime = 0, basePoint = Some \<lparr>lat = 20, lng = 0, timestamp = 0\<rparr>,
              basePointRadius = Some (3185500 * pi / 9), consecutiveDriftPoints = [],
              discardedDriftPointsCount = 2, basePointRebuildsCount = 1,
              basePointRebuildPositions = [fixAt 30]\<rparr>)
   \<and> \<not> length [fixAt 10, fixAt 20, fixAt 30] \<le> windowSize (smallConfig 2 3)
   \<and> windowSize (smallConfig 0 10) = 0
   \<and> processPoint exact (smallConfig 0 10) 20000 (fixAt 0) resetState
     = Some (True,
             \<lparr>slidingWindow = [fixAt 0], validPoints = [fixAt 0], lastBasePointTime = 0,
              basePoint = None, basePointRadius = Some 0, consecutiveDriftPoints = [],
              discardedDriftPointsCount = 0, basePointRebuildsCount = 0,
              basePointRebuildPositions = []\<rparr>)
   \<and> \<not> length [fixAt 0] \<le> windowSize (smallConfig 0 10)"
proof -
  have "processPoint exact (smallConfig 0 10) 20000 (fixAt 0) resetState
     = Some (True,
             \<lparr>slidingWindow = [fixAt 0], validPoints = [fixAt 0], lastBasePointTime = 0,
              basePoint = None, basePointRadius = Some 0, consecutiveDriftPoints = [],
              discardedDriftPointsCount = 0, basePointRebuildsCount = 0,
              basePointRebuildPositions = []\<rparr>)"
    by (simp add: processPoint_def isBasePointExpired_def example_defs)
  then show ?thesis using rejecting_run by (simp add: smallConfig_def)
qed

text \<open>
  Claim C5, amended. In \<open>GpsTrajectoryAnalyzer\<close>, for every configuration and every input
  trajectory, the sliding window holds at most \<open>windowSize\<close> entries after \<open>processTrajectory\<close>
  (and so after each call of \<open>processPoint\<close>, a run on a prefix being a run). In
  \<open>GPSProcessor\<close> and \<open>GPSCore\<close> the same holds for every configuration with
  \<open>windowSize \<ge> 1\<close> and \<open>maxDriftSequence \<le> windowSize\<close>, where the drift buffer also stays
  within \<open>maxDriftSequence\<close>.
\<close>

theorem window_bound:
  "(\<exists>r st. processTrajectoryA M cfgA clockA T = Some (r, st)
        \<and> length (slidingWindowA st) \<le> windowSize cfgA)
   \<and> (0 < windowSize cfg \<and> maxDriftSequence cfg \<le> windowSize cfg \<longrightarrow>
        (\<exists>r st. processTrajectory M cfg clock U = Some (r, st)
           \<and> length (slidingWindow st) \<le> windowSize cfg
           \<and> length (consecutiveDriftPoints st) \<le> maxDriftSequence cfg))"
proof (intro conjI impI)
  have "length (slidingWindowA reset) \<le> windowSize cfgA" by (simp add: reset_def)
  from processLoopA_result[OF analyzerInv_reset this, of M clockA 0 T "[]" "[]"]
  obtain st vs where
    "processLoopA M cfgA clockA 0 T reset [] []
            = Some ([] @ map fst (filter snd (zip T vs)),
                    [] @ map fst (filter (\<lambda>x. \<not> snd x) (zip T vs)), st)"
    "length (slidingWindowA st) \<le> windowSize cfgA"
    by blast
  then show "\<exists>r st. processTrajectoryA M cfgA clockA T = Some (r, st)
        \<and> length (slidingWindowA st) \<le> windowSize cfgA"
    by (simp add: processTrajectoryA_def)
next
  assume a: "0 < windowSize cfg \<and> maxDriftSequence cfg \<le> windowSize cfg"
  then have W: "0 < windowSize cfg" and MW: "maxDriftSequence cfg \<le> windowSize cfg" by simp_all
  from processLoop_total[OF W, of M clock 0 U resetState "[]"] obtain acc st where
    run: "processLoop M cfg clock 0 U resetState [] = Some (acc, st)" by blast
  have "length (slidingWindow resetState) \<le> windowSize cfg"
       "length (consecutiveDriftPoints resetState) \<le> maxDriftSequence cfg"
    by (simp_all add: resetState_def)
  from processLoop_bounds[OF run W MW this]
  show "\<exists>r st. processTrajectory M cfg clock U = Some (r, st)
           \<and> length (slidingWindow st) \<le> windowSize cfg
           \<and> length (consecutiveDriftPoints st) \<le> maxDriftSequence cfg"
    using run by (simp add: processTrajectory_def)
qed

theorem window_bound_witness:
  "0 < windowSize (smallConfig 2 2) \<and> maxDriftSequence (smallConfig 2 2) \<le> windowSize (smallConfig 2 2)
   \<and> (\<exists>r st. processTrajectory exact (smallConfig 2 2) (\<lambda>i. 0) [fixAt 0, fixAt 1, fixAt 10, fixAt 20, fixAt 30]
                = Some (r, st)
        \<and> length (slidingWindow st) \<le> 2 \<and> length (consecutiveDriftPoints st) \<le> 2)
   \<and> (\<exists>r st. processTrajectoryA exact DEFAULT_CONFIG (\<lambda>i. 0) [fixAt 0, fixAt 0, fixAt 0, fixAt 1]
                = Some (r, st)
        \<and> length (slidingWindowA st) \<le> 10)"
proof -
  have h: "0 < windowSize (smallConfig 2 2) \<and> maxDriftSequence (smallConfig 2 2) \<le> windowSize (smallConfig 2 2)"
    by (simp add: smallConfig_def)
  from window_bound[of exact DEFAULT_CONFIG "\<lambda>i. 0" "[fixAt 0, fixAt 0, fixAt 0, fixAt 1]"
      "smallConfig 2 2" "\<lambda>i. 0" "[fixAt 0, fixAt 1, fixAt 10, fixAt 20, fixAt 30]"] h
  show ?thesis by (simp add: smallConfig_def DEFAULT_CONFIG_def)
qed

section \<open>The result of \<open>GPSProcessor.processTrajectory\<close>\<close>




section \<open>The radius floor of \<open>GpsTrajectoryAnalyzer\<close>\<close>

lemma updateBasePointA_radius:
  assumes "updateBasePointA M cfg now st = Some st'" "basePointA st' = Some b"
  shows "\<forall>r. radius b = Some r \<longrightarrow> 50 \<le> r"
  using assms
  apply (auto simp: updateBasePointA_def Let_def split: option.splits if_splits)
   apply (erule Math_max_floor)+
  done

lemma rebuildBasePoint_radius:
  assumes "rebuildBasePoint M cfg now st = Some st'" "validPointsA st \<noteq> []"
    "basePointA st' = Some b"
  shows "\<forall>r. radius b = Some r \<longrightarrow> 50 \<le> r"
proof -
  have "sliceLast (windowSize cfg) (validPointsA st) \<noteq> []"
    using assms(2) by (rule sliceLast_nonempty)
  with assms(1,3) show ?thesis
    apply (auto simp: rebuildBasePoint_def Let_def split: option.splits if_splits)
    apply (erule Math_max_floor)
    done
qed

text \<open>\<open>Math.max(radius, 50)\<close> is \<open>NaN\<close> exactly when the radius is, and at least 50 otherwise.\<close>

lemma Math_max_nan: "(Math_max x (Some c) = None) = (x = None)"
  by (simp add: Math_max_def split: option.splits)

text \<open>For every machine: a base point that the analyzer writes has the radius
  \<open>Math.max(radius, 50)\<close>, which is a number of at least 50 or \<open>NaN\<close>; and after any run a base
  point that exists has a radius that is \<open>NaN\<close> or at least 50.\<close>

lemma analyzer_radius_nan_or_floor:
  "(updateBasePointA M cfg now st0 = Some st1 \<and> basePointA st1 = Some b1 \<longrightarrow>
      (\<forall>r. radius b1 = Some r \<longrightarrow> 50 \<le> r))
   \<and> (rebuildBasePoint M cfg now st0 = Some st1 \<and> validPointsA st0 \<noteq> [] \<and> basePointA st1 = Some b1
        \<longrightarrow> (\<forall>r. radius b1 = Some r \<longrightarrow> 50 \<le> r))
   \<and> (\<exists>r st. processTrajectoryA M cfg clock T = Some (r, st)
        \<and> (\<forall>b x. basePointA st = Some b \<and> radius b = Some x \<longrightarrow> 50 \<le> x))"
proof (intro conjI impI)
  assume "updateBasePointA M cfg now st0 = Some st1 \<and> basePointA st1 = Some b1"
  then show "\<forall>r. radius b1 = Some r \<longrightarrow> 50 \<le> r"
    using updateBasePointA_radius by blast
next
  assume "rebuildBasePoint M cfg now st0 = Some st1 \<and> validPointsA st0 \<noteq> [] \<and> basePointA st1 = Some b1"
  then show "\<forall>r. radius b1 = Some r \<longrightarrow> 50 \<le> r"
    using rebuildBasePoint_radius by blast
next
  have "length (slidingWindowA reset) \<le> windowSize cfg" by (simp add: reset_def)
  from processLoopA_result[OF analyzerInv_reset this, of M clock 0 T "[]" "[]"]
  obtain st vs where
    run: "processLoopA M cfg clock 0 T reset [] []
            = Some ([] @ map fst (filter snd (zip T vs)),
                    [] @ map fst (filter (\<lambda>x. \<not> snd x) (zip T vs)), st)"
    and inv: "analyzerInv st"
    by blast
  have "\<forall>b x. basePointA st = Some b \<and> radius b = Some x \<longrightarrow> 50 \<le> x"
    using inv by (auto simp: analyzerInv_def)
  then show "\<exists>r st. processTrajectoryA M cfg clock T = Some (r, st)
        \<and> (\<forall>b x. basePointA st = Some b \<and> radius b = Some x \<longrightarrow> 50 \<le> x)"
    using run by (simp add: processTrajectoryA_def)
qed

text \<open>The machine \<open>coarse\<close> computes the distance of two points whose longitudes differ by
  a full turn as \<open>exact\<close> does, the cosines being multiplied by 0. For two points near the
  equator whose longitudes differ by half a turn and whose latitudes differ, its haversine
  term is above 1 and the distance is \<open>NaN\<close>.\<close>

lemma coarse_simps:
  "rnd coarse x = x" "Math_PI coarse = pi" "Math_sin coarse = sin"
  "Math_sqrt coarse = sqrt" "Math_atan2 coarse = atan2" "Math_acos coarse = arccos"
  "Array_sort coarse ds = ds"
  "Math_cos coarse x = (if \<bar>x\<bar> < 1 / 1000 then 1 else cos x)"
  by (simp_all add: coarse_def exact_def)

lemma coarse_arith:
  "fadd coarse x y = x + y" "fsub coarse x y = x - y" "fmul coarse x y = x * y"
  "fdiv coarse x y = x / y"
  by (simp_all add: fadd_def fsub_def fmul_def fdiv_def coarse_simps)

lemma haversineTerm_coarse:
  "haversineTerm coarse p q =
     sin (((lat q - lat p) * pi) / 180 / 2) * sin (((lat q - lat p) * pi) / 180 / 2) +
     Math_cos coarse ((lat p * pi) / 180) * Math_cos coarse ((lat q * pi) / 180) *
     sin (((lng q - lng p) * pi) / 180 / 2) * sin (((lng q - lng p) * pi) / 180 / 2)"
  by (simp add: haversineTerm_def Let_def coarse_arith coarse_simps(1-7))

lemma haversine_coarse_full_turn:
  assumes "sin (((lng q - lng p) * pi) / 180 / 2) = 0" "\<bar>lat q - lat p\<bar> \<le> 180"
  shows "haversine coarse R p q = Some (R * (\<bar>lat q - lat p\<bar> * pi / 180))"
proof -
  have t: "haversineTerm coarse p q = haversineTerm exact p q"
    unfolding haversineTerm_coarse haversineTerm_exact using assms(1) by simp
  have "haversine coarse R p q = haversine exact R p q"
    unfolding haversine_def t
    by (simp add: Let_def coarse_arith coarse_simps(1-7) exact_arith exact_simps)
  then show ?thesis using haversine_full_turn[OF assms] by simp
qed

lemma haversine_coarse_antipodes:
  assumes "\<bar>lng q - lng p\<bar> = 180" "\<bar>lat p\<bar> < 1 / 25" "\<bar>lat q\<bar> < 1 / 25" "lat q \<noteq> lat p"
  shows "haversine coarse R p q = None"
proof -
  let ?s = "sin (((lat q - lat p) * pi) / 180 / 2)"
  let ?t = "sin (((lng q - lng p) * pi) / 180 / 2)"
  have "lng q - lng p = 180 \<or> lng q - lng p = - 180" using assms(1) by linarith
  then have tt: "?t * ?t = 1" by auto
  have small: "\<bar>(x * pi) / 180\<bar> < 1 / 1000" if "\<bar>x\<bar> < 1 / 25" for x :: real
  proof -
    have "\<bar>x\<bar> * pi \<le> \<bar>x\<bar> * 4" using pi_less_4 by (intro mult_left_mono) auto
    then have "\<bar>x\<bar> * pi < 4 / 25" using that by linarith
    then have "\<bar>x\<bar> * pi / 180 < 1 / 1000" by linarith
    then show ?thesis by (simp add: abs_mult)
  qed
  have "haversineTerm coarse p q = ?s * ?s + 1 * 1 * ?t * ?t"
    unfolding haversineTerm_coarse using small[OF assms(2)] small[OF assms(3)]
    by (simp add: coarse_simps)
  then have t: "haversineTerm coarse p q = ?s * ?s + 1" using tt by simp
  define y where "y = \<bar>lat q - lat p\<bar> * pi / 360"
  have "0 < \<bar>lat q - lat p\<bar>" using assms(4) by simp
  then have y0: "0 < y" by (simp add: y_def)
  have "\<bar>lat q - lat p\<bar> < 2 / 25" using assms(2,3) by linarith
  then have "\<bar>lat q - lat p\<bar> * pi < 360 * pi" by (intro mult_strict_right_mono) auto
  then have y1: "y < pi" by (simp add: y_def)
  have sy: "0 < sin y" using y0 y1 by (rule sin_gt_zero)
  have "\<bar>((lat q - lat p) * pi) / 180 / 2\<bar> = y" by (simp add: y_def abs_mult)
  then have "?s * ?s = (sin y)\<^sup>2" by (rule sin_abs_square)
  then have "0 < ?s * ?s" using sy by simp
  then have "1 < haversineTerm coarse p q" using t by simp
  then show "haversine coarse R p q = None"
    by (simp add: haversine_def coarse_arith)
qed

text \<open>
  Claim C10 at a failing input. The three places that write a base point do store
  \<open>Math.max(radius, 50)\<close>, which is at least 50 when the median radius is a number (the lemma
  above, for every machine); but it is \<open>NaN\<close> when the median radius is \<open>NaN\<close>, and then the
  base point has no radius of at least 50 meters. With \<open>windowSize = 2\<close> the fixes
  (-0.05, -180), (0.05, -180), (0.0074, -180) and (-0.0222, 180) are all accepted, and the
  fourth moves the base point to the centroid (-0.0074, 0) of the last two, which is the
  antipode of the third fix. Without rounding the haversine term of these two is exactly 1,
  the edge of the domain of \<open>Math.sqrt(1 - a)\<close>. The doubles round the term to
  1.0000000000000002, so that the distance, the median radius and \<open>Math.max(radius, 50)\<close> are
  \<open>NaN\<close>. On the machine \<open>coarse\<close> the term is above 1 as well, and the run ends with a base
  point whose radius is \<open>NaN\<close>.
\<close>

theorem radius_nan_escapes_floor:
  "haversineTerm exact
      \<lparr>lat = 37 / 5000, lng = - 180, timestamp = 0, index = Some (2::nat)\<rparr>
      \<lparr>lat = - 37 / 5000, lng = 0, timestamp = 0, index = (None::nat option)\<rparr> = 1
   \<and> calculateDistance coarse (DEFAULT_CONFIG\<lparr>windowSize := 2\<rparr>)
        \<lparr>lat = 37 / 5000, lng = - 180, timestamp = 0, index = Some 2\<rparr>
        \<lparr>lat = - 37 / 5000, lng = 0, timestamp = 0, index = None\<rparr> = None
   \<and> Math_max None (Some 50) = None
   \<and> processTrajectoryA coarse (DEFAULT_CONFIG\<lparr>windowSize := 2\<rparr>) (\<lambda>i. 0)
        [\<lparr>lat = - 1 / 20, lng = - 180, timestamp = 0\<rparr>,
         \<lparr>lat = 1 / 20, lng = - 180, timestamp = 0\<rparr>,
         \<lparr>lat = 37 / 5000, lng = - 180, timestamp = 0\<rparr>,
         \<lparr>lat = - 111 / 5000, lng = 180, timestamp = 0\<rparr>]
     = Some (\<lparr>originalPointsA =
                [\<lparr>lat = - 1 / 20, lng = - 180, timestamp = 0\<rparr>,
                 \<lparr>lat = 1 / 20, lng = - 180, timestamp = 0\<rparr>,
                 \<lparr>lat = 37 / 5000, lng = - 180, timestamp = 0\<rparr>,
                 \<lparr>lat = - 111 / 5000, lng = 180, timestamp = 0\<rparr>],
              processedPointsA =
                [\<lparr>lat = - 1 / 20, lng = - 180, timestamp = 0\<rparr>,
                 \<lparr>lat = 1 / 20, lng = - 180, timestamp = 0\<rparr>,
                 \<lparr>lat = 37 / 5000, lng = - 180, timestamp = 0\<rparr>,
                 \<lparr>lat = - 111 / 5000, lng = 180, timestamp = 0\<rparr>],
              filteredPointsA = []\<rparr>,
             \<lparr>slidingWindowA =
                [\<lparr>wpoint = \<lparr>lat = 37 / 5000, lng = - 180, timestamp = 0, index = Some 2\<rparr>,
                  isValid = True, isDrift = False\<rparr>,
                 \<lparr>wpoint = \<lparr>lat = - 111 / 5000, lng = 180, timestamp = 0, index = Some 3\<rparr>,
                  isValid = True, isDrift = False\<rparr>],
              validPointsA =
                [\<lparr>lat = - 1 / 20, lng = - 180, timestamp = 0, index = Some 0\<rparr>,
                 \<lparr>lat = 1 / 20, lng = - 180, timestamp = 0, index = Some 1\<rparr>,
                 \<lparr>lat = 37 / 5000, lng = - 180, timestamp = 0, index = Some 2\<rparr>,
                 \<lparr>lat = - 111 / 5000, lng = 180, timestamp = 0, index = Some 3\<rparr>],
              basePointA =
                Some \<lparr>bpoint = \<lparr>lat = - 37 / 5000, lng = 0, timestamp = 0, index = None\<rparr>,
                      radius = None, createdAt = 0, validPointsCount = 2\<rparr>,
              consecutiveDriftCount = 0, processedCount = 4, filteredCount = 0,
              driftCount = 0, basePointRebuilds = 0, isInitialized = True\<rparr>)"
proof -
  have t: "haversineTerm exact
      \<lparr>lat = 37 / 5000, lng = - 180, timestamp = 0, index = Some (2::nat)\<rparr>
      \<lparr>lat = - 37 / 5000, lng = 0, timestamp = 0, index = (None::nat option)\<rparr> = 1"
    using sin_cos_squared_add[of "37 * pi / 900000"]
    by (simp add: haversineTerm_exact power2_eq_square)
  have b: "max (4542523 * pi / 2700) 50 = 4542523 * pi / 2700"
    using pi_ge_two by (simp add: max_def)
  show ?thesis
    unfolding t
    by (simp add: processTrajectoryA_def analyzer_defs DEFAULT_CONFIG_def reset_def
        coarse_simps coarse_arith haversine_coarse_full_turn haversine_coarse_antipodes b)
qed

section \<open>The minimum triangle angle\<close>

text \<open>The analyzer's function returns 0 there, and without rounding the smallest of the
  three angles of the law of cosines elsewhere.\<close>

lemma calculateMinAngleInTriangleA_zero_side:
  "calculateDistance M cfg p2 p3 = Some 0 \<or> calculateDistance M cfg p1 p3 = Some 0
     \<or> calculateDistance M cfg p1 p2 = Some 0
   \<Longrightarrow> calculateMinAngleInTriangleA M cfg p1 p2 p3 = Some 0"
  by (simp add: calculateMinAngleInTriangleA_def Let_def)

lemma acosQuot_Some:
  "d \<noteq> 0 \<Longrightarrow> - 1 \<le> n / d \<Longrightarrow> n / d \<le> 1 \<Longrightarrow> acosQuot exact n d = Some (arccos (n / d))"
  by (simp add: acosQuot_def exact_arith exact_simps)

lemma minAngleOfSides_law_of_cosines:
  assumes "a \<noteq> 0" "b \<noteq> 0" "c \<noteq> 0"
      and A: "- 1 \<le> (b * b + c * c - a * a) / (2 * b * c)" "(b * b + c * c - a * a) / (2 * b * c) \<le> 1"
      and B: "- 1 \<le> (a * a + c * c - b * b) / (2 * a * c)" "(a * a + c * c - b * b) / (2 * a * c) \<le> 1"
      and C: "- 1 \<le> (a * a + b * b - c * c) / (2 * a * b)" "(a * a + b * b - c * c) / (2 * a * b) \<le> 1"
  shows "minAngleOfSides exact a b c =
     Some (Min {arccos ((b * b + c * c - a * a) / (2 * b * c)) * 180 / pi,
                arccos ((a * a + c * c - b * b) / (2 * a * c)) * 180 / pi,
                arccos ((a * a + b * b - c * c) / (2 * a * b)) * 180 / pi})"
proof -
  have dA: "2 * b * c \<noteq> 0" and dB: "2 * a * c \<noteq> 0" and dC: "2 * a * b \<noteq> 0"
    using assms(1-3) by simp_all
  show ?thesis
    unfolding minAngleOfSides_def exact_arith
      acosQuot_Some[OF dA A] acosQuot_Some[OF dB B] acosQuot_Some[OF dC C]
    by (simp add: exact_simps)
qed

text \<open>
  Claim C6 at a failing input. The claim holds of the analyzer's function, which tests for a
  side of length zero and returns 0. \<open>GPSProcessor.calculateMinAngleInTriangle\<close> and
  \<open>GPSCore.calculateMinAngleInTriangle\<close> have no such test: for the fix at latitude 0 and
  twice the fix at latitude 1 the side between the coincident fixes has length 0, two of the
  three quotients of the law of cosines are \<open>0 / 0\<close>, and the result is \<open>NaN\<close>, not 0.
\<close>

theorem min_angle_nan_on_coincident_points:
  "haversineDistance exact (fixAt 1) (fixAt 1) = Some 0
   \<and> calculateMinAngleInTriangle exact (fixAt 0) (fixAt 1) (fixAt 1) = None
   \<and> calculateMinAngleInTriangle exact (fixAt 0) (fixAt 1) (fixAt 1) \<noteq> Some 0
   \<and> calculateMinAngleInTriangleA exact DEFAULT_CONFIG
        \<lparr>lat = 0, lng = 0, timestamp = 0, index = None\<rparr>
        \<lparr>lat = 1, lng = 0, timestamp = 0, index = None\<rparr>
        \<lparr>lat = 1, lng = 0, timestamp = 0, index = None\<rparr> = Some 0"
proof -
  have z: "haversineDistance exact (fixAt 1) (fixAt 1) = Some 0"
    by (simp add: haversineDistance_def haversine_same_place)
  have n: "calculateMinAngleInTriangle exact (fixAt 0) (fixAt 1) (fixAt 1) = None"
    by (rule calculateMinAngleInTriangle_coincident) simp_all
  have a: "calculateMinAngleInTriangleA exact DEFAULT_CONFIG
        \<lparr>lat = 0, lng = 0, timestamp = 0, index = None\<rparr>
        \<lparr>lat = 1, lng = 0, timestamp = 0, index = None\<rparr>
        \<lparr>lat = 1, lng = 0, timestamp = 0, index = None\<rparr> = Some 0"
    by (rule calculateMinAngleInTriangleA_zero_side)
       (simp add: calculateDistance_def haversine_same_place)
  from z n a show ?thesis by simp
qed

section \<open>The simulator without anomalies\<close>

lemma makeConfigs_zero: "makeConfigs ty k n options 0 g = Some ([], g)"
  by simp

lemma generateDriftConfigsWith_no_anomalies:
  assumes "staticDriftCountR options = 0" "movingDriftCountR options = 0"
    "tunnelCountR options = 0" "speedScenarioCountR options = 0"
  shows "generateDriftConfigsWith k1 k2 k3 k4 n options g = Some ([], g)"
  using assms by (simp add: generateDriftConfigsWith_def adjustAll_def)

lemma mergeOptions_noAnomalies:
  "staticDriftCountR (mergeOptions d noAnomalies) = 0"
  "movingDriftCountR (mergeOptions d noAnomalies) = 0"
  "tunnelCountR (mergeOptions d noAnomalies) = 0"
  "speedScenarioCountR (mergeOptions d noAnomalies) = 0"
  by (simp_all add: mergeOptions_def noAnomalies_def)

lemma mapSet_keyed:
  assumes "\<forall>q \<in> set ys. f q = f p \<longrightarrow> q = p"
  shows "mapSet (map (\<lambda>q. (f q, q)) ys) (f p) p = map (\<lambda>q. (f q, q)) (addNew p ys)"
  using assms
proof (induction ys)
  case Nil
  then show ?case by (simp add: addNew_def)
next
  case (Cons y ys)
  then show ?case by (auto simp: addNew_def)
qed

lemma set_fold_addNew: "set (fold addNew xs ys) = set ys \<union> set xs"
  by (induction xs arbitrary: ys) (auto simp: addNew_def)

lemma distinct_fold_addNew: "distinct ys \<Longrightarrow> distinct (fold addNew xs ys)"
  by (induction xs arbitrary: ys) (auto simp: addNew_def)

lemma sorted_wrt_fold_addNew:
  "sorted_wrt P (ys @ xs) \<Longrightarrow> sorted_wrt P (fold addNew xs ys)"
proof (induction xs arbitrary: ys)
  case Nil
  then show ?case by simp
next
  case (Cons x xs)
  show ?case
  proof (cases "x \<in> set ys")
    case True
    from Cons.prems have "sorted_wrt P (ys @ xs)" by (simp add: sorted_wrt_append)
    from Cons.IH[OF this] True show ?thesis by (simp add: addNew_def)
  next
    case False
    from Cons.prems have "sorted_wrt P ((ys @ [x]) @ xs)" by simp
    from Cons.IH[OF this] False show ?thesis by (simp add: addNew_def)
  qed
qed

lemma fold_mapSet_keyed:
  assumes "\<forall>p \<in> set xs \<union> set ys. \<forall>q \<in> set xs \<union> set ys. f q = f p \<longrightarrow> q = p"
  shows "fold (\<lambda>p m. mapSet m (f p) p) xs (map (\<lambda>q. (f q, q)) ys)
           = map (\<lambda>q. (f q, q)) (fold addNew xs ys)"
  using assms
proof (induction xs arbitrary: ys)
  case Nil
  then show ?case by simp
next
  case (Cons x xs)
  have "\<forall>q \<in> set ys. f q = f x \<longrightarrow> q = x" using Cons.prems by auto
  then have step: "mapSet (map (\<lambda>q. (f q, q)) ys) (f x) x = map (\<lambda>q. (f q, q)) (addNew x ys)"
    by (rule mapSet_keyed)
  have "set (addNew x ys) \<subseteq> set (x # xs) \<union> set ys" by (auto simp: addNew_def)
  then have "\<forall>p \<in> set xs \<union> set (addNew x ys). \<forall>q \<in> set xs \<union> set (addNew x ys).
      f q = f p \<longrightarrow> q = p"
    using Cons.prems by (auto simp: addNew_def split: if_splits)
  from Cons.IH[OF this] step show ?case by simp
qed

lemma pointKey_determines:
  "\<not> isDeleted p \<Longrightarrow> \<not> isDeleted q \<Longrightarrow> pointKey q = pointKey p \<Longrightarrow> q = p"
  by (cases p; cases q) (simp add: pointKey_def)

lemma uniquePoints_first_occurrences:
  assumes "\<forall>p \<in> set xs. \<not> isDeleted p"
  shows "uniquePoints xs = fold addNew xs []"
proof -
  have "\<forall>p \<in> set xs \<union> set []. \<forall>q \<in> set xs \<union> set []. pointKey q = pointKey p \<longrightarrow> q = p"
    using assms pointKey_determines by auto
  from fold_mapSet_keyed[OF this]
  have "fold (\<lambda>p m. mapSet m (pointKey p) p) xs [] = map (\<lambda>q. (pointKey q, q)) (fold addNew xs [])"
    by simp
  then show ?thesis by (simp add: uniquePoints_def comp_def)
qed

lemma clear_tags:
  "\<forall>p \<in> set B. \<not> isDeleted p \<Longrightarrow>
   map (\<lambda>p. p\<lparr>isDeleted := False\<rparr>) (filter (\<lambda>p. \<not> isDeleted p) B) = B"
  by (induction B) auto

text \<open>
  Claim C7, as stated, fails for a baseline with a point that carries the tag \<open>isDeleted\<close>
  (\<open>GPSPoint\<close> declares the property, and the tunnel effect of an earlier run sets it on the
  caller's points). The generator that removes duplicates drops every tagged point before it
  sorts, also when the four counts are 0: of the two points below only the second is
  returned. The first generator of the file keeps both.
\<close>

theorem tagged_point_is_removed:
  "generateSimulatedData (\<lambda>pts config ms g. ([], ms, g)) (\<lambda>i. 1 / 2, 0)
        [\<lparr>lat = 0, lng = 0, timestamp = 10, isDeleted = True\<rparr>,
         \<lparr>lat = 1, lng = 2, timestamp = 20, isDeleted = False\<rparr>] noAnomalies
     = Some ([\<lparr>lat = 1, lng = 2, timestamp = 20, isDeleted = False\<rparr>], [])
   \<and> pointKey \<lparr>lat = 0, lng = 0, timestamp = 10, isDeleted = True\<rparr>
       \<notin> set (map pointKey [\<lparr>lat = 1, lng = 2, timestamp = 20, isDeleted = False\<rparr>])
   \<and> generateSimulatedData1 (\<lambda>pts config ms g. ([], ms, g)) (\<lambda>i. 1 / 2, 0)
        [\<lparr>lat = 0, lng = 0, timestamp = 10, isDeleted = True\<rparr>,
         \<lparr>lat = 1, lng = 2, timestamp = 20, isDeleted = False\<rparr>] noAnomalies
     = Some ([\<lparr>lat = 0, lng = 0, timestamp = 10, isDeleted = True\<rparr>,
              \<lparr>lat = 1, lng = 2, timestamp = 20, isDeleted = False\<rparr>], [])"
  by (simp add: generateSimulatedData_def generateSimulatedData1_def generateDriftConfigs_def
      generateDriftConfigs1_def generateDriftConfigsWith_no_anomalies mergeOptions_noAnomalies
      uniquePoints_def pointKey_def)

text \<open>
  Claim C7, amended. Let \<open>B\<close> be a baseline none of whose points carries the tag \<open>isDeleted\<close>.
  With the four counts set to 0, whatever the random source and whatever \<open>applyDriftEffect\<close>
  does, \<open>generateSimulatedData\<close> returns no marker and the points of \<open>B\<close> sorted by timestamp
  (a stable sort) with every point after its first occurrence removed: the result has
  exactly the points of \<open>B\<close>, each once, in timestamp order. The first generator of the file
  returns \<open>B\<close> sorted by timestamp, duplicates included.
\<close>

theorem no_anomalies_round_trip:
  assumes "\<forall>p \<in> set B. \<not> isDeleted p"
  shows "generateSimulatedData applyDriftEffect g B noAnomalies
           = Some (uniquePoints (sort_key timestamp B), [])
       \<and> uniquePoints (sort_key timestamp B) = fold addNew (sort_key timestamp B) []
       \<and> set (uniquePoints (sort_key timestamp B)) = set B
       \<and> distinct (uniquePoints (sort_key timestamp B))
       \<and> sorted (map timestamp (uniquePoints (sort_key timestamp B)))
       \<and> generateSimulatedData1 applyDriftEffect g B noAnomalies
           = Some (sort_key timestamp B, [])
       \<and> mset (sort_key timestamp B) = mset B
       \<and> sorted (map timestamp (sort_key timestamp B))"
proof -
  let ?S = "sort_key timestamp B"
  have nd: "\<forall>p \<in> set ?S. \<not> isDeleted p" using assms by simp
  have u: "uniquePoints ?S = fold addNew ?S []" using nd by (rule uniquePoints_first_occurrences)
  have cfgs: "generateDriftConfigs (length B) (mergeOptions DEFAULT_SIMULATION_OPTIONS noAnomalies) g
                = Some ([], g)"
    unfolding generateDriftConfigs_def
    by (rule generateDriftConfigsWith_no_anomalies) (rule mergeOptions_noAnomalies)+
  have cfgs1: "generateDriftConfigs1 (length B) (mergeOptions DEFAULT_SIMULATION_OPTIONS1 noAnomalies) g
                = Some ([], g)"
    unfolding generateDriftConfigs1_def
    by (rule generateDriftConfigsWith_no_anomalies) (rule mergeOptions_noAnomalies)+
  have g2: "generateSimulatedData applyDriftEffect g B noAnomalies = Some (uniquePoints ?S, [])"
  proof (cases "B = []")
    case True
    then show ?thesis by (simp add: generateSimulatedData_def uniquePoints_def)
  next
    case False
    then show ?thesis
      using cfgs clear_tags[OF assms] by (simp add: generateSimulatedData_def Let_def)
  qed
  have g1: "generateSimulatedData1 applyDriftEffect g B noAnomalies = Some (?S, [])"
  proof (cases "B = []")
    case True
    then show ?thesis by (simp add: generateSimulatedData1_def)
  next
    case False
    then show ?thesis using cfgs1 by (simp add: generateSimulatedData1_def Let_def)
  qed
  have s: "set (uniquePoints ?S) = set B" unfolding u by (simp add: set_fold_addNew)
  have d: "distinct (uniquePoints ?S)" unfolding u by (simp add: distinct_fold_addNew)
  have "sorted (map timestamp ?S)" by (rule sorted_sort_key)
  then have sw: "sorted_wrt (\<lambda>a b. timestamp a \<le> timestamp b) ([] @ ?S)" by (simp add: sorted_map)
  have o: "sorted (map timestamp (uniquePoints ?S))"
    unfolding u sorted_map by (rule sorted_wrt_fold_addNew[OF sw])
  show ?thesis using g2 u s d o g1 by (simp add: sorted_sort_key)
qed

theorem no_anomalies_round_trip_witness:
  "\<not> isDeleted \<lparr>lat = 1, lng = 2, timestamp = 20, isDeleted = False\<rparr>
   \<and> \<not> isDeleted \<lparr>lat = 0, lng = 0, timestamp = 10, isDeleted = False\<rparr>
   \<and> generateSimulatedData (\<lambda>pts config ms g. ([], ms, g)) (\<lambda>i. 1 / 2, 0)
        [\<lparr>lat = 1, lng = 2, timestamp = 20, isDeleted = False\<rparr>,
         \<lparr>lat = 0, lng = 0, timestamp = 10, isDeleted = False\<rparr>,
         \<lparr>lat = 1, lng = 2, timestamp = 20, isDeleted = False\<rparr>] noAnomalies
     = Some ([\<lparr>lat = 0, lng = 0, timestamp = 10, isDeleted = False\<rparr>,
              \<lparr>lat = 1, lng = 2, timestamp = 20, isDeleted = False\<rparr>], [])
   \<and> generateSimulatedData1 (\<lambda>pts config ms g. ([], ms, g)) (\<lambda>i. 1 / 2, 0)
        [\<lparr>lat = 1, lng = 2, timestamp = 20, isDeleted = False\<rparr>,
         \<lparr>lat = 0, lng = 0, timestamp = 10, isDeleted = False\<rparr>,
         \<lparr>lat = 1, lng = 2, timestamp = 20, isDeleted = False\<rparr>] noAnomalies
     = Some ([\<lparr>lat = 0, lng = 0, timestamp = 10, isDeleted = False\<rparr>,
              \<lparr>lat = 1, lng = 2, timestamp = 20, isDeleted = False\<rparr>,
              \<lparr>lat = 1, lng = 2, timestamp = 20, isDeleted = False\<rparr>], [])"
proof -
  let ?B = "[\<lparr>lat = 1, lng = 2, timestamp = 20, isDeleted = False\<rparr>,
             \<lparr>lat = 0, lng = 0, timestamp = 10, isDeleted = False\<rparr>,
             \<lparr>lat = 1, lng = 2, timestamp = 20, isDeleted = False\<rparr>] :: SimPoint list"
  have h: "\<forall>p \<in> set ?B. \<not> isDeleted p" by simp
  have u: "uniquePoints (sort_key timestamp ?B)
             = [\<lparr>lat = 0, lng = 0, timestamp = 10, isDeleted = False\<rparr>,
                \<lparr>lat = 1, lng = 2, timestamp = 20, isDeleted = False\<rparr>]"
    by (simp add: uniquePoints_def pointKey_def)
  have s: "sort_key timestamp ?B
             = [\<lparr>lat = 0, lng = 0, timestamp = 10, isDeleted = False\<rparr>,
                \<lparr>lat = 1, lng = 2, timestamp = 20, isDeleted = False\<rparr>,
                \<lparr>lat = 1, lng = 2, timestamp = 20, isDeleted = False\<rparr>]"
    by simp
  from no_anomalies_round_trip[OF h, of "\<lambda>pts config ms g. ([], ms, g)" "(\<lambda>i. 1 / 2, 0)"]
  have "generateSimulatedData (\<lambda>pts config ms g. ([], ms, g)) (\<lambda>i. 1 / 2, 0) ?B noAnomalies
           = Some (uniquePoints (sort_key timestamp ?B), [])"
    and "generateSimulatedData1 (\<lambda>pts config ms g. ([], ms, g)) (\<lambda>i. 1 / 2, 0) ?B noAnomalies
           = Some (sort_key timestamp ?B, [])"
    by blast+
  then show ?thesis using u s by simp
qed

section \<open>Timestamps\<close>

text \<open>
  Claim C8, as stated, fails. A numeric value that is not above 946 684 800 is not returned as
  milliseconds: the token goes to the \<open>Date\<close> constructor. The token \<open>1000\<close> is read by it as
  the year 1000, which gives -30 610 224 000 000 and not 1000. And the bound is strict: a
  token whose number is 946 684 800 itself is not read as seconds; where the \<open>Date\<close>
  constructor makes nothing of the token (as of \<open>946684800abc\<close>), the result is \<open>NaN\<close>.
\<close>

theorem small_number_is_not_milliseconds:
  "parseTimestamp \<lparr>numeric = Some 1000, civil = Some (- 30610224000000)\<rparr>
     = Some (- 30610224000000)
   \<and> parseTimestamp \<lparr>numeric = Some 1000, civil = Some (- 30610224000000)\<rparr> \<noteq> Some 1000
   \<and> parseTimestamp \<lparr>numeric = Some 946684800, civil = None\<rparr> = None
   \<and> parseTimestamp \<lparr>numeric = Some 946684800, civil = None\<rparr> \<noteq> Some (946684800 * 1000)"
  by (simp add: parseTimestamp_def year2000Timestamp_def)

text \<open>
  Claim C8, amended. For a token with numeric value \<open>n\<close>, \<open>parseTimestamp\<close> returns \<open>n * 1000\<close>
  (seconds) when \<open>946 684 800 < n < 946 684 800 000\<close>, and \<open>n\<close> (milliseconds) when
  \<open>n > 946 684 800 000\<close>; for every other numeric value, and for a token that is not
  numeric, it returns what the \<open>Date\<close> constructor makes of the token (\<open>NaN\<close> when that is not
  a date).
\<close>

theorem parseTimestamp_cases:
  "(numeric tok = Some n \<and> 946684800 < n \<and> n < 946684800000
      \<longrightarrow> parseTimestamp tok = Some (n * 1000))
   \<and> (numeric tok = Some n \<and> 946684800000 < n \<longrightarrow> parseTimestamp tok = Some n)
   \<and> (numeric tok = Some n \<and> (n \<le> 946684800 \<or> n = 946684800000)
      \<longrightarrow> parseTimestamp tok = civil tok)
   \<and> (numeric tok = None \<longrightarrow> parseTimestamp tok = civil tok)"
  by (auto simp: parseTimestamp_def year2000Timestamp_def)

theorem parseTimestamp_cases_witness:
  "parseTimestamp \<lparr>numeric = Some 1700000000, civil = None\<rparr> = Some 1700000000000
   \<and> parseTimestamp \<lparr>numeric = Some 1700000000000, civil = None\<rparr> = Some 1700000000000
   \<and> parseTimestamp \<lparr>numeric = Some 1000, civil = Some (- 30610224000000)\<rparr>
       = Some (- 30610224000000)
   \<and> parseTimestamp \<lparr>numeric = Some 946684800000, civil = None\<rparr> = None
   \<and> parseTimestamp \<lparr>numeric = None, civil = Some 1700000000000\<rparr> = Some 1700000000000"
proof -
  have a: "parseTimestamp \<lparr>numeric = Some 1700000000, civil = None\<rparr> = Some 1700000000000"
    using parseTimestamp_cases[of "\<lparr>numeric = Some 1700000000, civil = None\<rparr>" 1700000000]
    by simp
  have b: "parseTimestamp \<lparr>numeric = Some 1700000000000, civil = None\<rparr> = Some 1700000000000"
    using parseTimestamp_cases[of "\<lparr>numeric = Some 1700000000000, civil = None\<rparr>" 1700000000000]
    by simp
  have c: "parseTimestamp \<lparr>numeric = Some 1000, civil = Some (- 30610224000000)\<rparr>
       = Some (- 30610224000000)"
    using parseTimestamp_cases[of "\<lparr>numeric = Some 1000, civil = Some (- 30610224000000)\<rparr>" 1000]
    by simp
  have d: "parseTimestamp \<lparr>numeric = Some 946684800000, civil = None\<rparr> = None"
    using parseTimestamp_cases[of "\<lparr>numeric = Some 946684800000, civil = None\<rparr>" 946684800000]
    by simp
  have e: "parseTimestamp \<lparr>numeric = None, civil = Some 1700000000000\<rparr> = Some 1700000000000"
    using parseTimestamp_cases[of "\<lparr>numeric = None, civil = Some 1700000000000\<rparr>" 0]
    by simp
  from a b c d e show ?thesis by blast
qed

end
